(* ===== verification/Prelude.thy ===== *)
theory Prelude
  imports Main
begin

text \<open>
  Shared vocabulary of the development: the program type in which the stateful operations
  of the crate are written, its weakest preconditions, and the collections of rules that
  drive the component proofs.

  A Rust method \<open>fn f(&mut self, ..) -> Result<A, E>\<close> becomes a value of type
  \<open>('s, 'e, 'a) prog\<close>: it takes the state and gives back the \<open>Result\<close> (as a sum, errors to
  the left) together with the new state.  \<open>None\<close> stands for an internal panic: an
  \<open>expect\<close>, an \<open>assert!\<close>, a \<open>debug_assert!\<close> or an \<open>unreachable!\<close> that fires.
\<close>

section \<open>Programs\<close>

type_synonym ('s, 'e, 'a) prog = "'s \<Rightarrow> (('e + 'a) \<times> 's) option"

named_theorems prog_defs \<open>definitions of the program combinators\<close>
named_theorems wp_rules \<open>weakest precondition equations of the combinators\<close>

definition ok :: "'a \<Rightarrow> ('s, 'e, 'a) prog" where [prog_defs]:
  "ok a = (\<lambda>s. Some (Inr a, s))"

definition fail :: "'e \<Rightarrow> ('s, 'e, 'a) prog" where [prog_defs]:
  "fail e = (\<lambda>s. Some (Inl e, s))"

definition panic :: "('s, 'e, 'a) prog" where [prog_defs]:
  "panic = (\<lambda>s. None)"

definition reads :: "('s \<Rightarrow> 'a) \<Rightarrow> ('s, 'e, 'a) prog" where [prog_defs]:
  "reads f = (\<lambda>s. Some (Inr (f s), s))"

definition updates :: "('s \<Rightarrow> 's) \<Rightarrow> ('s, 'e, unit) prog" where [prog_defs]:
  "updates f = (\<lambda>s. Some (Inr (), f s))"

text \<open>Sequencing: an error ends the program early (the \<open>?\<close> operator), a panic unwinds.\<close>

definition andthen :: "('s, 'e, 'a) prog \<Rightarrow> ('a \<Rightarrow> ('s, 'e, 'b) prog) \<Rightarrow> ('s, 'e, 'b) prog"
  where [prog_defs]:
  "andthen m f = (\<lambda>s. case m s of
       None \<Rightarrow> None
     | Some (Inl e, s') \<Rightarrow> Some (Inl e, s')
     | Some (Inr a, s') \<Rightarrow> f a s')"

text \<open>\<open>expect\<close>: an absent value is a panic.\<close>

definition expect :: "'a option \<Rightarrow> ('s, 'e, 'a) prog" where [prog_defs]:
  "expect x = (case x of None \<Rightarrow> panic | Some a \<Rightarrow> ok a)"

definition check :: "bool \<Rightarrow> ('s, 'e, unit) prog" where [prog_defs]:
  "check b = (if b then ok () else panic)"

text \<open>\<open>return Err(..)\<close> where the error is itself computed by a program.\<close>

definition return_err :: "('s, 'e, 'e) prog \<Rightarrow> ('s, 'e, 'a) prog" where [prog_defs]:
  "return_err m = andthen m fail"

text \<open>A \<open>match\<close> on the outcome of a fallible step that does not end the caller.\<close>

definition attempt :: "('s, 'x, 'a) prog \<Rightarrow> ('s, 'e, 'x + 'a) prog" where [prog_defs]:
  "attempt m = (\<lambda>s. case m s of None \<Rightarrow> None | Some (r, s') \<Rightarrow> Some (Inr r, s'))"

text \<open>A fallible read of the state (\<open>?\<close>), and a read that panics when it has no value.\<close>

definition try_reads :: "('s \<Rightarrow> 'e + 'a) \<Rightarrow> ('s, 'e, 'a) prog" where [prog_defs]:
  "try_reads f = (\<lambda>s. Some (f s, s))"

definition expect_reads :: "('s \<Rightarrow> 'a option) \<Rightarrow> ('s, 'e, 'a) prog" where [prog_defs]:
  "expect_reads f = (\<lambda>s. case f s of None \<Rightarrow> None | Some a \<Rightarrow> Some (Inr a, s))"

text \<open>\<open>map_err\<close>, and a state-preserving step that may not return.\<close>

definition map_err :: "('x \<Rightarrow> 'e) \<Rightarrow> ('s, 'x, 'a) prog \<Rightarrow> ('s, 'e, 'a) prog" where [prog_defs]:
  "map_err f m = (\<lambda>s. case m s of
       None \<Rightarrow> None
     | Some (Inl e, s') \<Rightarrow> Some (Inl (f e), s')
     | Some (Inr a, s') \<Rightarrow> Some (Inr a, s'))"

section \<open>Weakest preconditions\<close>

text \<open>
  \<open>wp m Q E s\<close>: from state \<open>s\<close> the program does not panic, a normal result satisfies \<open>Q\<close>
  and an error satisfies \<open>E\<close>, each with the state it is returned in.
\<close>

definition wp :: "('s, 'e, 'a) prog \<Rightarrow> ('a \<Rightarrow> 's \<Rightarrow> bool) \<Rightarrow> ('e \<Rightarrow> 's \<Rightarrow> bool) \<Rightarrow> 's \<Rightarrow> bool" where
  "wp m Q E s = (case m s of
       None \<Rightarrow> False
     | Some (Inl e, s') \<Rightarrow> E e s'
     | Some (Inr a, s') \<Rightarrow> Q a s')"

lemma wp_ok [wp_rules, simp]: "wp (ok a) Q E = Q a"
  by (simp add: wp_def ok_def fun_eq_iff)

lemma wp_fail [wp_rules, simp]: "wp (fail e) Q E = E e"
  by (simp add: wp_def fail_def fun_eq_iff)

lemma wp_panic [wp_rules, simp]: "wp panic Q E = (\<lambda>s. False)"
  by (simp add: wp_def panic_def fun_eq_iff)

lemma wp_reads [wp_rules, simp]: "wp (reads f) Q E = (\<lambda>s. Q (f s) s)"
  by (simp add: wp_def reads_def fun_eq_iff)

lemma wp_updates [wp_rules, simp]: "wp (updates f) Q E = (\<lambda>s. Q () (f s))"
  by (simp add: wp_def updates_def fun_eq_iff)

lemma wp_andthen [wp_rules, simp]:
  "wp (andthen m f) Q E = wp m (\<lambda>a. wp (f a) Q E) E"
  by (simp add: wp_def andthen_def fun_eq_iff split: option.split sum.split)

lemma wp_expect [wp_rules, simp]:
  "wp (expect x) Q E = (\<lambda>s. case x of None \<Rightarrow> False | Some a \<Rightarrow> Q a s)"
  by (simp add: expect_def split: option.split)

lemma wp_check [wp_rules, simp]: "wp (check b) Q E = (\<lambda>s. b \<and> Q () s)"
  by (simp add: check_def fun_eq_iff)

lemma wp_return_err [wp_rules, simp]: "wp (return_err m) Q E = wp m E E"
  by (simp add: return_err_def)

lemma wp_attempt [wp_rules, simp]:
  "wp (attempt m) Q E = wp m (\<lambda>a. Q (Inr a)) (\<lambda>e. Q (Inl e))"
  by (simp add: wp_def attempt_def fun_eq_iff split: option.split sum.split)

lemma wp_try_reads [wp_rules, simp]:
  "wp (try_reads f) Q E = (\<lambda>s. case f s of Inl e \<Rightarrow> E e s | Inr a \<Rightarrow> Q a s)"
  by (simp add: wp_def try_reads_def fun_eq_iff split: sum.split)

lemma wp_expect_reads [wp_rules, simp]:
  "wp (expect_reads f) Q E = (\<lambda>s. case f s of None \<Rightarrow> False | Some a \<Rightarrow> Q a s)"
  by (simp add: wp_def expect_reads_def fun_eq_iff split: option.split)

lemma wp_map_err [wp_rules, simp]: "wp (map_err f m) Q E = wp m Q (\<lambda>e. E (f e))"
  by (simp add: wp_def map_err_def fun_eq_iff split: option.split sum.split)

lemma wp_if [wp_rules, simp]:
  "wp (if b then m else n) Q E s = (if b then wp m Q E s else wp n Q E s)"
  by simp

lemma wp_mono:
  assumes "wp m Q' E' s"
    and "\<And>a s'. Q' a s' \<Longrightarrow> Q a s'" and "\<And>e s'. E' e s' \<Longrightarrow> E e s'"
  shows "wp m Q E s"
  using assms by (auto simp: wp_def split: option.splits sum.splits)

text \<open>For programs that cannot fail.\<close>

lemma wp_only:
  assumes "wp m Q' (\<lambda>_ _. False) s" and "\<And>a s'. Q' a s' \<Longrightarrow> Q a s'"
  shows "wp m Q E s"
  using assms by (auto intro: wp_mono)

lemma wp_seq:
  assumes "wp m R E s" and "\<And>a s'. R a s' \<Longrightarrow> wp (f a) Q E s'"
  shows "wp (andthen m f) Q E s"
  using assms by (auto intro: wp_mono)

lemma wp_conj:
  assumes "wp m Q E s" and "wp m Q' E' s"
  shows "wp m (\<lambda>a t. Q a t \<and> Q' a t) (\<lambda>e t. E e t \<and> E' e t) s"
  using assms by (auto simp: wp_def split: option.splits sum.splits)

text \<open>From a weakest precondition to a fact about one run.\<close>

lemma wp_returnD: "wp m Q E s \<Longrightarrow> m s = Some (Inr a, s') \<Longrightarrow> Q a s'"
  by (simp add: wp_def)

lemma wp_errorD: "wp m Q E s \<Longrightarrow> m s = Some (Inl e, s') \<Longrightarrow> E e s'"
  by (simp add: wp_def)

lemma wp_no_panic: "wp m Q E s \<Longrightarrow> m s \<noteq> None"
  by (cases "m s") (simp_all add: wp_def)

lemma wp_returns:
  assumes "wp m Q E s" and "\<And>e s'. \<not> E e s'"
  shows "\<exists>a s'. m s = Some (Inr a, s') \<and> Q a s'"
proof (cases "m s")
  case None
  then show ?thesis using assms(1) by (simp add: wp_def)
next
  case (Some p)
  then show ?thesis using assms by (cases p; cases "fst p") (auto simp: wp_def)
qed

text \<open>
  Facts about one given run need no absence of panics: \<open>post m R s\<close> constrains whatever
  \<open>m\<close> returns, and is empty for a panic.
\<close>

definition post :: "('s, 'e, 'a) prog \<Rightarrow> ('e + 'a \<Rightarrow> 's \<Rightarrow> bool) \<Rightarrow> 's \<Rightarrow> bool" where
  "post m R s = (\<forall>r s'. m s = Some (r, s') \<longrightarrow> R r s')"

lemma wp_post: "wp m Q E s \<Longrightarrow> post m (\<lambda>r t. case r of Inl e \<Rightarrow> E e t | Inr a \<Rightarrow> Q a t) s"
  by (auto simp: wp_def post_def split: sum.split)

text \<open>Running one program: the first step, and what the first step of a given run returned.\<close>

lemma andthen_run: "m s = Some (Inr a, s') \<Longrightarrow> andthen m f s = f a s'"
  by (simp add: andthen_def)

lemma andthen_returned:
  "andthen m f s = Some (Inr a, t) \<Longrightarrow> \<exists>b u. m s = Some (Inr b, u) \<and> f b u = Some (Inr a, t)"
  by (auto simp: andthen_def split: option.splits sum.splits)

lemma reads_run: "reads f s = Some (Inr (f s), s)"
  by (simp add: reads_def)

section \<open>Loops\<close>

text \<open>
  \<open>loop { .. }\<close> around a body whose value is \<open>Some\<close> of the loop's result when the body
  breaks or returns, and \<open>None\<close> when it reaches its end.  A loop that never leaves has the
  value \<open>None\<close>, as a panic has: \<open>wp\<close> excludes both.
\<close>

partial_function (option) loops :: "('s, 'e, 'a option) prog \<Rightarrow> 's \<Rightarrow> (('e + 'a) \<times> 's) option" where
  [code]: "loops body s = (case body s of
       None \<Rightarrow> None
     | Some (r, s') \<Rightarrow>
         (case r of
            Inl e \<Rightarrow> Some (Inl e, s')
          | Inr None \<Rightarrow> loops body s'
          | Inr (Some a) \<Rightarrow> Some (Inr a, s')))"

lemma wp_loops_unfold:
  "wp body (\<lambda>r s'. case r of None \<Rightarrow> wp (loops body) Q E s' | Some a \<Rightarrow> Q a s') E s
     \<Longrightarrow> wp (loops body) Q E s"
  unfolding wp_def [of "loops body"] wp_def [of body]
  by (subst loops.simps) (auto simp: wp_def split: option.splits sum.splits)

text \<open>Total correctness: an invariant, and a measure that every full pass decreases.\<close>

lemma wp_loops:
  fixes m :: "'s \<Rightarrow> nat"
  assumes body: "\<And>s. I s \<Longrightarrow>
      wp body (\<lambda>r s'. case r of None \<Rightarrow> I s' \<and> m s' < m s | Some a \<Rightarrow> Q a s') E s"
    and "I s"
  shows "wp (loops body) Q E s"
  using \<open>I s\<close>
proof (induction "m s" arbitrary: s rule: less_induct)
  case less
  have "wp body (\<lambda>r s'. case r of None \<Rightarrow> wp (loops body) Q E s' | Some a \<Rightarrow> Q a s') E s"
    by (rule wp_mono [OF body [OF less.prems]]) (auto split: option.splits intro: less.hyps)
  then show ?case by (rule wp_loops_unfold)
qed

text \<open>
  Partial correctness of one given run: what every pass keeps holds of the result, whether
  or not other runs return.
\<close>

lemma loops_induct:
  assumes "loops body s = Some (r, t)" and "I s"
    and "\<And>s s'. I s \<Longrightarrow> body s = Some (Inr None, s') \<Longrightarrow> I s'"
    and "\<And>s t a. I s \<Longrightarrow> body s = Some (Inr (Some a), t) \<Longrightarrow> P (Inr a) t"
    and "\<And>s t e. I s \<Longrightarrow> body s = Some (Inl e, t) \<Longrightarrow> P (Inl e) t"
  shows "P r t"
proof -
  have "b = body \<Longrightarrow> I u \<Longrightarrow> P (fst y) (snd y)" if "loops b u = Some y" for b u y
    using that
  proof (induction b u y rule: loops.raw_induct [rotated, consumes 1, case_names step])
    case (step loops' b u y)
    then show ?case
      using assms(3,4,5) [OF step.prems(2)]
      by (auto split: option.splits sum.splits prod.splits)
  qed
  from this [OF assms(1) refl assms(2)] show ?thesis by simp
qed

section \<open>What a program keeps\<close>

text \<open>
  \<open>keeps P m\<close>: whatever \<open>m\<close> returns, it returns in a state with \<open>P\<close> when it was started in
  one.  The collection has a rule per combinator, so that a composite program is settled by
  the facts about the primitive steps it calls.
\<close>

definition keeps :: "('s \<Rightarrow> bool) \<Rightarrow> ('s, 'e, 'a) prog \<Rightarrow> bool" where
  "keeps P m \<longleftrightarrow> (\<forall>s. P s \<longrightarrow> post m (\<lambda>_. P) s)"

named_theorems keeps_rules \<open>preservation of a predicate, by combinator\<close>

lemma keepsI: "(\<And>s r t. P s \<Longrightarrow> m s = Some (r, t) \<Longrightarrow> P t) \<Longrightarrow> keeps P m"
  by (simp add: keeps_def post_def)

lemma keepsD: "keeps P m \<Longrightarrow> m s = Some (r, t) \<Longrightarrow> P s \<Longrightarrow> P t"
  by (simp add: keeps_def post_def)

lemma keeps_basic [keeps_rules]:
  "keeps P (ok a)" "keeps P (fail e)" "keeps P panic" "keeps P (reads f)" "keeps P (expect x)"
  "keeps P (check b)" "keeps P (try_reads g)" "keeps P (expect_reads h)"
  by (rule keepsI; auto simp: prog_defs split: option.splits if_splits)+

lemma keeps_updates [keeps_rules]: "(\<And>s. P s \<Longrightarrow> P (f s)) \<Longrightarrow> keeps P (updates f)"
  by (rule keepsI) (auto simp: prog_defs)

lemma keeps_andthen [keeps_rules]:
  "keeps P m \<Longrightarrow> (\<And>a. keeps P (f a)) \<Longrightarrow> keeps P (andthen m f)"
  by (rule keepsI) (auto simp: andthen_def split: option.splits sum.splits prod.splits dest!: keepsD)

lemma keeps_return_err [keeps_rules]: "keeps P m \<Longrightarrow> keeps P (return_err m)"
  unfolding return_err_def by (intro keeps_rules)

lemma keeps_attempt [keeps_rules]: "keeps P m \<Longrightarrow> keeps P (attempt m)"
  by (rule keepsI) (auto simp: attempt_def split: option.splits dest!: keepsD)

lemma keeps_map_err [keeps_rules]: "keeps P m \<Longrightarrow> keeps P (map_err f m)"
  by (rule keepsI) (auto simp: map_err_def split: option.splits sum.splits prod.splits dest!: keepsD)

lemma keeps_cases [keeps_rules]:
  "keeps P m \<Longrightarrow> keeps P n \<Longrightarrow> keeps P (if b then m else n)"
  "keeps P m \<Longrightarrow> (\<And>a. keeps P (f a)) \<Longrightarrow> keeps P (case x of None \<Rightarrow> m | Some a \<Rightarrow> f a)"
  "(\<And>a. keeps P (g a)) \<Longrightarrow> (\<And>b. keeps P (h b)) \<Longrightarrow> keeps P (case y of Inl a \<Rightarrow> g a | Inr b \<Rightarrow> h b)"
  "(\<And>a b. keeps P (k a b)) \<Longrightarrow> keeps P (case z of (a, b) \<Rightarrow> k a b)"
  by (simp_all split: option.split sum.split prod.split)

lemma keeps_loops [keeps_rules]: "keeps P m \<Longrightarrow> keeps P (loops m)"
proof (rule keepsI)
  fix s r t
  assume "keeps P m" and "P s" and "loops m s = Some (r, t)"
  from this(3,2) show "P t"
    by (rule loops_induct [where I = P and P = "\<lambda>_. P"]) (rule keepsD [OF \<open>keeps P m\<close>]; assumption)+
qed

text \<open>Total correctness of a run, joined with what it keeps.\<close>

lemma wp_keeps:
  assumes "wp m Q E s" and "keeps P m" and "P s"
  shows "wp m (\<lambda>a t. Q a t \<and> P t) (\<lambda>e t. E e t \<and> P t) s"
  using assms keepsD [OF assms(2)] by (auto simp: wp_def split: option.splits sum.splits)

section \<open>Sums and options\<close>

definition map_right :: "('a \<Rightarrow> 'b) \<Rightarrow> 'e + 'a \<Rightarrow> 'e + 'b" where
  "map_right f r = (case r of Inl e \<Rightarrow> Inl e | Inr a \<Rightarrow> Inr (f a))"

lemma map_right_simps [simp]:
  "map_right f (Inl e) = Inl e"
  "map_right f (Inr a) = Inr (f a)"
  by (simp_all add: map_right_def)

definition map_left :: "('e \<Rightarrow> 'f) \<Rightarrow> 'e + 'a \<Rightarrow> 'f + 'a" where
  "map_left f r = (case r of Inl e \<Rightarrow> Inl (f e) | Inr a \<Rightarrow> Inr a)"

lemma map_left_simps [simp]:
  "map_left f (Inl e) = Inl (f e)"
  "map_left f (Inr a) = Inr a"
  by (simp_all add: map_left_def)

lemma map_left_Inr_iff [simp]: "map_left f r = Inr a \<longleftrightarrow> r = Inr a"
  by (cases r) simp_all

definition is_some_and :: "('a \<Rightarrow> bool) \<Rightarrow> 'a option \<Rightarrow> bool" where
  "is_some_and p x = (case x of None \<Rightarrow> False | Some a \<Rightarrow> p a)"

lemma is_some_and_simps [simp]:
  "is_some_and p None = False"
  "is_some_and p (Some a) = p a"
  by (simp_all add: is_some_and_def)

text \<open>\<open>opt.map(f).transpose()\<close> of an optional fallible conversion.\<close>

definition transpose_map :: "('a \<Rightarrow> 'e + 'b) \<Rightarrow> 'a option \<Rightarrow> 'e + 'b option" where
  "transpose_map f x = (case x of
       None \<Rightarrow> Inr None
     | Some a \<Rightarrow> (case f a of Inl e \<Rightarrow> Inl e | Inr b \<Rightarrow> Inr (Some b)))"

lemma transpose_map_simps [simp]:
  "transpose_map f None = Inr None"
  "transpose_map f (Some a) = map_right Some (f a)"
  by (simp_all add: transpose_map_def map_right_def split: sum.split)

end
