(* ===== verification/Rust_Std.thy ===== *)
theory Rust_Std
  imports Prelude "HOL-Library.Word"
begin

text \<open>
  The parts of the Rust standard library the crate computes with, at their width: \<open>u32\<close>
  and \<open>u64\<close> as words, \<open>NonZeroU32\<close> and \<open>std::time::Duration\<close> as types of their own.

  A \<open>Duration\<close> holds \<open>u64\<close> seconds and a nanosecond part below one second.  It is
  modelled by its total number of nanoseconds, which determines both fields and their
  derived order; the bound of the type is exactly the one of the two fields.
\<close>

section \<open>Unsigned integers\<close>

type_synonym u32 = "32 word"
type_synonym u64 = "64 word"

definition u32_saturating_add :: "u32 \<Rightarrow> u32 \<Rightarrow> u32" where
  "u32_saturating_add a b =
     (if unat a + unat b < 2 ^ 32 then a + b else 4294967295)"

definition u32_saturating_sub :: "u32 \<Rightarrow> u32 \<Rightarrow> u32" where
  "u32_saturating_sub a b = (if b \<le> a then a - b else 0)"

lemma unat_u32_bound: "unat (a :: u32) < 2 ^ 32"
proof -
  have "unat a < 2 ^ LENGTH(32)" by (rule unsigned_less)
  then show ?thesis by simp
qed

lemma unat_u64_bound: "unat (a :: u64) < 2 ^ 64"
proof -
  have "unat a < 2 ^ LENGTH(64)" by (rule unsigned_less)
  then show ?thesis by simp
qed

lemma unat_u32_saturating_add:
  "unat (u32_saturating_add a b) = min (unat a + unat b) (2 ^ 32 - 1)"
  by (auto simp: u32_saturating_add_def unat_word_ariths)

lemma unat_u32_saturating_sub: "unat (u32_saturating_sub a b) = unat a - unat b"
  by (auto simp: u32_saturating_sub_def unat_sub word_le_nat_alt)

lemma u32_saturating_succ_nonzero: "u32_saturating_add a 1 \<noteq> 0"
proof -
  have "0 < unat (u32_saturating_add a 1)"
    by (simp add: unat_u32_saturating_add)
  then show ?thesis by auto
qed

section \<open>Non-zero integers\<close>

typedef nonzero_u32 = "{w :: u32. w \<noteq> 0}"
  morphisms nz_get Abs_nonzero_u32
  by (rule exI [of _ 1]) simp

setup_lifting type_definition_nonzero_u32

text \<open>\<open>NonZeroU32::new\<close>.\<close>

definition nz_new :: "u32 \<Rightarrow> nonzero_u32 option" where
  "nz_new w = (if w = 0 then None else Some (Abs_nonzero_u32 w))"

lemma nz_get_nonzero [simp]: "nz_get n \<noteq> 0"
  using nz_get [of n] by simp

lemma nz_get_pos: "0 < unat (nz_get n)"
  using nz_get_nonzero [of n] unat_gt_0 by blast

lemma nz_get_Abs [simp]: "w \<noteq> 0 \<Longrightarrow> nz_get (Abs_nonzero_u32 w) = w"
  by (simp add: Abs_nonzero_u32_inverse)

lemma nz_new_zero [simp]: "nz_new 0 = None"
  by (simp add: nz_new_def)

lemma nz_new_Some_iff: "nz_new w = Some n \<longleftrightarrow> nz_get n = w"
  by (auto simp: nz_new_def nz_get_inverse)

lemma nz_new_None_iff [simp]: "nz_new w = None \<longleftrightarrow> w = 0"
  by (simp add: nz_new_def)

lemma nz_new_get [simp]: "nz_new (nz_get n) = Some n"
  by (simp add: nz_new_Some_iff)

lemma nz_get_inject_iff [simp]: "nz_get m = nz_get n \<longleftrightarrow> m = n"
  by (rule nz_get_inject)

section \<open>Durations\<close>

definition nanos_per_sec :: nat where
  "nanos_per_sec = 1000000000"

definition max_nanos :: nat where
  "max_nanos = 18446744073709551615999999999"

typedef duration = "{n :: nat. n \<le> max_nanos}"
  morphisms as_nanos Abs_duration
  by (rule exI [of _ 0]) simp

setup_lifting type_definition_duration

lemma as_nanos_le_max [simp]: "as_nanos d \<le> max_nanos"
  using as_nanos [of d] by simp

lemma max_nanos_eq: "max_nanos = (2 ^ 64 - 1) * nanos_per_sec + (nanos_per_sec - 1)"
  by (simp add: max_nanos_def nanos_per_sec_def)

lemma duration_eq_iff: "d = e \<longleftrightarrow> as_nanos d = as_nanos e"
  by (simp add: as_nanos_inject)

text \<open>A number of nanoseconds, capped at the largest representable duration.\<close>

lift_definition of_nanos :: "nat \<Rightarrow> duration" is "\<lambda>n. min n max_nanos"
  by simp

lemma as_nanos_of_nanos [simp]: "as_nanos (of_nanos n) = min n max_nanos"
  by (rule of_nanos.rep_eq)

lemma of_nanos_as_nanos [simp]: "of_nanos (as_nanos d) = d"
  by (simp add: duration_eq_iff)

instantiation duration :: equal
begin

definition equal_duration :: "duration \<Rightarrow> duration \<Rightarrow> bool" where
  "equal_duration a b \<longleftrightarrow> as_nanos a = as_nanos b"

instance
  by standard (simp add: equal_duration_def duration_eq_iff)

end

text \<open>The derived \<open>Ord\<close> of \<open>Duration\<close>, seconds before nanoseconds, is the order of totals.\<close>

instantiation duration :: linorder
begin

definition less_eq_duration :: "duration \<Rightarrow> duration \<Rightarrow> bool" where
  "less_eq_duration a b \<longleftrightarrow> as_nanos a \<le> as_nanos b"

definition less_duration :: "duration \<Rightarrow> duration \<Rightarrow> bool" where
  "less_duration a b \<longleftrightarrow> as_nanos a < as_nanos b"

instance
  by standard (auto simp: less_eq_duration_def less_duration_def duration_eq_iff)

end

instantiation duration :: zero
begin

definition zero_duration :: duration where
  "zero_duration = of_nanos 0"

instance ..

end

lemma as_nanos_zero [simp]: "as_nanos 0 = 0"
  by (simp add: zero_duration_def)

lemma duration_zero_le [simp]: "(0 :: duration) \<le> d"
  by (simp add: less_eq_duration_def)

lemma duration_le_zero [simp]: "d \<le> (0 :: duration) \<longleftrightarrow> d = 0"
  by (simp add: less_eq_duration_def duration_eq_iff)

lemma as_nanos_min [simp]: "as_nanos (min a b) = min (as_nanos a) (as_nanos b)"
  by (simp add: min_def less_eq_duration_def)

lemma as_nanos_max [simp]: "as_nanos (max a b) = max (as_nanos a) (as_nanos b)"
  by (simp add: max_def less_eq_duration_def)

definition duration_max :: duration where
  "duration_max = of_nanos max_nanos"

lemma as_nanos_duration_max [simp]: "as_nanos duration_max = max_nanos"
  by (simp add: duration_max_def)

lemma duration_le_max [simp]: "d \<le> duration_max"
  by (simp add: less_eq_duration_def)

definition dur_is_zero :: "duration \<Rightarrow> bool" where
  "dur_is_zero d \<longleftrightarrow> as_nanos d = 0"

lemma dur_is_zero_iff [simp]: "dur_is_zero d \<longleftrightarrow> d = 0"
  by (simp add: dur_is_zero_def duration_eq_iff)

definition dur_saturating_add :: "duration \<Rightarrow> duration \<Rightarrow> duration" where
  "dur_saturating_add a b = of_nanos (as_nanos a + as_nanos b)"

definition dur_saturating_sub :: "duration \<Rightarrow> duration \<Rightarrow> duration" where
  "dur_saturating_sub a b = of_nanos (as_nanos a - as_nanos b)"

definition dur_checked_add :: "duration \<Rightarrow> duration \<Rightarrow> duration option" where
  "dur_checked_add a b =
     (if as_nanos a + as_nanos b \<le> max_nanos then Some (of_nanos (as_nanos a + as_nanos b))
      else None)"

lemma as_nanos_saturating_add [simp]:
  "as_nanos (dur_saturating_add a b) = min (as_nanos a + as_nanos b) max_nanos"
  by (simp add: dur_saturating_add_def)

lemma as_nanos_saturating_sub [simp]:
  "as_nanos (dur_saturating_sub a b) = as_nanos a - as_nanos b"
  using le_trans [OF diff_le_self as_nanos_le_max] by (simp add: dur_saturating_sub_def)

lemma dur_saturating_add_ge: "a \<le> dur_saturating_add a b"
  by (simp add: less_eq_duration_def)

text \<open>The two fields of a \<open>Duration\<close>.\<close>

definition as_secs :: "duration \<Rightarrow> u64" where
  "as_secs d = word_of_nat (as_nanos d div nanos_per_sec)"

definition subsec_nanos :: "duration \<Rightarrow> u32" where
  "subsec_nanos d = word_of_nat (as_nanos d mod nanos_per_sec)"

definition from_secs :: "u64 \<Rightarrow> duration" where
  "from_secs s = of_nanos (unat s * nanos_per_sec)"

definition from_nanos :: "u64 \<Rightarrow> duration" where
  "from_nanos n = of_nanos (unat n)"

lemma unat_as_secs: "unat (as_secs d) = as_nanos d div nanos_per_sec"
proof -
  have "as_nanos d div nanos_per_sec \<le> max_nanos div nanos_per_sec"
    by (intro div_le_mono) simp
  also have "\<dots> < 2 ^ 64" by (simp add: max_nanos_def nanos_per_sec_def)
  finally show ?thesis
    by (simp add: as_secs_def unat_of_nat)
qed

lemma unat_subsec_nanos: "unat (subsec_nanos d) = as_nanos d mod nanos_per_sec"
proof -
  have "as_nanos d mod nanos_per_sec < nanos_per_sec"
    by (simp add: nanos_per_sec_def)
  also have "nanos_per_sec < 2 ^ 32" by (simp add: nanos_per_sec_def)
  finally show ?thesis
    by (simp add: subsec_nanos_def unat_of_nat)
qed

lemma as_nanos_from_secs: "as_nanos (from_secs s) = unat s * nanos_per_sec"
proof -
  have "unat s \<le> 2 ^ 64 - 1" using unat_u64_bound [of s] by simp
  then have "unat s * nanos_per_sec \<le> max_nanos"
    by (simp add: max_nanos_def nanos_per_sec_def)
  then show ?thesis by (simp add: from_secs_def)
qed

lemma as_nanos_from_nanos: "as_nanos (from_nanos n) = unat n"
proof -
  have "unat n \<le> 2 ^ 64 - 1" using unat_u64_bound [of n] by simp
  then have "unat n \<le> max_nanos" by (simp add: max_nanos_def)
  then show ?thesis by (simp add: from_nanos_def)
qed

lemma duration_fields:
  "as_nanos d = unat (as_secs d) * nanos_per_sec + unat (subsec_nanos d)"
  by (simp add: unat_as_secs unat_subsec_nanos)

end
