(* ===== verification/Float64.thy ===== *)
theory Float64
  imports Complex_Main Rust_Std
begin

text \<open>
  \<open>f64\<close>, the IEEE 754 binary64 arithmetic of Rust, as far as the delay calculations use
  it.  A finite value is the rational number it stands for; every arithmetic operation is
  the exact result rounded to nearest, ties to even, with gradual underflow and overflow to
  infinity.  The two zeros are one value here: the code compares with \<open>0.0\<close> only by \<open>==\<close>
  and \<open><\<close>, which do not tell them apart, and never divides by a computed value.

  \<open>powf\<close> has no entry: its precision is unspecified by the standard library, so the
  development takes it as a parameter (theory Dependencies).
\<close>

section \<open>Values and rounding\<close>

datatype f64 = F64_NaN | F64_PosInf | F64_NegInf | F64_Fin rat

function ilog2 :: "int \<Rightarrow> int" where
  "ilog2 n = (if n < 2 then 0 else 1 + ilog2 (n div 2))"
  by pat_completeness auto
termination
  by (relation "measure nat") auto

declare ilog2.simps [simp del]

definition pow2 :: "int \<Rightarrow> rat" where
  "pow2 e = (if 0 \<le> e then 2 ^ nat e else 1 / 2 ^ nat (- e))"

text \<open>
  The exponent of the binade that holds a positive rational: the \<open>k\<close> with
  \<open>pow2 k \<le> q < pow2 (k + 1)\<close>.
\<close>

definition binade :: "rat \<Rightarrow> int" where
  "binade q =
     (if 1 \<le> q then ilog2 \<lfloor>q\<rfloor>
      else (let k = - ilog2 \<lfloor>1 / q\<rfloor> in if pow2 k \<le> q then k else k - 1))"

definition round_half_even :: "rat \<Rightarrow> int" where
  "round_half_even q =
     (let f = \<lfloor>q\<rfloor>; r = q - of_int f
      in if r < 1 / 2 then f else if 1 / 2 < r then f + 1 else if even f then f else f + 1)"

definition f64_of_rat :: "rat \<Rightarrow> f64" where
  "f64_of_rat q =
     (if q = 0 then F64_Fin 0
      else
        (let e = max (binade \<bar>q\<bar>) (- 1022) - 52;
             r = of_int (round_half_even (q / pow2 e)) * pow2 e
         in if pow2 1024 \<le> r then F64_PosInf
            else if r \<le> - pow2 1024 then F64_NegInf
            else F64_Fin r))"

section \<open>Operations\<close>

definition f64_zero :: f64 where
  "f64_zero = F64_Fin 0"

definition f64_one :: f64 where
  "f64_one = F64_Fin 1"

fun f64_is_finite :: "f64 \<Rightarrow> bool" where
  "f64_is_finite (F64_Fin q) = True"
| "f64_is_finite _ = False"

fun f64_neg :: "f64 \<Rightarrow> f64" where
  "f64_neg F64_NaN = F64_NaN"
| "f64_neg F64_PosInf = F64_NegInf"
| "f64_neg F64_NegInf = F64_PosInf"
| "f64_neg (F64_Fin q) = F64_Fin (- q)"

fun f64_add :: "f64 \<Rightarrow> f64 \<Rightarrow> f64" where
  "f64_add (F64_Fin a) (F64_Fin b) = f64_of_rat (a + b)"
| "f64_add F64_NaN _ = F64_NaN"
| "f64_add _ F64_NaN = F64_NaN"
| "f64_add F64_PosInf F64_NegInf = F64_NaN"
| "f64_add F64_NegInf F64_PosInf = F64_NaN"
| "f64_add F64_PosInf _ = F64_PosInf"
| "f64_add F64_NegInf _ = F64_NegInf"
| "f64_add (F64_Fin a) b = b"

definition f64_sub :: "f64 \<Rightarrow> f64 \<Rightarrow> f64" where
  "f64_sub a b = f64_add a (f64_neg b)"

definition f64_signed_inf :: "bool \<Rightarrow> f64" where
  "f64_signed_inf negative = (if negative then F64_NegInf else F64_PosInf)"

definition f64_scale_inf :: "bool \<Rightarrow> rat \<Rightarrow> f64" where
  "f64_scale_inf negative q =
     (if q = 0 then F64_NaN else f64_signed_inf (negative \<noteq> (q < 0)))"

fun f64_mul :: "f64 \<Rightarrow> f64 \<Rightarrow> f64" where
  "f64_mul (F64_Fin a) (F64_Fin b) = f64_of_rat (a * b)"
| "f64_mul F64_NaN _ = F64_NaN"
| "f64_mul _ F64_NaN = F64_NaN"
| "f64_mul F64_PosInf F64_PosInf = F64_PosInf"
| "f64_mul F64_PosInf F64_NegInf = F64_NegInf"
| "f64_mul F64_NegInf F64_PosInf = F64_NegInf"
| "f64_mul F64_NegInf F64_NegInf = F64_PosInf"
| "f64_mul F64_PosInf (F64_Fin q) = f64_scale_inf False q"
| "f64_mul F64_NegInf (F64_Fin q) = f64_scale_inf True q"
| "f64_mul (F64_Fin q) F64_PosInf = f64_scale_inf False q"
| "f64_mul (F64_Fin q) F64_NegInf = f64_scale_inf True q"

fun f64_less :: "f64 \<Rightarrow> f64 \<Rightarrow> bool" where
  "f64_less (F64_Fin a) (F64_Fin b) \<longleftrightarrow> a < b"
| "f64_less F64_NaN _ \<longleftrightarrow> False"
| "f64_less _ F64_NaN \<longleftrightarrow> False"
| "f64_less F64_PosInf _ \<longleftrightarrow> False"
| "f64_less _ F64_PosInf \<longleftrightarrow> True"
| "f64_less _ F64_NegInf \<longleftrightarrow> False"
| "f64_less F64_NegInf _ \<longleftrightarrow> True"

fun f64_eq :: "f64 \<Rightarrow> f64 \<Rightarrow> bool" where
  "f64_eq F64_NaN _ \<longleftrightarrow> False"
| "f64_eq a b \<longleftrightarrow> a = b"

definition f64_le :: "f64 \<Rightarrow> f64 \<Rightarrow> bool" where
  "f64_le a b \<longleftrightarrow> f64_less a b \<or> f64_eq a b"

text \<open>\<open>f64::max\<close> ignores a NaN; \<open>f64::clamp\<close> keeps it.\<close>

definition f64_max :: "f64 \<Rightarrow> f64 \<Rightarrow> f64" where
  "f64_max a b =
     (if a = F64_NaN then b else if b = F64_NaN then a else if f64_less a b then b else a)"

definition f64_clamp :: "f64 \<Rightarrow> f64 \<Rightarrow> f64 \<Rightarrow> f64" where
  "f64_clamp x lo hi =
     (let y = (if f64_less x lo then lo else x)
      in if f64_less hi y then hi else y)"

section \<open>Durations in seconds\<close>

definition f64_of_nat :: "nat \<Rightarrow> f64" where
  "f64_of_nat n = f64_of_rat (of_nat n)"

text \<open>\<open>Duration::as_secs_f64\<close>: the seconds and the fraction are rounded, then their sum.\<close>

definition as_secs_f64 :: "duration \<Rightarrow> f64" where
  "as_secs_f64 d =
     f64_add (f64_of_nat (as_nanos d div nanos_per_sec))
       (f64_of_rat (of_nat (as_nanos d mod nanos_per_sec) / of_nat nanos_per_sec))"

text \<open>
  \<open>Duration::try_from_secs_f64\<close>: the exact value in nanoseconds, rounded to nearest even;
  negative, non-finite and too large values are errors.
\<close>

fun try_from_secs_f64 :: "f64 \<Rightarrow> duration option" where
  "try_from_secs_f64 (F64_Fin q) =
     (if q < 0 then None
      else
        (let n = nat (round_half_even (q * of_nat nanos_per_sec))
         in if n \<le> max_nanos then Some (of_nanos n) else None))"
| "try_from_secs_f64 _ = None"

section \<open>Facts\<close>

lemma f64_eq_iff: "f64_eq a b \<longleftrightarrow> a = b \<and> a \<noteq> F64_NaN"
  by (cases a) auto

lemma f64_less_irrefl [simp]: "\<not> f64_less a a"
  by (cases a) auto

lemma f64_is_finite_iff: "f64_is_finite x \<longleftrightarrow> (\<exists>q. x = F64_Fin q)"
  by (cases x) auto

lemma f64_clamp_unit_cases:
  "f64_clamp x f64_zero f64_one = x \<and> (x = F64_NaN \<or> (\<exists>q. x = F64_Fin q \<and> 0 \<le> q \<and> q \<le> 1))
   \<or> f64_clamp x f64_zero f64_one = f64_zero \<or> f64_clamp x f64_zero f64_one = f64_one"
  by (cases x) (auto simp: f64_clamp_def f64_zero_def f64_one_def)

end
