(* ===== verification/Dependencies.thy ===== *)
theory Dependencies
  imports Float64
begin

text \<open>
  The code the crate calls and does not contain, as one record of functions that every
  definition using it takes as an argument:
  \<^item> \<open>qubit_clock\<close>: monotonic instants, their domains and their checked arithmetic, and
    the display text of a \<open>TimeError\<close>;
  \<^item> \<open>qubit_budget\<close>: the counting \<open>ResourceBudget\<close> that holds the admitted attempts;
  \<^item> \<open>fastrand\<close>: the thread-local generator behind the default random source;
  \<^item> \<open>powf\<close>, whose precision the standard library leaves open.

  What the crate relies on is stated as laws in the locales \<open>instant_laws\<close> and
  \<open>counter_laws\<close>; \<open>deps_laws\<close> joins them.  Instants carry a domain, and two instants are
  comparable only inside one domain.

  Effects on the outside (time passing, tokens being cancelled by other threads, callback
  side effects, random generators) are changes of an abstract world of type \<open>'w\<close>.
\<close>

section \<open>The interface\<close>

text \<open>The diagnostic label the crate attaches to its attempt counter.\<close>

datatype retry_resource = ResourceAttempts

record ('i, 'd, 'x, 'b, 'w) deps =
  duration_since :: "'i \<Rightarrow> 'i \<Rightarrow> 'x + duration"
  instant_checked_add :: "'i \<Rightarrow> duration \<Rightarrow> 'x + 'i"
  instant_domain :: "'i \<Rightarrow> 'd"
  validate_domain :: "'i \<Rightarrow> 'd \<Rightarrow> 'x + unit"
  since_origin :: "'i \<Rightarrow> duration"
  time_error_text :: "'x \<Rightarrow> string"
  counter_new :: "retry_resource \<Rightarrow> u32 \<Rightarrow> 'b"
  counter_remaining :: "'b \<Rightarrow> u32"
  counter_used :: "'b \<Rightarrow> u32"
  counter_consume_available :: "'b \<Rightarrow> u32 \<Rightarrow> u32 \<times> 'b"
  powf :: "f64 \<Rightarrow> f64 \<Rightarrow> f64"
  fastrand_f64_inclusive :: "'w \<Rightarrow> f64 \<times> 'w"

text \<open>A monotonic clock is read by a step of the world.\<close>

type_synonym ('i, 'w) clock_reader = "'w \<Rightarrow> 'i \<times> 'w"

section \<open>Laws\<close>

locale instant_laws =
  fixes X :: "('i, 'd, 'x, 'b, 'w) deps"
  assumes since_ok:
      "instant_domain X a = instant_domain X b \<Longrightarrow> since_origin X b \<le> since_origin X a \<Longrightarrow>
       duration_since X a b = Inr (dur_saturating_sub (since_origin X a) (since_origin X b))"
    and since_domain:
      "instant_domain X a \<noteq> instant_domain X b \<Longrightarrow> \<exists>e. duration_since X a b = Inl e"
    and since_regression:
      "since_origin X a < since_origin X b \<Longrightarrow> \<exists>e. duration_since X a b = Inl e"
    and add_ok:
      "instant_checked_add X a d = Inr c \<Longrightarrow>
       instant_domain X c = instant_domain X a \<and>
       as_nanos (since_origin X c) = as_nanos (since_origin X a) + as_nanos d"
    and validate_iff:
      "validate_domain X a D = Inr () \<longleftrightarrow> instant_domain X a = D"
begin

lemma since_Inr_iff:
  "duration_since X a b = Inr d \<longleftrightarrow>
     instant_domain X a = instant_domain X b \<and> since_origin X b \<le> since_origin X a \<and>
     d = dur_saturating_sub (since_origin X a) (since_origin X b)"
proof (cases "instant_domain X a = instant_domain X b \<and> since_origin X b \<le> since_origin X a")
  case True
  then show ?thesis using since_ok [of a b] by auto
next
  case False
  then consider "instant_domain X a \<noteq> instant_domain X b" | "since_origin X a < since_origin X b"
    by fastforce
  then show ?thesis
    using False since_domain [of a b] since_regression [of a b] by cases auto
qed

lemma since_self [simp]: "duration_since X a a = Inr 0"
  by (simp add: since_Inr_iff duration_eq_iff)

lemma since_Inl_iff:
  "(\<exists>e. duration_since X a b = Inl e) \<longleftrightarrow>
     \<not> (instant_domain X a = instant_domain X b \<and> since_origin X b \<le> since_origin X a)"
  using since_Inr_iff [of a b] by (cases "duration_since X a b") auto

end

locale counter_laws =
  fixes X :: "('i, 'd, 'x, 'b, 'w) deps"
  assumes new_used: "counter_used X (counter_new X r n) = 0"
    and new_remaining: "counter_remaining X (counter_new X r n) = n"
    and consume_amount:
      "fst (counter_consume_available X b n) = min n (counter_remaining X b)"
    and consume_used:
      "unat (counter_used X b) + unat (counter_remaining X b) < 2 ^ 32 \<Longrightarrow>
       counter_used X (snd (counter_consume_available X b n)) =
       counter_used X b + min n (counter_remaining X b)"
    and consume_remaining:
      "unat (counter_used X b) + unat (counter_remaining X b) < 2 ^ 32 \<Longrightarrow>
       counter_remaining X (snd (counter_consume_available X b n)) =
       counter_remaining X b - min n (counter_remaining X b)"

locale deps_laws = instant_laws X + counter_laws X
  for X :: "('i, 'd, 'x, 'b, 'w) deps"

section \<open>A manual clock and a counting budget\<close>

text \<open>
  A concrete instance, the one the closed witnesses run on: instants are a domain number
  and the time since its origin, as those of a manual test clock; the counter is its
  limit and the used amount.  It shows that the laws can hold together.
\<close>

definition manual_since :: "nat \<times> duration \<Rightarrow> nat \<times> duration \<Rightarrow> string + duration" where
  "manual_since a b =
     (if fst a \<noteq> fst b then Inl ''clock domain mismatch''
      else if snd a < snd b then Inl ''monotonic clock moved backward''
      else Inr (dur_saturating_sub (snd a) (snd b)))"

definition manual_add :: "nat \<times> duration \<Rightarrow> duration \<Rightarrow> string + nat \<times> duration" where
  "manual_add a d =
     (case dur_checked_add (snd a) d of
        None \<Rightarrow> Inl ''monotonic instant overflow''
      | Some t \<Rightarrow> Inr (fst a, t))"

definition manual_validate :: "nat \<times> duration \<Rightarrow> nat \<Rightarrow> string + unit" where
  "manual_validate a D = (if fst a = D then Inr () else Inl ''clock domain mismatch'')"

fun manual_consume :: "u32 \<times> u32 \<Rightarrow> u32 \<Rightarrow> u32 \<times> u32 \<times> u32" where
  "manual_consume (limit, used) n = (let k = min n (limit - used) in (k, limit, used + k))"

fun manual_powf :: "f64 \<Rightarrow> f64 \<Rightarrow> f64" where
  "manual_powf (F64_Fin q) (F64_Fin k) =
     (if 0 \<le> k \<and> of_int \<lfloor>k\<rfloor> = k then f64_of_rat (q ^ nat \<lfloor>k\<rfloor>) else F64_NaN)"
| "manual_powf _ _ = F64_NaN"

definition manual_deps :: "(nat \<times> duration, nat, string, u32 \<times> u32, 'w) deps" where
  "manual_deps = \<lparr>
     duration_since = manual_since,
     instant_checked_add = manual_add,
     instant_domain = fst,
     validate_domain = manual_validate,
     since_origin = snd,
     time_error_text = id,
     counter_new = (\<lambda>r n. (n, 0)),
     counter_remaining = (\<lambda>(limit, used). limit - used),
     counter_used = snd,
     counter_consume_available = manual_consume,
     powf = manual_powf,
     fastrand_f64_inclusive = (\<lambda>w. (F64_Fin (1 / 2), w)) \<rparr>"

lemma manual_deps_simps [simp]:
  "duration_since manual_deps = manual_since"
  "instant_checked_add manual_deps = manual_add"
  "instant_domain manual_deps = fst"
  "validate_domain manual_deps = manual_validate"
  "since_origin manual_deps = snd"
  "time_error_text manual_deps = id"
  "counter_new manual_deps = (\<lambda>r n. (n, 0))"
  "counter_remaining manual_deps = (\<lambda>(limit, used). limit - used)"
  "counter_used manual_deps = snd"
  "counter_consume_available manual_deps = manual_consume"
  "powf manual_deps = manual_powf"
  "fastrand_f64_inclusive manual_deps = (\<lambda>w. (F64_Fin (1 / 2), w))"
  by (simp_all add: manual_deps_def)

text \<open>The same instance over a world that is a counter.\<close>

abbreviation tick_deps :: "(nat \<times> duration, nat, string, u32 \<times> u32, nat) deps" where
  "tick_deps \<equiv> manual_deps"

interpretation manual: deps_laws manual_deps
proof unfold_locales
  fix a d c
  assume "instant_checked_add manual_deps a d = Inr c"
  then show "instant_domain manual_deps c = instant_domain manual_deps a \<and>
      as_nanos (since_origin manual_deps c) = as_nanos (since_origin manual_deps a) + as_nanos d"
    by (auto simp: manual_add_def dur_checked_add_def split: option.splits if_splits)
next
  fix b n
  show "fst (counter_consume_available manual_deps b n) = min n (counter_remaining manual_deps b)"
    by (cases b) (simp add: Let_def)
next
  fix b n
  show "counter_used manual_deps (snd (counter_consume_available manual_deps b n)) =
      counter_used manual_deps b + min n (counter_remaining manual_deps b)"
    by (cases b) (simp add: Let_def)
next
  fix b n
  show "counter_remaining manual_deps (snd (counter_consume_available manual_deps b n)) =
      counter_remaining manual_deps b - min n (counter_remaining manual_deps b)"
    by (cases b) (simp add: Let_def)
qed (auto simp: manual_since_def manual_validate_def)

end
