(* ===== verification/Errors.thy ===== *)
theory Errors
  imports Dependencies
begin

text \<open>
  The error vocabulary of the crate (src/src/error, src/src/internal): classification
  enums with their display labels, attempt failures, captured panics, callback and
  infrastructure failures, policy errors.  A \<open>Display\<close> implementation is a function to
  strings; the display of the application error is a parameter.
\<close>

section \<open>Formatting\<close>

function decimal_digits :: "nat \<Rightarrow> string \<Rightarrow> string" where
  "decimal_digits n acc =
     (let acc' = char_of (48 + n mod 10) # acc
      in if n < 10 then acc' else decimal_digits (n div 10) acc')"
  by pat_completeness auto
termination
  by (relation "measure fst") auto

declare decimal_digits.simps [simp del]

text \<open>\<open>{}\<close> of an unsigned integer.\<close>

definition show_nat :: "nat \<Rightarrow> string" where
  "show_nat n = decimal_digits n []"

section \<open>Classifications\<close>

datatype retry_timeout_scope = ScopeAttempt | ScopeFlow

primrec show_timeout_scope :: "retry_timeout_scope \<Rightarrow> string" where
  "show_timeout_scope ScopeAttempt = ''attempt''"
| "show_timeout_scope ScopeFlow = ''flow''"

datatype retry_limit_kind = LimitAttempts | LimitOperationElapsed | LimitTotalElapsed

primrec show_limit_kind :: "retry_limit_kind \<Rightarrow> string" where
  "show_limit_kind LimitAttempts = ''attempts''"
| "show_limit_kind LimitOperationElapsed = ''operation elapsed''"
| "show_limit_kind LimitTotalElapsed = ''total elapsed''"

datatype retry_cancellation_phase = PhaseBeforeAttempt | PhaseAttempt | PhaseBackoff

primrec show_cancellation_phase :: "retry_cancellation_phase \<Rightarrow> string" where
  "show_cancellation_phase PhaseBeforeAttempt = ''before attempt''"
| "show_cancellation_phase PhaseAttempt = ''attempt''"
| "show_cancellation_phase PhaseBackoff = ''backoff''"

datatype retry_callback_kind = KindRule | KindObserver

primrec show_callback_kind :: "retry_callback_kind \<Rightarrow> string" where
  "show_callback_kind KindRule = ''rule''"
| "show_callback_kind KindObserver = ''observer''"

datatype retry_callback_phase =
    CbBeforeAttempt | CbAttemptFailed | CbRuleDecision | CbRetryScheduled
  | CbSuccess | CbTerminalFailure

primrec show_callback_phase :: "retry_callback_phase \<Rightarrow> string" where
  "show_callback_phase CbBeforeAttempt = ''before attempt''"
| "show_callback_phase CbAttemptFailed = ''attempt failed''"
| "show_callback_phase CbRuleDecision = ''rule decision''"
| "show_callback_phase CbRetryScheduled = ''retry scheduled''"
| "show_callback_phase CbSuccess = ''success''"
| "show_callback_phase CbTerminalFailure = ''terminal failure''"

datatype worker_stop_trigger =
    TriggerAttemptTimeout | TriggerFlowTimeout | TriggerCancellation | TriggerTimerFailure

primrec show_stop_trigger :: "worker_stop_trigger \<Rightarrow> string" where
  "show_stop_trigger TriggerAttemptTimeout = ''attempt timeout''"
| "show_stop_trigger TriggerFlowTimeout = ''flow timeout''"
| "show_stop_trigger TriggerCancellation = ''cancellation''"
| "show_stop_trigger TriggerTimerFailure = ''timer failure''"

section \<open>Captured panics\<close>

datatype retry_panic = PanicStaticStr string | PanicString string | PanicNonString

primrec panic_message :: "retry_panic \<Rightarrow> string option" where
  "panic_message (PanicStaticStr m) = Some m"
| "panic_message (PanicString m) = Some m"
| "panic_message PanicNonString = None"

definition show_panic :: "retry_panic \<Rightarrow> string" where
  "show_panic p =
     (case panic_message p of Some m \<Rightarrow> m | None \<Rightarrow> ''non-string panic payload'')"

text \<open>
  An unwind payload \<open>Box<dyn Any + Send>\<close>: a static string, an owned string, or anything
  else, whose destructor may itself panic when the payload is dropped.
\<close>

datatype panic_payload =
    PayloadStaticStr string | PayloadString string | PayloadOther bool

text \<open>Decoding drops a non-string payload; \<open>None\<close> is the panic of its destructor.\<close>

primrec decode_retry_panic_payload :: "panic_payload \<Rightarrow> retry_panic option" where
  "decode_retry_panic_payload (PayloadStaticStr m) = Some (PanicStaticStr m)"
| "decode_retry_panic_payload (PayloadString m) = Some (PanicString m)"
| "decode_retry_panic_payload (PayloadOther drop_panics) =
     (if drop_panics then None else Some PanicNonString)"

definition retry_panic_from_payload :: "panic_payload \<Rightarrow> retry_panic" where
  "retry_panic_from_payload payload =
     (case decode_retry_panic_payload payload of
        Some p \<Rightarrow> p
      | None \<Rightarrow> PanicNonString)"

lemma retry_panic_from_payload_simps [simp]:
  "retry_panic_from_payload (PayloadStaticStr m) = PanicStaticStr m"
  "retry_panic_from_payload (PayloadString m) = PanicString m"
  "retry_panic_from_payload (PayloadOther b) = PanicNonString"
  by (simp_all add: retry_panic_from_payload_def)

section \<open>Attempt failures\<close>

datatype 'e attempt_failure =
    FailError 'e
  | FailTimedOut retry_timeout_scope
  | FailPanicked retry_panic

primrec failure_is_timeout :: "'e attempt_failure \<Rightarrow> bool" where
  "failure_is_timeout (FailError e) = False"
| "failure_is_timeout (FailTimedOut s) = True"
| "failure_is_timeout (FailPanicked p) = False"

primrec failure_as_error :: "'e attempt_failure \<Rightarrow> 'e option" where
  "failure_as_error (FailError e) = Some e"
| "failure_as_error (FailTimedOut s) = None"
| "failure_as_error (FailPanicked p) = None"

primrec failure_timeout_scope :: "'e attempt_failure \<Rightarrow> retry_timeout_scope option" where
  "failure_timeout_scope (FailError e) = None"
| "failure_timeout_scope (FailTimedOut s) = Some s"
| "failure_timeout_scope (FailPanicked p) = None"

primrec failure_panic :: "'e attempt_failure \<Rightarrow> retry_panic option" where
  "failure_panic (FailError e) = None"
| "failure_panic (FailTimedOut s) = None"
| "failure_panic (FailPanicked p) = Some p"

primrec failure_map_error :: "('e \<Rightarrow> 'u) \<Rightarrow> 'e attempt_failure \<Rightarrow> 'u attempt_failure" where
  "failure_map_error f (FailError e) = FailError (f e)"
| "failure_map_error f (FailTimedOut s) = FailTimedOut s"
| "failure_map_error f (FailPanicked p) = FailPanicked p"

primrec failure_into_error :: "'e attempt_failure \<Rightarrow> 'e option" where
  "failure_into_error (FailError e) = Some e"
| "failure_into_error (FailTimedOut s) = None"
| "failure_into_error (FailPanicked p) = None"

primrec show_attempt_failure :: "('e \<Rightarrow> string) \<Rightarrow> 'e attempt_failure \<Rightarrow> string" where
  "show_attempt_failure se (FailError e) = se e"
| "show_attempt_failure se (FailTimedOut s) =
     ''attempt timed out ('' @ show_timeout_scope s @ '')''"
| "show_attempt_failure se (FailPanicked p) = ''attempt panicked: '' @ show_panic p"

datatype attempt_failure_metadata =
    MetaApplicationError
  | MetaTimedOut retry_timeout_scope
  | MetaPanicked retry_panic

section \<open>Callback, infrastructure and policy failures\<close>

record retry_callback_failure =
  cf_callback :: retry_callback_kind
  cf_index :: nat
  cf_phase :: retry_callback_phase
  cf_panic :: retry_panic

definition callback_failure_new ::
  "retry_callback_kind \<Rightarrow> nat \<Rightarrow> retry_callback_phase \<Rightarrow> retry_panic \<Rightarrow> retry_callback_failure"
where
  "callback_failure_new kind index phase p =
     \<lparr>cf_callback = kind, cf_index = index, cf_phase = phase, cf_panic = p\<rparr>"

definition show_callback_failure :: "retry_callback_failure \<Rightarrow> string" where
  "show_callback_failure f =
     show_callback_kind (cf_callback f) @ '' callback '' @ show_nat (cf_index f) @
     '' panicked during '' @ show_callback_phase (cf_phase f) @ '': '' @ show_panic (cf_panic f)"

datatype retry_infrastructure_failure =
    InfraClock string
  | InfraTimer string
  | InfraWorkerSpawn string
  | InfraWorkerChannelClosed
  | InfraWorkerStillRunning worker_stop_trigger

primrec infrastructure_message :: "retry_infrastructure_failure \<Rightarrow> string option" where
  "infrastructure_message (InfraClock m) = Some m"
| "infrastructure_message (InfraTimer m) = Some m"
| "infrastructure_message (InfraWorkerSpawn m) = Some m"
| "infrastructure_message InfraWorkerChannelClosed = None"
| "infrastructure_message (InfraWorkerStillRunning t) = None"

primrec infrastructure_stop_trigger ::
  "retry_infrastructure_failure \<Rightarrow> worker_stop_trigger option"
where
  "infrastructure_stop_trigger (InfraClock m) = None"
| "infrastructure_stop_trigger (InfraTimer m) = None"
| "infrastructure_stop_trigger (InfraWorkerSpawn m) = None"
| "infrastructure_stop_trigger InfraWorkerChannelClosed = None"
| "infrastructure_stop_trigger (InfraWorkerStillRunning t) = Some t"

primrec show_infrastructure :: "retry_infrastructure_failure \<Rightarrow> string" where
  "show_infrastructure (InfraClock m) = ''clock failed: '' @ m"
| "show_infrastructure (InfraTimer m) = ''timer failed: '' @ m"
| "show_infrastructure (InfraWorkerSpawn m) = ''worker spawn failed: '' @ m"
| "show_infrastructure InfraWorkerChannelClosed =
     ''worker event channel closed before exit was confirmed''"
| "show_infrastructure (InfraWorkerStillRunning t) =
     ''worker still running after '' @ show_stop_trigger t"

record retry_policy_error =
  pe_field :: string
  pe_message :: string

definition policy_error_new :: "string \<Rightarrow> string \<Rightarrow> retry_policy_error" where
  "policy_error_new field message = \<lparr>pe_field = field, pe_message = message\<rparr>"

definition show_policy_error :: "retry_policy_error \<Rightarrow> string" where
  "show_policy_error e = pe_field e @ '': '' @ pe_message e"

section \<open>Facts\<close>

lemma failure_map_error_comp:
  "failure_map_error g (failure_map_error f x) = failure_map_error (g \<circ> f) x"
  by (cases x) simp_all

lemma failure_map_error_id [simp]: "failure_map_error id x = x"
  by (cases x) simp_all

lemma failure_map_error_class [simp]:
  "failure_timeout_scope (failure_map_error f x) = failure_timeout_scope x"
  "failure_panic (failure_map_error f x) = failure_panic x"
  "failure_as_error (failure_map_error f x) = map_option f (failure_as_error x)"
  by (cases x; simp)+

text \<open>Exactly one of the three views of an attempt failure is present.\<close>

lemma failure_views_exclusive:
  "failure_as_error x \<noteq> None \<and> failure_timeout_scope x = None \<and> failure_panic x = None \<or>
   failure_as_error x = None \<and> failure_timeout_scope x \<noteq> None \<and> failure_panic x = None \<or>
   failure_as_error x = None \<and> failure_timeout_scope x = None \<and> failure_panic x \<noteq> None"
  by (cases x) simp_all

end
