(* ===== verification/Backoff.thy ===== *)
theory Backoff
  imports Errors
begin

text \<open>
  Delay selection (src/src/backoff, src/src/random): the validated policy and its
  constructors, the base strategies, jitter, the resolution of caller hints, the final cap,
  and the mutable sequence that numbers the selected delays.  Random samples come from a
  source that steps the world; nothing is assumed about them.
\<close>

section \<open>Data\<close>

datatype backoff_strategy =
    StrategyImmediate
  | StrategyFixed duration
  | StrategyUniform duration duration
  | StrategyExponential duration f64 duration

datatype jitter_strategy = JitterNone | JitterFull | JitterBounded f64

datatype retry_after_strategy = PreferHint | AtLeastBackoff | IgnoreHint

datatype backoff_delay_source = SourcePolicy | SourceHint | SourceMerged

record backoff_policy =
  bp_strategy :: backoff_strategy
  bp_jitter :: jitter_strategy
  bp_retry_after :: retry_after_strategy
  bp_delay_limit :: "duration option"

record backoff_request =
  rq_hint :: "duration option"
  rq_jitter_hint :: bool

record backoff_step =
  step_retry_index :: u32
  step_base_delay :: duration
  step_effective_delay :: duration
  step_source :: backoff_delay_source

definition backoff_step_new ::
  "u32 \<Rightarrow> duration \<Rightarrow> duration \<Rightarrow> backoff_delay_source \<Rightarrow> backoff_step"
where
  "backoff_step_new index base effective source =
     \<lparr>step_retry_index = index, step_base_delay = base, step_effective_delay = effective,
      step_source = source\<rparr>"

lemma backoff_step_new_sel [simp]:
  "step_retry_index (backoff_step_new i b e s) = i"
  "step_base_delay (backoff_step_new i b e s) = b"
  "step_effective_delay (backoff_step_new i b e s) = e"
  "step_source (backoff_step_new i b e s) = s"
  by (simp_all add: backoff_step_new_def)

section \<open>Requests\<close>

definition request_policy :: backoff_request where
  "request_policy = \<lparr>rq_hint = None, rq_jitter_hint = False\<rparr>"

definition request_hint :: "duration \<Rightarrow> backoff_request" where
  "request_hint delay = request_policy\<lparr>rq_hint := Some delay\<rparr>"

definition request_jittered_hint :: "duration \<Rightarrow> backoff_request" where
  "request_jittered_hint delay = \<lparr>rq_hint = Some delay, rq_jitter_hint = True\<rparr>"

section \<open>Random sources\<close>

text \<open>\<open>random_f64_inclusive(min, max)\<close> of a source, as a step of the world.\<close>

type_synonym 'w random_source = "f64 \<Rightarrow> f64 \<Rightarrow> 'w \<Rightarrow> f64 \<times> 'w"

definition thread_random_f64_inclusive ::
  "('i, 'd, 'x, 'b, 'w) deps \<Rightarrow> 'w random_source"
where
  "thread_random_f64_inclusive X lo hi w =
     (if f64_eq lo hi then (lo, w)
      else (let (u, w') = fastrand_f64_inclusive X w
            in (f64_add lo (f64_mul (f64_sub hi lo) u), w')))"

datatype 'w retry_random_source_storage = StorageThread | StorageCustom "'w random_source"

primrec as_source ::
  "('i, 'd, 'x, 'b, 'w) deps \<Rightarrow> 'w retry_random_source_storage \<Rightarrow> 'w random_source"
where
  "as_source X StorageThread = thread_random_f64_inclusive X"
| "as_source X (StorageCustom source) = source"

section \<open>Scaling and interpolation\<close>

definition exponential_delay ::
  "('i, 'd, 'x, 'b, 'w) deps \<Rightarrow> duration \<Rightarrow> f64 \<Rightarrow> duration \<Rightarrow> u32 \<Rightarrow> duration"
where
  "exponential_delay X initial multiplier mx retry_index =
     (if retry_index \<le> 1 \<or> dur_is_zero initial \<or> f64_eq multiplier f64_one then min initial mx
      else
        (let exponent = f64_of_nat (unat (u32_saturating_sub retry_index 1));
             seconds = f64_mul (as_secs_f64 initial) (powf X multiplier exponent)
         in if \<not> f64_is_finite seconds then mx
            else min (case try_from_secs_f64 seconds of Some d \<Rightarrow> d | None \<Rightarrow> mx) mx))"

definition scale_duration :: "duration \<Rightarrow> f64 \<Rightarrow> duration" where
  "scale_duration d factor =
     (let seconds = f64_mul (as_secs_f64 d) factor
      in if \<not> f64_is_finite seconds \<or> f64_le (as_secs_f64 duration_max) seconds then duration_max
         else (case try_from_secs_f64 seconds of Some r \<Rightarrow> r | None \<Rightarrow> duration_max))"

definition interpolate :: "duration \<Rightarrow> duration \<Rightarrow> f64 \<Rightarrow> duration" where
  "interpolate mn mx sample =
     (if mx \<le> mn then mn
      else
        (let ratio = f64_clamp sample f64_zero f64_one
         in if f64_eq ratio f64_zero then mn
            else if f64_eq ratio f64_one then mx
            else min (dur_saturating_add mn (scale_duration (dur_saturating_sub mx mn) ratio)) mx))"

section \<open>Policy\<close>

definition backoff_immediate :: backoff_policy where
  "backoff_immediate =
     \<lparr>bp_strategy = StrategyImmediate, bp_jitter = JitterNone, bp_retry_after = AtLeastBackoff,
      bp_delay_limit = None\<rparr>"

definition backoff_fixed :: "duration \<Rightarrow> backoff_policy" where
  "backoff_fixed delay = backoff_immediate\<lparr>bp_strategy := StrategyFixed delay\<rparr>"

text \<open>\<open>validate\<close>: the offending field and the reason.\<close>

definition validate_strategy :: "backoff_strategy \<Rightarrow> retry_policy_error + unit" where
  "validate_strategy s =
     (case s of
        StrategyImmediate \<Rightarrow> Inr ()
      | StrategyFixed d \<Rightarrow> Inr ()
      | StrategyUniform mn mx \<Rightarrow>
          (if mn \<le> mx then Inr ()
           else Inl (policy_error_new ''backoff.uniform''
                       ''minimum delay must not exceed maximum delay''))
      | StrategyExponential initial multiplier mx \<Rightarrow>
          (if mx < initial then
             Inl (policy_error_new ''backoff.exponential''
                    ''initial delay must not exceed maximum delay'')
           else if \<not> f64_is_finite multiplier \<or> f64_less multiplier f64_one then
             Inl (policy_error_new ''backoff.exponential.multiplier''
                    ''multiplier must be finite and at least 1.0'')
           else Inr ()))"

definition backoff_validate :: "backoff_policy \<Rightarrow> retry_policy_error + unit" where
  "backoff_validate p =
     (case validate_strategy (bp_strategy p) of
        Inl e \<Rightarrow> Inl e
      | Inr u \<Rightarrow>
          (case bp_jitter p of
             JitterBounded ratio \<Rightarrow>
               (if \<not> f64_is_finite ratio \<or> \<not> (f64_le f64_zero ratio \<and> f64_le ratio f64_one) then
                  Inl (policy_error_new ''backoff.jitter.ratio''
                         ''jitter ratio must be finite and within 0.0..=1.0'')
                else Inr ())
           | JitterNone \<Rightarrow> Inr ()
           | JitterFull \<Rightarrow> Inr ()))"

definition backoff_uniform :: "duration \<Rightarrow> duration \<Rightarrow> retry_policy_error + backoff_policy" where
  "backoff_uniform mn mx =
     (let policy = backoff_immediate\<lparr>bp_strategy := StrategyUniform mn mx\<rparr>
      in map_right (\<lambda>_. policy) (backoff_validate policy))"

definition backoff_exponential ::
  "duration \<Rightarrow> f64 \<Rightarrow> duration \<Rightarrow> retry_policy_error + backoff_policy"
where
  "backoff_exponential initial multiplier mx =
     (let policy = backoff_immediate\<lparr>bp_strategy := StrategyExponential initial multiplier mx\<rparr>
      in map_right (\<lambda>_. policy) (backoff_validate policy))"

definition without_jitter :: "backoff_policy \<Rightarrow> backoff_policy" where
  "without_jitter p = p\<lparr>bp_jitter := JitterNone\<rparr>"

definition with_full_jitter :: "backoff_policy \<Rightarrow> backoff_policy" where
  "with_full_jitter p = p\<lparr>bp_jitter := JitterFull\<rparr>"

definition with_bounded_jitter :: "backoff_policy \<Rightarrow> f64 \<Rightarrow> retry_policy_error + backoff_policy"
where
  "with_bounded_jitter p ratio =
     (let p' = p\<lparr>bp_jitter := JitterBounded ratio\<rparr>
      in map_right (\<lambda>_. p') (backoff_validate p'))"

definition prefer_retry_after :: "backoff_policy \<Rightarrow> backoff_policy" where
  "prefer_retry_after p = p\<lparr>bp_retry_after := PreferHint\<rparr>"

definition use_retry_after_as_minimum :: "backoff_policy \<Rightarrow> backoff_policy" where
  "use_retry_after_as_minimum p = p\<lparr>bp_retry_after := AtLeastBackoff\<rparr>"

definition ignore_retry_after :: "backoff_policy \<Rightarrow> backoff_policy" where
  "ignore_retry_after p = p\<lparr>bp_retry_after := IgnoreHint\<rparr>"

definition limit_delay :: "backoff_policy \<Rightarrow> duration \<Rightarrow> backoff_policy" where
  "limit_delay p limit = p\<lparr>bp_delay_limit := Some limit\<rparr>"

definition maximum_delay :: "backoff_policy \<Rightarrow> duration option" where
  "maximum_delay p =
     (case bp_strategy p of
        StrategyImmediate \<Rightarrow> Some 0
      | StrategyFixed delay \<Rightarrow> Some delay
      | StrategyUniform mn mx \<Rightarrow> Some mx
      | StrategyExponential initial multiplier mx \<Rightarrow> Some mx)"

section \<open>Selection of one delay\<close>

definition base_delay ::
  "('i, 'd, 'x, 'b, 'w) deps \<Rightarrow> backoff_policy \<Rightarrow> u32 \<Rightarrow> 'w random_source \<Rightarrow> 'w \<Rightarrow> duration \<times> 'w"
where
  "base_delay X p retry_index random w =
     (case bp_strategy p of
        StrategyImmediate \<Rightarrow> (0, w)
      | StrategyFixed delay \<Rightarrow> (delay, w)
      | StrategyUniform mn mx \<Rightarrow>
          (let (sample, w') = random f64_zero f64_one w in (interpolate mn mx sample, w'))
      | StrategyExponential initial multiplier mx \<Rightarrow>
          (exponential_delay X initial multiplier mx retry_index, w))"

definition apply_jitter ::
  "backoff_policy \<Rightarrow> duration \<Rightarrow> 'w random_source \<Rightarrow> 'w \<Rightarrow> duration \<times> 'w"
where
  "apply_jitter p base random w =
     (case bp_jitter p of
        JitterNone \<Rightarrow> (base, w)
      | JitterFull \<Rightarrow>
          (let (sample, w') = random f64_zero f64_one w in (interpolate 0 base sample, w'))
      | JitterBounded ratio \<Rightarrow>
          (if f64_eq ratio f64_zero then (base, w)
           else
             (let low = f64_max (f64_sub f64_one ratio) f64_zero;
                  high = f64_add f64_one ratio;
                  (sample, w') = random f64_zero f64_one w
              in (interpolate (scale_duration base low) (scale_duration base high) sample, w'))))"

definition resolve_uncapped ::
  "backoff_policy \<Rightarrow> duration \<Rightarrow> backoff_request \<Rightarrow> u32 \<Rightarrow> 'w random_source \<Rightarrow> 'w
     \<Rightarrow> backoff_step \<times> 'w"
where
  "resolve_uncapped p base request retry_index random w =
     (case rq_hint request of
        None \<Rightarrow>
          (let (d, w') = apply_jitter p base random w
           in (backoff_step_new retry_index base d SourcePolicy, w'))
      | Some hint \<Rightarrow>
          if bp_retry_after p = IgnoreHint then
            (let (d, w') = apply_jitter p base random w
             in (backoff_step_new retry_index base d SourcePolicy, w'))
          else
            (let (policy_delay, w1) = apply_jitter p base random w;
                 (hinted_delay, w2) =
                   (if rq_jitter_hint request then apply_jitter p hint random w1 else (hint, w1));
                 (effective_delay, source) =
                   (if bp_retry_after p = PreferHint then (hinted_delay, SourceHint)
                    else (max policy_delay hinted_delay, SourceMerged))
             in (backoff_step_new retry_index base effective_delay source, w2)))"

definition resolve ::
  "backoff_policy \<Rightarrow> duration \<Rightarrow> backoff_request \<Rightarrow> u32 \<Rightarrow> 'w random_source \<Rightarrow> 'w
     \<Rightarrow> backoff_step \<times> 'w"
where
  "resolve p base request retry_index random w =
     (let (step, w') = resolve_uncapped p base request retry_index random w;
          delay = (case bp_delay_limit p of
                     None \<Rightarrow> step_effective_delay step
                   | Some limit \<Rightarrow> min (step_effective_delay step) limit)
      in (backoff_step_new retry_index base delay (step_source step), w'))"

section \<open>The sequence\<close>

record 'w backoff_state =
  bo_policy :: backoff_policy
  bo_random :: "'w retry_random_source_storage"
  bo_retry_index :: u32

definition backoff_state_new :: "backoff_policy \<Rightarrow> 'w random_source \<Rightarrow> 'w backoff_state" where
  "backoff_state_new policy random =
     \<lparr>bo_policy = policy, bo_random = StorageCustom random, bo_retry_index = 0\<rparr>"

definition backoff_state_new_thread :: "backoff_policy \<Rightarrow> 'w backoff_state" where
  "backoff_state_new_thread policy =
     \<lparr>bo_policy = policy, bo_random = StorageThread, bo_retry_index = 0\<rparr>"

definition backoff_start :: "backoff_policy \<Rightarrow> 'w backoff_state" where
  "backoff_start p = backoff_state_new_thread p"

definition backoff_start_with_random_source ::
  "backoff_policy \<Rightarrow> 'w random_source \<Rightarrow> 'w backoff_state"
where
  "backoff_start_with_random_source p random = backoff_state_new p random"

definition backoff_next ::
  "('i, 'd, 'x, 'b, 'w) deps \<Rightarrow> backoff_request \<Rightarrow> 'w backoff_state \<Rightarrow> 'w
     \<Rightarrow> backoff_step \<times> 'w backoff_state \<times> 'w"
where
  "backoff_next X request st w =
     (let index = u32_saturating_add (bo_retry_index st) 1;
          st' = st\<lparr>bo_retry_index := index\<rparr>;
          source = as_source X (bo_random st');
          (base, w1) = base_delay X (bo_policy st') index source w;
          (step, w2) = resolve (bo_policy st') base request index source w1
      in (step, st', w2))"

definition backoff_reset :: "'w backoff_state \<Rightarrow> 'w backoff_state" where
  "backoff_reset st = st\<lparr>bo_retry_index := 0\<rparr>"


section \<open>Validity\<close>

text \<open>What \<open>validate\<close> promises, written without the order of its tests.\<close>

fun valid_strategy :: "backoff_strategy \<Rightarrow> bool" where
  "valid_strategy (StrategyUniform mn mx) \<longleftrightarrow> mn \<le> mx"
| "valid_strategy (StrategyExponential initial (F64_Fin m) mx) \<longleftrightarrow> initial \<le> mx \<and> 1 \<le> m"
| "valid_strategy (StrategyExponential _ _ _) \<longleftrightarrow> False"
| "valid_strategy _ \<longleftrightarrow> True"

fun valid_jitter :: "jitter_strategy \<Rightarrow> bool" where
  "valid_jitter (JitterBounded (F64_Fin r)) \<longleftrightarrow> 0 \<le> r \<and> r \<le> 1"
| "valid_jitter (JitterBounded _) \<longleftrightarrow> False"
| "valid_jitter _ \<longleftrightarrow> True"

definition valid_backoff :: "backoff_policy \<Rightarrow> bool" where
  "valid_backoff p \<longleftrightarrow> valid_strategy (bp_strategy p) \<and> valid_jitter (bp_jitter p)"

lemma validate_strategy_iff: "validate_strategy s = Inr () \<longleftrightarrow> valid_strategy s"
proof (cases s)
  case (StrategyExponential i m mx)
  then show ?thesis by (cases m) (auto simp: validate_strategy_def f64_one_def)
qed (auto simp: validate_strategy_def)

lemma validate_jitter_iff:
  "(f64_is_finite r \<and> f64_le f64_zero r \<and> f64_le r f64_one) \<longleftrightarrow> valid_jitter (JitterBounded r)"
  by (cases r) (auto simp: f64_le_def f64_zero_def f64_one_def f64_eq_iff)

lemma backoff_validate_iff_valid: "backoff_validate p = Inr () \<longleftrightarrow> valid_backoff p"
proof (cases "validate_strategy (bp_strategy p)")
  case (Inl e)
  then show ?thesis
    using validate_strategy_iff [of "bp_strategy p"]
    by (simp add: backoff_validate_def valid_backoff_def)
next
  case (Inr u)
  then show ?thesis
    using validate_strategy_iff [of "bp_strategy p"] validate_jitter_iff
    by (auto simp: backoff_validate_def valid_backoff_def split: jitter_strategy.split)
qed

lemma validated_Inr_iff:
  "map_right f (backoff_validate p) = Inr q \<longleftrightarrow> valid_backoff p \<and> q = f ()"
  unfolding backoff_validate_iff_valid [symmetric] by (cases "backoff_validate p") auto

lemma backoff_immediate_sel [simp]:
  "bp_strategy backoff_immediate = StrategyImmediate"
  "bp_jitter backoff_immediate = JitterNone"
  "bp_retry_after backoff_immediate = AtLeastBackoff"
  "bp_delay_limit backoff_immediate = None"
  by (simp_all add: backoff_immediate_def)

lemma backoff_fixed_sel [simp]:
  "bp_strategy (backoff_fixed d) = StrategyFixed d"
  "bp_jitter (backoff_fixed d) = JitterNone"
  "bp_retry_after (backoff_fixed d) = AtLeastBackoff"
  "bp_delay_limit (backoff_fixed d) = None"
  by (simp_all add: backoff_fixed_def)

lemma backoff_uniform_iff:
  "backoff_uniform mn mx = Inr q \<longleftrightarrow>
     mn \<le> mx \<and> q = backoff_immediate\<lparr>bp_strategy := StrategyUniform mn mx\<rparr>"
  by (simp add: backoff_uniform_def Let_def validated_Inr_iff valid_backoff_def)

lemma backoff_exponential_iff:
  "backoff_exponential i m mx = Inr q \<longleftrightarrow>
     i \<le> mx \<and> (\<exists>x. m = F64_Fin x \<and> 1 \<le> x) \<and>
     q = backoff_immediate\<lparr>bp_strategy := StrategyExponential i m mx\<rparr>"
  by (cases m)
    (auto simp: backoff_exponential_def Let_def validated_Inr_iff valid_backoff_def)

lemma with_bounded_jitter_iff:
  "with_bounded_jitter p r = Inr q \<longleftrightarrow>
     valid_strategy (bp_strategy p) \<and> (\<exists>x. r = F64_Fin x \<and> 0 \<le> x \<and> x \<le> 1) \<and>
     q = p\<lparr>bp_jitter := JitterBounded r\<rparr>"
  by (cases r) (auto simp: with_bounded_jitter_def Let_def validated_Inr_iff valid_backoff_def)

lemma valid_immediate [simp]: "valid_backoff backoff_immediate"
  by (simp add: valid_backoff_def)

lemma valid_fixed [simp]: "valid_backoff (backoff_fixed d)"
  by (simp add: valid_backoff_def)

lemma valid_builders [simp]:
  "valid_backoff p \<Longrightarrow> valid_backoff (without_jitter p)"
  "valid_backoff p \<Longrightarrow> valid_backoff (with_full_jitter p)"
  "valid_backoff (prefer_retry_after p) = valid_backoff p"
  "valid_backoff (use_retry_after_as_minimum p) = valid_backoff p"
  "valid_backoff (ignore_retry_after p) = valid_backoff p"
  "valid_backoff (limit_delay p d) = valid_backoff p"
  by (simp_all add: valid_backoff_def without_jitter_def with_full_jitter_def
      prefer_retry_after_def use_retry_after_as_minimum_def ignore_retry_after_def limit_delay_def)

text \<open>The policies a caller can build, by any chain of constructors and builder methods.\<close>

inductive built_backoff :: "backoff_policy \<Rightarrow> bool" where
  built_immediate: "built_backoff backoff_immediate"
| built_fixed: "built_backoff (backoff_fixed d)"
| built_uniform: "backoff_uniform mn mx = Inr p \<Longrightarrow> built_backoff p"
| built_exponential: "backoff_exponential i m mx = Inr p \<Longrightarrow> built_backoff p"
| built_without_jitter: "built_backoff p \<Longrightarrow> built_backoff (without_jitter p)"
| built_full_jitter: "built_backoff p \<Longrightarrow> built_backoff (with_full_jitter p)"
| built_bounded_jitter:
    "built_backoff p \<Longrightarrow> with_bounded_jitter p r = Inr q \<Longrightarrow> built_backoff q"
| built_prefer: "built_backoff p \<Longrightarrow> built_backoff (prefer_retry_after p)"
| built_minimum: "built_backoff p \<Longrightarrow> built_backoff (use_retry_after_as_minimum p)"
| built_ignore: "built_backoff p \<Longrightarrow> built_backoff (ignore_retry_after p)"
| built_limit: "built_backoff p \<Longrightarrow> built_backoff (limit_delay p d)"

lemma built_backoff_valid: "built_backoff p \<Longrightarrow> valid_backoff p"
  by (induction rule: built_backoff.induct)
    (auto simp: backoff_uniform_iff backoff_exponential_iff with_bounded_jitter_iff
      valid_backoff_def without_jitter_def with_full_jitter_def prefer_retry_after_def
      use_retry_after_as_minimum_def ignore_retry_after_def limit_delay_def)

section \<open>Bounds of one delay\<close>

lemma interpolate_lower: "mn \<le> interpolate mn mx s"
  by (auto simp: interpolate_def Let_def dur_saturating_add_ge)

lemma interpolate_upper: "mn \<le> mx \<Longrightarrow> interpolate mn mx s \<le> mx"
  by (auto simp: interpolate_def Let_def)

lemma interpolate_between: "interpolate mn mx s \<le> max mn mx"
  by (auto simp: interpolate_def Let_def max_def)

lemma interpolate_endpoints:
  "mn \<le> mx \<Longrightarrow> interpolate mn mx f64_zero = mn"
  "mn \<le> mx \<Longrightarrow> interpolate mn mx f64_one = mx"
  by (auto simp: interpolate_def Let_def f64_clamp_def f64_zero_def f64_one_def)

lemma exponential_delay_le: "exponential_delay X i m mx n \<le> mx"
  by (auto simp: exponential_delay_def Let_def)

lemma exponential_delay_first: "n \<le> 1 \<Longrightarrow> exponential_delay X i m mx n = min i mx"
  by (simp add: exponential_delay_def)

lemma base_delay_le_maximum:
  assumes "valid_backoff p"
  shows "\<exists>m. maximum_delay p = Some m \<and> fst (base_delay X p n random w) \<le> m"
proof (cases "bp_strategy p")
  case (StrategyUniform mn mx)
  then have "mn \<le> mx" using assms by (simp add: valid_backoff_def)
  then show ?thesis
    using StrategyUniform
    by (simp add: maximum_delay_def base_delay_def interpolate_upper split: prod.split)
qed (simp_all add: maximum_delay_def base_delay_def exponential_delay_le)

text \<open>Whether selecting a delay consults the random source.\<close>

definition draws_base :: "backoff_policy \<Rightarrow> bool" where
  "draws_base p \<longleftrightarrow> (\<exists>mn mx. bp_strategy p = StrategyUniform mn mx)"

definition draws_jitter :: "backoff_policy \<Rightarrow> bool" where
  "draws_jitter p \<longleftrightarrow>
     bp_jitter p \<noteq> JitterNone \<and> (\<forall>r. bp_jitter p = JitterBounded r \<longrightarrow> \<not> f64_eq r f64_zero)"

lemma base_delay_no_draw: "\<not> draws_base p \<Longrightarrow> snd (base_delay X p n random w) = w"
  by (auto simp: draws_base_def base_delay_def split: backoff_strategy.split)

lemma apply_jitter_no_draw: "\<not> draws_jitter p \<Longrightarrow> apply_jitter p d random w = (d, w)"
  by (auto simp: draws_jitter_def apply_jitter_def split: jitter_strategy.split)

lemma apply_jitter_none [simp]: "bp_jitter p = JitterNone \<Longrightarrow> apply_jitter p d random w = (d, w)"
  by (simp add: apply_jitter_def)

lemma apply_jitter_full_le:
  "bp_jitter p = JitterFull \<Longrightarrow> fst (apply_jitter p d random w) \<le> d"
  by (simp add: apply_jitter_def interpolate_upper split: prod.split)

text \<open>Bounded jitter stays between the two scaled delays.\<close>

lemma apply_jitter_bounded_ge:
  assumes "bp_jitter p = JitterBounded r" and "\<not> f64_eq r f64_zero"
  shows "scale_duration d (f64_max (f64_sub f64_one r) f64_zero) \<le> fst (apply_jitter p d random w)"
  using assms by (simp add: apply_jitter_def Let_def interpolate_lower split: prod.split)

section \<open>Resolution of hints\<close>

definition cap_delay :: "duration option \<Rightarrow> duration \<Rightarrow> duration" where
  "cap_delay limit d = (case limit of None \<Rightarrow> d | Some l \<Rightarrow> min d l)"

lemma cap_delay_simps [simp]: "cap_delay None d = d" "cap_delay (Some l) d = min d l"
  by (simp_all add: cap_delay_def)

lemma cap_delay_mono: "d \<le> e \<Longrightarrow> cap_delay l d \<le> cap_delay l e"
  by (cases l) (auto simp: min_def)

lemma resolve_step:
  "fst (resolve p base rq n random w) =
     backoff_step_new n base
       (cap_delay (bp_delay_limit p)
         (step_effective_delay (fst (resolve_uncapped p base rq n random w))))
       (step_source (fst (resolve_uncapped p base rq n random w)))"
  by (simp add: resolve_def Let_def cap_delay_def case_prod_beta)

lemma resolve_world:
  "snd (resolve p base rq n random w) = snd (resolve_uncapped p base rq n random w)"
  by (simp add: resolve_def Let_def case_prod_beta)

text \<open>The three retry-after strategies, for a hint that is not jittered.\<close>

lemma resolve_uncapped_prefer:
  assumes "bp_retry_after p = PreferHint" and "rq_hint rq = Some h" and "\<not> rq_jitter_hint rq"
  shows "step_effective_delay (fst (resolve_uncapped p base rq n random w)) = h"
  using assms by (simp add: resolve_uncapped_def Let_def split: prod.split)

lemma resolve_uncapped_minimum:
  assumes "bp_retry_after p = AtLeastBackoff" and "rq_hint rq = Some h" and "\<not> rq_jitter_hint rq"
  shows "step_effective_delay (fst (resolve_uncapped p base rq n random w)) =
     max (fst (apply_jitter p base random w)) h"
  using assms by (simp add: resolve_uncapped_def Let_def split: prod.split)

lemma resolve_uncapped_no_hint:
  assumes "bp_retry_after p = IgnoreHint \<or> rq_hint rq = None"
  shows "resolve_uncapped p base rq n random w =
     (backoff_step_new n base (fst (apply_jitter p base random w)) SourcePolicy,
      snd (apply_jitter p base random w))"
  using assms by (auto simp: resolve_uncapped_def split: option.split prod.split)

lemma resolve_le_limit:
  "bp_delay_limit p = Some l \<Longrightarrow> step_effective_delay (fst (resolve p base rq n random w)) \<le> l"
  by (simp add: resolve_step)

section \<open>Numbering of the sequence\<close>

text \<open>The first \<open>n\<close> calls of \<open>next\<close>, one request each.\<close>

primrec backoff_steps ::
  "('i, 'd, 'x, 'b, 'w) deps \<Rightarrow> backoff_request list \<Rightarrow> 'w backoff_state \<Rightarrow> 'w
     \<Rightarrow> backoff_step list \<times> 'w backoff_state \<times> 'w"
where
  "backoff_steps X [] st w = ([], st, w)"
| "backoff_steps X (rq # rqs) st w =
     (let (s, st', w') = backoff_next X rq st w;
          (ss, r) = backoff_steps X rqs st' w'
      in (s # ss, r))"

lemma backoff_start_sel [simp]:
  "bo_policy (backoff_start p) = p"
  "bo_random (backoff_start p) = StorageThread"
  "bo_retry_index (backoff_start p) = 0"
  by (simp_all add: backoff_start_def backoff_state_new_thread_def)

lemma backoff_next_state:
  "fst (snd (backoff_next X rq st w)) =
     st\<lparr>bo_retry_index := u32_saturating_add (bo_retry_index st) 1\<rparr>"
  by (simp add: backoff_next_def Let_def split: prod.split)

lemma backoff_next_index:
  "step_retry_index (fst (backoff_next X rq st w)) = u32_saturating_add (bo_retry_index st) 1"
  by (simp add: backoff_next_def Let_def resolve_def split: prod.split)


lemma backoff_next_step:
  "fst (backoff_next X rq st w) =
     (let n = u32_saturating_add (bo_retry_index st) 1;
          b = base_delay X (bo_policy st) n (as_source X (bo_random st)) w
      in fst (resolve (bo_policy st) (fst b) rq n (as_source X (bo_random st)) (snd b)))"
  by (simp add: backoff_next_def Let_def case_prod_beta)

lemma backoff_next_world:
  "snd (snd (backoff_next X rq st w)) =
     (let n = u32_saturating_add (bo_retry_index st) 1;
          b = base_delay X (bo_policy st) n (as_source X (bo_random st)) w
      in snd (resolve (bo_policy st) (fst b) rq n (as_source X (bo_random st)) (snd b)))"
  by (simp add: backoff_next_def Let_def case_prod_beta)

lemma unat_saturating_iterate:
  "unat (u32_saturating_add i 1) = min (Suc (unat i)) (2 ^ 32 - 1)"
  by (simp add: unat_u32_saturating_add)

lemma backoff_steps_indices:
  "map (\<lambda>s. unat (step_retry_index s)) (fst (backoff_steps X rqs st w)) =
     map (\<lambda>k. min (unat (bo_retry_index st) + k) (2 ^ 32 - 1)) [1..<Suc (length rqs)]"
proof (induction rqs arbitrary: st w)
  case Nil
  then show ?case by simp
next
  case (Cons rq rqs)
  define st' where "st' = fst (snd (backoff_next X rq st w))"
  define w' where "w' = snd (snd (backoff_next X rq st w))"
  have idx: "unat (bo_retry_index st') = min (Suc (unat (bo_retry_index st))) (2 ^ 32 - 1)"
    by (simp add: st'_def backoff_next_state unat_saturating_iterate)
  have "map (\<lambda>s. unat (step_retry_index s)) (fst (backoff_steps X (rq # rqs) st w)) =
      min (Suc (unat (bo_retry_index st))) (2 ^ 32 - 1) #
      map (\<lambda>s. unat (step_retry_index s)) (fst (backoff_steps X rqs st' w'))"
    by (simp add: Let_def case_prod_beta st'_def w'_def backoff_next_index unat_saturating_iterate)
  also have "\<dots> = min (Suc (unat (bo_retry_index st))) (2 ^ 32 - 1) #
      map (\<lambda>k. min (unat (bo_retry_index st) + Suc k) (2 ^ 32 - 1)) [1..<Suc (length rqs)]"
    by (simp only: Cons.IH idx) (auto simp: min_def)
  also have "\<dots> = map (\<lambda>k. min (unat (bo_retry_index st) + k) (2 ^ 32 - 1))
      [1..<Suc (length (rq # rqs))]"
    by (simp add: upt_conv_Cons map_Suc_upt [symmetric] del: upt_Suc)
  finally show ?case .
qed

section \<open>Properties\<close>

text \<open>
  C31. Every policy a caller can assemble from the constructors and builder methods
  selects, for every retry index, random source and world, a base delay that its declared
  maximum bounds.
\<close>

theorem built_policy_base_delay_bounded:
  assumes "built_backoff p"
  shows "\<exists>m. maximum_delay p = Some m \<and> fst (base_delay X p n random w) \<le> m"
  by (rule base_delay_le_maximum [OF built_backoff_valid [OF assms]])

lemma sample_exponential_built:
  "backoff_exponential (from_secs 1) (F64_Fin 2) (from_secs 8) =
     Inr (backoff_immediate\<lparr>bp_strategy :=
       StrategyExponential (from_secs 1) (F64_Fin 2) (from_secs 8)\<rparr>)"
  by (simp add: backoff_exponential_iff less_eq_duration_def as_nanos_from_secs nanos_per_sec_def)

lemma built_policy_base_delay_bounded_witness:
  "\<exists>m. maximum_delay (backoff_immediate\<lparr>bp_strategy :=
         StrategyExponential (from_secs 1) (F64_Fin 2) (from_secs 8)\<rparr>) = Some m \<and>
       fst (base_delay manual_deps (backoff_immediate\<lparr>bp_strategy :=
         StrategyExponential (from_secs 1) (F64_Fin 2) (from_secs 8)\<rparr>) 3
         (thread_random_f64_inclusive manual_deps) ()) \<le> m"
  by (rule built_policy_base_delay_bounded [OF built_exponential [OF sample_exponential_built]])




text \<open>
  C15. Whatever the hint, the jitter, the base delay and the random samples (any value, NaN
  included), the selected delay never exceeds the configured delay limit, and full jitter
  never lengthens a delay.
\<close>

theorem selected_delay_within_limit:
  assumes "bp_delay_limit p = Some l"
  shows "step_effective_delay (fst (resolve p base rq n random w)) \<le> l \<and>
    fst (apply_jitter (with_full_jitter p) base random w) \<le> base"
  using assms by (simp add: resolve_le_limit apply_jitter_full_le with_full_jitter_def)

lemma selected_delay_within_limit_witness:
  "step_effective_delay (fst (resolve (limit_delay (backoff_fixed (from_secs 9)) (from_secs 3))
      (from_secs 9) request_policy 1 (\<lambda>lo hi w. (F64_NaN, w)) ())) \<le> from_secs 3"
  using selected_delay_within_limit
    [of "limit_delay (backoff_fixed (from_secs 9)) (from_secs 3)" "from_secs 3"
      "from_secs 9" request_policy 1 "\<lambda>lo hi w. (F64_NaN, w)" "()"]
  by (simp add: limit_delay_def)

text \<open>
  The steps of one sequence are numbered 1, 2, 3, and so on, saturating at the largest
  32-bit index, whatever requests drive them; and resetting restarts the numbering while
  keeping policy and random source.
\<close>

theorem backoff_sequence_numbering:
  "map (\<lambda>s. unat (step_retry_index s)) (fst (backoff_steps X rqs (backoff_start p) w)) =
     map (\<lambda>k. min k (2 ^ 32 - 1)) [1..<Suc (length rqs)] \<and>
   backoff_reset (fst (snd (backoff_steps X rqs (backoff_start p) w))) = backoff_start p"
proof
  show "map (\<lambda>s. unat (step_retry_index s)) (fst (backoff_steps X rqs (backoff_start p) w)) =
      map (\<lambda>k. min k (2 ^ 32 - 1)) [1..<Suc (length rqs)]"
    by (simp add: backoff_steps_indices backoff_start_sel del: upt_Suc)
  have "backoff_reset (fst (snd (backoff_steps X rqs st w))) = backoff_reset st" for st
    by (induction rqs arbitrary: st w)
      (simp_all add: Let_def case_prod_beta backoff_next_state backoff_reset_def)
  then show "backoff_reset (fst (snd (backoff_steps X rqs (backoff_start p) w))) = backoff_start p"
    by (simp add: backoff_reset_def backoff_start_def backoff_state_new_thread_def)
qed

text \<open>
  C33. A policy without random strategy or jitter is deterministic: it does not consult the
  random source, and the step it selects depends only on the request and the retry index.
\<close>

theorem deterministic_policy_step:
  assumes "\<not> draws_base (bo_policy st)" and "\<not> draws_jitter (bo_policy st)"
  shows "snd (snd (backoff_next X rq st w)) = w \<and>
    fst (backoff_next X rq st w) =
      fst (backoff_next X rq (st\<lparr>bo_random := StorageThread\<rparr>) w')"
proof -
  let ?p = "bo_policy st" and ?n = "u32_saturating_add (bo_retry_index st) 1"
  have base: "base_delay X ?p n r v = (fst (base_delay X ?p n r' v'), v)" for n r r' v v'
    using assms(1) by (auto simp: draws_base_def base_delay_def split: backoff_strategy.split)
  have res: "resolve_uncapped ?p b rq n r v =
      (fst (resolve_uncapped ?p b rq n r' v'), v)" for b n r r' v v'
    by (simp add: resolve_uncapped_def Let_def apply_jitter_no_draw [OF assms(2)]
        split: option.split)
  have res_step: "fst (resolve ?p b rq n r v) = fst (resolve ?p b rq n r' v')" for b n r r' v v'
    using res [of b n r v r' v'] unfolding resolve_step by (metis fst_conv)
  have res_world: "snd (resolve ?p b rq n r v) = v" for b n r v
    using res [of b n r v r v] by (metis resolve_world snd_conv)
  have base_world: "snd (base_delay X ?p n r v) = v" for n r v
    using base [of n r v r v] by (metis snd_conv)
  have "fst (base_delay X ?p ?n r w) = fst (base_delay X ?p ?n r' w')" for r r'
    using base [of ?n r w r' w'] by (metis fst_conv)
  then show ?thesis
    using res_step [of _ ?n "as_source X (bo_random st)" w "thread_random_f64_inclusive X" w']
    by (simp add: backoff_next_step backoff_next_world Let_def res_world base_world) metis
qed

lemma deterministic_policy_step_witness:
  "snd (snd (backoff_next manual_deps request_policy
      (backoff_start (backoff_fixed (from_secs 1))) (7 :: nat))) = 7"
  using deterministic_policy_step
    [of "backoff_start (backoff_fixed (from_secs 1))" manual_deps request_policy "7 :: nat" 7]
  by (simp add: backoff_start_def backoff_state_new_thread_def draws_base_def draws_jitter_def)

end
