(* ===== verification/Policy.thy ===== *)
theory Policy
  imports Backoff
begin

text \<open>
  Admission limits, the retry policy and its builder (src/src/policy).  \<open>NonZeroU32\<close> makes
  a policy without attempts unrepresentable; the builder is the only public way to a policy
  and rejects zero.
\<close>

section \<open>Data\<close>

record retry_admission_limits =
  lim_max_attempts :: nonzero_u32
  lim_operation_time_budget :: "duration option"
  lim_total_time_budget :: "duration option"

definition admission_limits_new ::
  "nonzero_u32 \<Rightarrow> duration option \<Rightarrow> duration option \<Rightarrow> retry_admission_limits"
where
  "admission_limits_new max_attempts operation_budget total_budget =
     \<lparr>lim_max_attempts = max_attempts, lim_operation_time_budget = operation_budget,
      lim_total_time_budget = total_budget\<rparr>"

record retry_policy =
  pol_limits :: retry_admission_limits
  pol_backoff :: backoff_policy

definition policy_new :: "retry_admission_limits \<Rightarrow> backoff_policy \<Rightarrow> retry_policy" where
  "policy_new limits backoff = \<lparr>pol_limits = limits, pol_backoff = backoff\<rparr>"

record retry_policy_builder =
  pb_max_attempts :: u32
  pb_operation_time_budget :: "duration option"
  pb_total_time_budget :: "duration option"
  pb_backoff :: backoff_policy

section \<open>Builder\<close>

definition policy_builder_new :: retry_policy_builder where
  "policy_builder_new =
     \<lparr>pb_max_attempts = 3, pb_operation_time_budget = None, pb_total_time_budget = None,
      pb_backoff = backoff_immediate\<rparr>"

definition policy_builder :: retry_policy_builder where
  "policy_builder = policy_builder_new"

definition pb_set_max_attempts :: "u32 \<Rightarrow> retry_policy_builder \<Rightarrow> retry_policy_builder" where
  "pb_set_max_attempts n b = b\<lparr>pb_max_attempts := n\<rparr>"

definition pb_set_operation_time_budget ::
  "duration \<Rightarrow> retry_policy_builder \<Rightarrow> retry_policy_builder"
where
  "pb_set_operation_time_budget d b = b\<lparr>pb_operation_time_budget := Some d\<rparr>"

definition pb_set_operation_time_budget_opt ::
  "duration option \<Rightarrow> retry_policy_builder \<Rightarrow> retry_policy_builder"
where
  "pb_set_operation_time_budget_opt d b = b\<lparr>pb_operation_time_budget := d\<rparr>"

definition pb_without_operation_time_budget ::
  "retry_policy_builder \<Rightarrow> retry_policy_builder"
where
  "pb_without_operation_time_budget b = b\<lparr>pb_operation_time_budget := None\<rparr>"

definition pb_set_total_time_budget ::
  "duration \<Rightarrow> retry_policy_builder \<Rightarrow> retry_policy_builder"
where
  "pb_set_total_time_budget d b = b\<lparr>pb_total_time_budget := Some d\<rparr>"

definition pb_set_total_time_budget_opt ::
  "duration option \<Rightarrow> retry_policy_builder \<Rightarrow> retry_policy_builder"
where
  "pb_set_total_time_budget_opt d b = b\<lparr>pb_total_time_budget := d\<rparr>"

definition pb_without_total_time_budget :: "retry_policy_builder \<Rightarrow> retry_policy_builder" where
  "pb_without_total_time_budget b = b\<lparr>pb_total_time_budget := None\<rparr>"

definition pb_set_backoff :: "backoff_policy \<Rightarrow> retry_policy_builder \<Rightarrow> retry_policy_builder" where
  "pb_set_backoff p b = b\<lparr>pb_backoff := p\<rparr>"

definition policy_builder_from_policy :: "retry_policy \<Rightarrow> retry_policy_builder" where
  "policy_builder_from_policy policy =
     (let limits = pol_limits policy;
          b0 = pb_set_backoff (pol_backoff policy)
                 (pb_set_max_attempts (nz_get (lim_max_attempts limits)) policy_builder_new);
          b1 = (case lim_operation_time_budget limits of
                  Some budget \<Rightarrow> pb_set_operation_time_budget budget b0
                | None \<Rightarrow> pb_without_operation_time_budget b0)
      in (case lim_total_time_budget limits of
            Some budget \<Rightarrow> pb_set_total_time_budget budget b1
          | None \<Rightarrow> pb_without_total_time_budget b1))"

definition policy_build :: "retry_policy_builder \<Rightarrow> retry_policy_error + retry_policy" where
  "policy_build b =
     (case nz_new (pb_max_attempts b) of
        None \<Rightarrow> Inl (policy_error_new ''max_attempts'' ''maximum attempts must be greater than zero'')
      | Some max_attempts \<Rightarrow>
          Inr (policy_new
                (admission_limits_new max_attempts (pb_operation_time_budget b)
                   (pb_total_time_budget b))
                (pb_backoff b)))"

section \<open>Facts\<close>

lemma policy_builder_from_policy_fields:
  "pb_max_attempts (policy_builder_from_policy p) = nz_get (lim_max_attempts (pol_limits p))"
  "pb_operation_time_budget (policy_builder_from_policy p) =
     lim_operation_time_budget (pol_limits p)"
  "pb_total_time_budget (policy_builder_from_policy p) = lim_total_time_budget (pol_limits p)"
  "pb_backoff (policy_builder_from_policy p) = pol_backoff p"
  by (simp_all add: policy_builder_from_policy_def policy_builder_new_def Let_def
      pb_set_backoff_def pb_set_max_attempts_def pb_set_operation_time_budget_def
      pb_without_operation_time_budget_def pb_set_total_time_budget_def
      pb_without_total_time_budget_def split: option.split)

section \<open>Properties\<close>

text \<open>
  The builder rejects exactly the request for zero attempts, carries every other field
  into the policy unchanged, and a builder made from a policy rebuilds that very policy.
\<close>

theorem policy_build_exact:
  "(policy_build b = Inl e \<longleftrightarrow>
      pb_max_attempts b = 0 \<and>
      e = policy_error_new ''max_attempts'' ''maximum attempts must be greater than zero'') \<and>
   (policy_build b = Inr p \<longleftrightarrow>
      nz_get (lim_max_attempts (pol_limits p)) = pb_max_attempts b \<and>
      lim_operation_time_budget (pol_limits p) = pb_operation_time_budget b \<and>
      lim_total_time_budget (pol_limits p) = pb_total_time_budget b \<and>
      pol_backoff p = pb_backoff b) \<and>
   policy_build (policy_builder_from_policy q) = Inr q"
proof -
  have "policy_build b = Inr p \<longleftrightarrow>
      nz_get (lim_max_attempts (pol_limits p)) = pb_max_attempts b \<and>
      lim_operation_time_budget (pol_limits p) = pb_operation_time_budget b \<and>
      lim_total_time_budget (pol_limits p) = pb_total_time_budget b \<and>
      pol_backoff p = pb_backoff b" for b p
    by (cases p; cases "pol_limits p")
      (auto simp: policy_build_def policy_new_def admission_limits_new_def nz_new_Some_iff
        nz_get_inject_iff [symmetric] simp del: nz_get_inject_iff split: option.split)
  then show ?thesis
    by (auto simp: policy_builder_from_policy_fields) (auto simp: policy_build_def split: option.splits)
qed

end
