(* ===== verification/Wire.thy ===== *)
theory Wire
  imports Policy
begin

text \<open>
  The serde representations (src/src/backoff/internal and src/src/policy/internal): the
  stable data-transfer types, the conversions into them, and the checked conversions back.
  The format-specific part (field names to bytes) belongs to serde: \<open>Serialize\<close> and
  \<open>Deserialize\<close> take it as a parameter, with the format's own custom error.
\<close>

section \<open>Durations\<close>

record duration_data =
  dd_seconds :: u64
  dd_nanoseconds :: u32

definition duration_data_from :: "duration \<Rightarrow> duration_data" where
  "duration_data_from d = \<lparr>dd_seconds = as_secs d, dd_nanoseconds = subsec_nanos d\<rparr>"

definition duration_try_from :: "duration_data \<Rightarrow> retry_policy_error + duration" where
  "duration_try_from data =
     (if 1000000000 \<le> dd_nanoseconds data then
        Inl (policy_error_new ''duration.nanoseconds''
               ''nanoseconds must be less than 1_000_000_000'')
      else
        (case dur_checked_add (from_secs (dd_seconds data))
                (from_nanos (ucast (dd_nanoseconds data))) of
           Some d \<Rightarrow> Inr d
         | None \<Rightarrow> Inl (policy_error_new ''duration'' ''duration exceeds the supported range'')))"

section \<open>Backoff\<close>

datatype backoff_strategy_data =
    DataImmediate
  | DataFixed duration_data
  | DataUniform duration_data duration_data
  | DataExponential duration_data f64 duration_data

primrec backoff_strategy_data_from :: "backoff_strategy \<Rightarrow> backoff_strategy_data" where
  "backoff_strategy_data_from StrategyImmediate = DataImmediate"
| "backoff_strategy_data_from (StrategyFixed delay) = DataFixed (duration_data_from delay)"
| "backoff_strategy_data_from (StrategyUniform mn mx) =
     DataUniform (duration_data_from mn) (duration_data_from mx)"
| "backoff_strategy_data_from (StrategyExponential initial multiplier mx) =
     DataExponential (duration_data_from initial) multiplier (duration_data_from mx)"

primrec backoff_strategy_try_from ::
  "backoff_strategy_data \<Rightarrow> retry_policy_error + backoff_strategy"
where
  "backoff_strategy_try_from DataImmediate = Inr StrategyImmediate"
| "backoff_strategy_try_from (DataFixed delay) = map_right StrategyFixed (duration_try_from delay)"
| "backoff_strategy_try_from (DataUniform mn mx) =
     (case duration_try_from mn of
        Inl e \<Rightarrow> Inl e
      | Inr lo \<Rightarrow> map_right (StrategyUniform lo) (duration_try_from mx))"
| "backoff_strategy_try_from (DataExponential initial multiplier mx) =
     (case duration_try_from initial of
        Inl e \<Rightarrow> Inl e
      | Inr i \<Rightarrow> map_right (StrategyExponential i multiplier) (duration_try_from mx))"

datatype jitter_strategy_data = DataJitterNone | DataJitterFull | DataJitterBounded f64

datatype jitter_strategy_tag = TagNone | TagFull | TagBounded

datatype ratio_field = RatioMissing | RatioPresent f64

text \<open>\<open>JitterStrategyDataRaw\<close>, the fields serde has already read.\<close>

record jitter_strategy_data_raw =
  raw_tag :: jitter_strategy_tag
  raw_ratio :: ratio_field

definition jitter_data_deserialize ::
  "jitter_strategy_data_raw \<Rightarrow> string + jitter_strategy_data"
where
  "jitter_data_deserialize raw =
     (case (raw_tag raw, raw_ratio raw) of
        (TagNone, RatioMissing) \<Rightarrow> Inr DataJitterNone
      | (TagFull, RatioMissing) \<Rightarrow> Inr DataJitterFull
      | (TagBounded, RatioPresent ratio) \<Rightarrow> Inr (DataJitterBounded ratio)
      | (TagBounded, RatioMissing) \<Rightarrow> Inl ''bounded jitter requires ratio''
      | (_, RatioPresent _) \<Rightarrow> Inl ''jitter ratio is only valid for bounded jitter'')"

primrec jitter_data_from :: "jitter_strategy \<Rightarrow> jitter_strategy_data" where
  "jitter_data_from JitterNone = DataJitterNone"
| "jitter_data_from JitterFull = DataJitterFull"
| "jitter_data_from (JitterBounded ratio) = DataJitterBounded ratio"

primrec jitter_from_data :: "jitter_strategy_data \<Rightarrow> jitter_strategy" where
  "jitter_from_data DataJitterNone = JitterNone"
| "jitter_from_data DataJitterFull = JitterFull"
| "jitter_from_data (DataJitterBounded ratio) = JitterBounded ratio"

datatype retry_after_strategy_data = DataPreferHint | DataAtLeastBackoff | DataIgnoreHint

primrec retry_after_data_from :: "retry_after_strategy \<Rightarrow> retry_after_strategy_data" where
  "retry_after_data_from PreferHint = DataPreferHint"
| "retry_after_data_from AtLeastBackoff = DataAtLeastBackoff"
| "retry_after_data_from IgnoreHint = DataIgnoreHint"

primrec retry_after_from_data :: "retry_after_strategy_data \<Rightarrow> retry_after_strategy" where
  "retry_after_from_data DataPreferHint = PreferHint"
| "retry_after_from_data DataAtLeastBackoff = AtLeastBackoff"
| "retry_after_from_data DataIgnoreHint = IgnoreHint"

record backoff_policy_data =
  bpd_strategy :: backoff_strategy_data
  bpd_jitter :: jitter_strategy_data
  bpd_retry_after :: retry_after_strategy_data
  bpd_delay_limit :: "duration_data option"

definition backoff_policy_data_from :: "backoff_policy \<Rightarrow> backoff_policy_data" where
  "backoff_policy_data_from p =
     \<lparr>bpd_strategy = backoff_strategy_data_from (bp_strategy p),
      bpd_jitter = jitter_data_from (bp_jitter p),
      bpd_retry_after = retry_after_data_from (bp_retry_after p),
      bpd_delay_limit = map_option duration_data_from (bp_delay_limit p)\<rparr>"

definition backoff_policy_try_from ::
  "backoff_policy_data \<Rightarrow> retry_policy_error + backoff_policy"
where
  "backoff_policy_try_from data =
     (case backoff_strategy_try_from (bpd_strategy data) of
        Inl e \<Rightarrow> Inl e
      | Inr strategy \<Rightarrow>
          (case transpose_map duration_try_from (bpd_delay_limit data) of
             Inl e \<Rightarrow> Inl e
           | Inr limit \<Rightarrow>
               (let policy = \<lparr>bp_strategy = strategy, bp_jitter = jitter_from_data (bpd_jitter data),
                              bp_retry_after = retry_after_from_data (bpd_retry_after data),
                              bp_delay_limit = limit\<rparr>
                in map_right (\<lambda>_. policy) (backoff_validate policy))))"

section \<open>Limits and policy\<close>

record limits_data =
  ld_max_attempts :: u32
  ld_operation_time_budget :: "duration_data option"
  ld_total_time_budget :: "duration_data option"

definition limits_data_from :: "retry_admission_limits \<Rightarrow> limits_data" where
  "limits_data_from limits =
     \<lparr>ld_max_attempts = nz_get (lim_max_attempts limits),
      ld_operation_time_budget = map_option duration_data_from (lim_operation_time_budget limits),
      ld_total_time_budget = map_option duration_data_from (lim_total_time_budget limits)\<rparr>"

definition limits_try_from :: "limits_data \<Rightarrow> retry_policy_error + retry_admission_limits" where
  "limits_try_from data =
     (case nz_new (ld_max_attempts data) of
        None \<Rightarrow> Inl (policy_error_new ''max_attempts'' ''maximum attempts must be greater than zero'')
      | Some n \<Rightarrow>
          (case transpose_map duration_try_from (ld_operation_time_budget data) of
             Inl e \<Rightarrow> Inl e
           | Inr operation \<Rightarrow>
               (case transpose_map duration_try_from (ld_total_time_budget data) of
                  Inl e \<Rightarrow> Inl e
                | Inr whole \<Rightarrow> Inr (admission_limits_new n operation whole))))"

record policy_data =
  pd_max_attempts :: u32
  pd_operation_time_budget :: "duration_data option"
  pd_total_time_budget :: "duration_data option"
  pd_backoff :: backoff_policy

definition policy_data_from :: "retry_policy \<Rightarrow> policy_data" where
  "policy_data_from policy =
     (let limits = pol_limits policy
      in \<lparr>pd_max_attempts = nz_get (lim_max_attempts limits),
          pd_operation_time_budget =
            map_option duration_data_from (lim_operation_time_budget limits),
          pd_total_time_budget = map_option duration_data_from (lim_total_time_budget limits),
          pd_backoff = pol_backoff policy\<rparr>)"

definition policy_try_from :: "policy_data \<Rightarrow> retry_policy_error + retry_policy" where
  "policy_try_from data =
     map_right (\<lambda>limits. policy_new limits (pd_backoff data))
       (limits_try_from
         \<lparr>ld_max_attempts = pd_max_attempts data,
          ld_operation_time_budget = pd_operation_time_budget data,
          ld_total_time_budget = pd_total_time_budget data\<rparr>)"

section \<open>Formats\<close>

text \<open>
  The \<open>Serialize\<close> and \<open>Deserialize\<close> implementations of the public types.  A format is the
  caller's: \<open>write\<close> puts a representation into it, \<open>read\<close> takes one out of it, and \<open>custom\<close> is
  its \<open>Error::custom\<close>, the validation error as an error of the format.
\<close>

definition backoff_policy_serialize ::
  "(backoff_policy_data \<Rightarrow> 'x + 'z) \<Rightarrow> backoff_policy \<Rightarrow> 'x + 'z"
where
  "backoff_policy_serialize write policy = write (backoff_policy_data_from policy)"

definition backoff_policy_deserialize ::
  "(retry_policy_error \<Rightarrow> 'x) \<Rightarrow> ('z \<Rightarrow> 'x + backoff_policy_data) \<Rightarrow> 'z \<Rightarrow> 'x + backoff_policy"
where
  "backoff_policy_deserialize custom read input =
     (case read input of
        Inl e \<Rightarrow> Inl e
      | Inr data \<Rightarrow> map_left custom (backoff_policy_try_from data))"

definition limits_serialize ::
  "(limits_data \<Rightarrow> 'x + 'z) \<Rightarrow> retry_admission_limits \<Rightarrow> 'x + 'z"
where
  "limits_serialize write limits = write (limits_data_from limits)"

definition limits_deserialize ::
  "(retry_policy_error \<Rightarrow> 'x) \<Rightarrow> ('z \<Rightarrow> 'x + limits_data) \<Rightarrow> 'z \<Rightarrow> 'x + retry_admission_limits"
where
  "limits_deserialize custom read input =
     (case read input of
        Inl e \<Rightarrow> Inl e
      | Inr data \<Rightarrow> map_left custom (limits_try_from data))"

text \<open>The backoff of a policy's representation is itself a \<open>BackoffPolicy\<close>, which \<open>read\<close> decodes.\<close>

definition policy_serialize :: "(policy_data \<Rightarrow> 'x + 'z) \<Rightarrow> retry_policy \<Rightarrow> 'x + 'z" where
  "policy_serialize write policy = write (policy_data_from policy)"

definition policy_deserialize ::
  "(retry_policy_error \<Rightarrow> 'x) \<Rightarrow> ('z \<Rightarrow> 'x + policy_data) \<Rightarrow> 'z \<Rightarrow> 'x + retry_policy"
where
  "policy_deserialize custom read input =
     (case read input of
        Inl e \<Rightarrow> Inl e
      | Inr data \<Rightarrow> map_left custom (policy_try_from data))"

text \<open>\<open>deserialize_ratio\<close>: a ratio that is there is a number, null is an error of the format.\<close>

definition deserialize_ratio :: "('z \<Rightarrow> 'x + f64) \<Rightarrow> 'z \<Rightarrow> 'x + ratio_field" where
  "deserialize_ratio read_f64 input = map_right RatioPresent (read_f64 input)"

section \<open>Facts\<close>

lemma duration_try_from_total:
  "duration_try_from data =
     (if 1000000000 \<le> unat (dd_nanoseconds data) then
        Inl (policy_error_new ''duration.nanoseconds''
               ''nanoseconds must be less than 1_000_000_000'')
      else Inr (of_nanos (unat (dd_seconds data) * nanos_per_sec + unat (dd_nanoseconds data))))"
proof -
  have n: "as_nanos (from_nanos (ucast (dd_nanoseconds data))) = unat (dd_nanoseconds data)"
    by (simp add: as_nanos_from_nanos unsigned_ucast_eq take_bit_nat_eq_self
        order.strict_trans [OF unat_u32_bound])
  have "unat (dd_seconds data) \<le> 2 ^ 64 - 1"
    using unat_u64_bound [of "dd_seconds data"] by simp
  then have "unat (dd_nanoseconds data) < 1000000000 \<Longrightarrow>
      unat (dd_seconds data) * nanos_per_sec + unat (dd_nanoseconds data) \<le> max_nanos"
    by (simp add: max_nanos_def nanos_per_sec_def)
  then show ?thesis
    by (auto simp: duration_try_from_def dur_checked_add_def n as_nanos_from_secs
        word_le_nat_alt)
qed

lemma duration_try_from_from [simp]: "duration_try_from (duration_data_from d) = Inr d"
proof -
  have "unat (subsec_nanos d) < 1000000000"
    by (simp add: unat_subsec_nanos nanos_per_sec_def)
  then show ?thesis
    by (simp add: duration_try_from_total duration_data_from_def duration_fields [symmetric])
qed

lemma transpose_duration_from [simp]:
  "transpose_map duration_try_from (map_option duration_data_from x) = Inr x"
  by (cases x) simp_all

lemma jitter_from_data_from [simp]: "jitter_from_data (jitter_data_from j) = j"
  by (cases j) simp_all

lemma retry_after_from_data_from [simp]: "retry_after_from_data (retry_after_data_from r) = r"
  by (cases r) simp_all

lemma backoff_strategy_try_from_from [simp]:
  "backoff_strategy_try_from (backoff_strategy_data_from s) = Inr s"
  by (cases s) simp_all

lemma backoff_try_from_valid:
  "backoff_policy_try_from data = Inr p \<Longrightarrow> valid_backoff p"
  by (auto simp: backoff_policy_try_from_def Let_def validated_Inr_iff valid_backoff_def
      split: sum.splits)

lemma backoff_try_from_from:
  "valid_backoff p \<Longrightarrow> backoff_policy_try_from (backoff_policy_data_from p) = Inr p"
  by (auto simp: backoff_policy_try_from_def backoff_policy_data_from_def Let_def validated_Inr_iff
      valid_backoff_def)

lemma limits_try_from_from [simp]: "limits_try_from (limits_data_from l) = Inr l"
  by (cases l) (simp add: limits_try_from_def limits_data_from_def admission_limits_new_def)

lemma policy_try_from_from [simp]: "policy_try_from (policy_data_from p) = Inr p"
  using limits_try_from_from [of "pol_limits p"]
  by (simp add: policy_try_from_def policy_data_from_def limits_data_from_def policy_new_def Let_def)

lemma policy_data_backoff [simp]: "pd_backoff (policy_data_from p) = pol_backoff p"
  by (simp add: policy_data_from_def Let_def)

text \<open>
  Through any format that reads back what it has written, a public value comes back as it
  was, and nothing but a valid backoff ever comes out of one.
\<close>

lemma backoff_serde:
  "(\<And>d z. write d = Inr z \<Longrightarrow> read z = Inr d) \<Longrightarrow> backoff_policy_serialize write p = Inr z \<Longrightarrow>
   valid_backoff p \<Longrightarrow> backoff_policy_deserialize custom read z = Inr p"
  "backoff_policy_deserialize custom read y = Inr q \<Longrightarrow> valid_backoff q"
proof -
  assume "\<And>d z. write d = Inr z \<Longrightarrow> read z = Inr d" "backoff_policy_serialize write p = Inr z"
    and "valid_backoff p"
  then show "backoff_policy_deserialize custom read z = Inr p"
    by (simp add: backoff_policy_serialize_def backoff_policy_deserialize_def backoff_try_from_from)
next
  assume "backoff_policy_deserialize custom read y = Inr q"
  then show "valid_backoff q"
    by (auto simp: backoff_policy_deserialize_def dest: backoff_try_from_valid split: sum.splits)
qed

lemma limits_serde:
  "(\<And>d z. write d = Inr z \<Longrightarrow> read z = Inr d) \<Longrightarrow> limits_serialize write l = Inr z \<Longrightarrow>
   limits_deserialize custom read z = Inr l"
  by (simp add: limits_serialize_def limits_deserialize_def)

lemma policy_serde:
  "(\<And>d z. valid_backoff (pd_backoff d) \<Longrightarrow> write d = Inr z \<Longrightarrow> read z = Inr d) \<Longrightarrow>
   valid_backoff (pol_backoff p) \<Longrightarrow> policy_serialize write p = Inr z \<Longrightarrow>
   policy_deserialize custom read z = Inr p"
proof -
  assume law: "\<And>d z. valid_backoff (pd_backoff d) \<Longrightarrow> write d = Inr z \<Longrightarrow> read z = Inr d"
    and valid: "valid_backoff (pol_backoff p)" and "policy_serialize write p = Inr z"
  then have "read z = Inr (policy_data_from p)"
    by (intro law) (simp_all add: policy_serialize_def)
  then show ?thesis by (simp add: policy_deserialize_def)
qed

text \<open>Jitter reads its ratio as a number first: without one the field stays missing.\<close>

lemma deserialize_ratio_present:
  "deserialize_ratio read_f64 input = Inr r \<longleftrightarrow> (\<exists>x. read_f64 input = Inr x \<and> r = RatioPresent x)"
  by (auto simp: deserialize_ratio_def map_right_def split: sum.splits)

section \<open>Properties\<close>

text \<open>
  C34. Decoding the encoded form of a backoff policy gives that policy back exactly when the
  policy is valid, and whatever data is decoded, the result is a valid policy: decoding
  cannot bypass the validation of the constructors.
\<close>

theorem backoff_wire_roundtrip:
  "(backoff_policy_try_from (backoff_policy_data_from p) = Inr p \<longleftrightarrow> valid_backoff p) \<and>
   (\<forall>data q. backoff_policy_try_from data = Inr q \<longrightarrow> valid_backoff q)"
  by (auto simp: backoff_try_from_from backoff_try_from_valid)

lemma backoff_wire_roundtrip_witness:
  "backoff_policy_try_from (backoff_policy_data_from (backoff_fixed (from_secs 3))) =
     Inr (backoff_fixed (from_secs 3)) \<and> valid_backoff (backoff_fixed (from_secs 3))"
  using backoff_wire_roundtrip [of "backoff_fixed (from_secs 3)"] by simp


text \<open>
  Jitter data is decoded exactly when the tag and the presence of the ratio agree: a
  ratio with \<open>none\<close> or \<open>full\<close>, and \<open>bounded\<close> without one, are rejected.
\<close>

theorem jitter_deserialize_exact:
  "((\<exists>j. jitter_data_deserialize raw = Inr j) \<longleftrightarrow>
      (raw_tag raw = TagBounded) = (raw_ratio raw \<noteq> RatioMissing)) \<and>
   jitter_data_deserialize
     (case jitter_data_from j of
        DataJitterNone \<Rightarrow> \<lparr>raw_tag = TagNone, raw_ratio = RatioMissing\<rparr>
      | DataJitterFull \<Rightarrow> \<lparr>raw_tag = TagFull, raw_ratio = RatioMissing\<rparr>
      | DataJitterBounded r \<Rightarrow> \<lparr>raw_tag = TagBounded, raw_ratio = RatioPresent r\<rparr>) =
     Inr (jitter_data_from j)"
proof
  show "(\<exists>j. jitter_data_deserialize raw = Inr j) \<longleftrightarrow>
      (raw_tag raw = TagBounded) = (raw_ratio raw \<noteq> RatioMissing)"
    by (cases "raw_tag raw"; cases "raw_ratio raw") (simp_all add: jitter_data_deserialize_def)
qed (cases j; simp add: jitter_data_deserialize_def)

end
