(* ===== verification/Retry_Cancellation.thy ===== *)
theory Retry_Cancellation
  imports Errors "HOL-Library.AList" "HOL-Library.Multiset"
begin

text \<open>
  Shared cancellation (src/src/executor/retry_cancellation_token.rs, retry_cancelled.rs and
  src/src/executor/internal/cancellation/): the registry of wakers, the state every clone of
  a token shares, and the future that waits for the request.

  The first part translates the methods one by one.  The second part composes their atomic
  pieces into the step relation of any number of futures and cancelling threads, because
  the flag is an atomic outside the registry's lock: cancelling swaps the flag first and
  drains the registry afterwards, and a future may be polled in between.

  The registry's hash map is an association list with distinct keys.  The order in which
  draining it visits the entries is left open: \<open>order\<close> in the methods, any
  rearrangement in the step relation.
\<close>

section \<open>The waker registry\<close>

record 'k waker_registry =
  wr_next_id :: u64
  wr_wakers :: "(u64 \<times> 'k) list"

definition registry_default :: "'k waker_registry" where
  "registry_default = \<lparr>wr_next_id = 0, wr_wakers = []\<rparr>"

text \<open>The search for an unused identifier.\<close>

definition registry_fresh_id :: "('k waker_registry, 'x, u64) prog" where
  "registry_fresh_id = loops (
     andthen (reads wr_next_id) (\<lambda>candidate.
     andthen (updates (\<lambda>r. r\<lparr>wr_next_id := candidate + 1\<rparr>)) (\<lambda>_.
     reads (\<lambda>r. if map_of (wr_wakers r) candidate = None then Some candidate else None))))"

definition registry_register ::
  "u64 option \<Rightarrow> 'k \<Rightarrow> ('k waker_registry, 'x, u64 \<times> 'k option) prog"
where
  "registry_register registration_id waker =
     andthen (case registration_id of None \<Rightarrow> registry_fresh_id | Some existing \<Rightarrow> ok existing)
       (\<lambda>registration_id.
     andthen (reads (\<lambda>r. map_of (wr_wakers r) registration_id)) (\<lambda>replaced.
     andthen (updates (\<lambda>r. r\<lparr>wr_wakers := AList.update registration_id waker (wr_wakers r)\<rparr>))
       (\<lambda>_.
     ok (registration_id, replaced))))"

definition registry_unregister :: "u64 \<Rightarrow> ('k waker_registry, 'x, 'k option) prog" where
  "registry_unregister registration_id =
     andthen (reads (\<lambda>r. map_of (wr_wakers r) registration_id)) (\<lambda>removed.
     andthen (updates (\<lambda>r. r\<lparr>wr_wakers := AList.delete registration_id (wr_wakers r)\<rparr>)) (\<lambda>_.
     ok removed))"

definition registry_take_all ::
  "((u64 \<times> 'k) list \<Rightarrow> (u64 \<times> 'k) list) \<Rightarrow> ('k waker_registry, 'x, 'k list) prog"
where
  "registry_take_all order =
     andthen (reads (\<lambda>r. map snd (order (wr_wakers r)))) (\<lambda>wakers.
     andthen (updates (\<lambda>r. r\<lparr>wr_wakers := []\<rparr>)) (\<lambda>_.
     ok wakers))"

section \<open>The shared state\<close>

record 'k cancellation_state =
  cs_cancelled :: bool
  cs_waiters :: "'k waker_registry"

definition cancellation_state_default :: "'k cancellation_state" where
  "cancellation_state_default = \<lparr>cs_cancelled = False, cs_waiters = registry_default\<rparr>"

text \<open>A registry operation under the registry's lock.\<close>

definition cs_locked ::
  "('k waker_registry, 'x, 'a) prog \<Rightarrow> ('k cancellation_state, 'x, 'a) prog"
where
  "cs_locked m = (\<lambda>st. case m (cs_waiters st) of
       None \<Rightarrow> None
     | Some (r, waiters) \<Rightarrow> Some (r, st\<lparr>cs_waiters := waiters\<rparr>))"

definition cs_register ::
  "u64 option \<Rightarrow> 'k
     \<Rightarrow> ('k cancellation_state, 'x, u64 \<times> 'k option \<times> 'k option \<times> bool) prog"
where
  "cs_register registration_id waker =
     andthen (cs_locked (registry_register registration_id waker)) (\<lambda>(registration_id, replaced).
     andthen (reads cs_cancelled) (\<lambda>cancelled.
     andthen (if cancelled then cs_locked (registry_unregister registration_id) else ok None)
       (\<lambda>removed.
     ok (registration_id, replaced, removed, cancelled))))"

definition cs_unregister :: "u64 \<Rightarrow> ('k cancellation_state, 'x, 'k option) prog" where
  "cs_unregister registration_id = cs_locked (registry_unregister registration_id)"

text \<open>
  \<open>cancel\<close>: waking runs foreign code, a step of the world that may unwind; then the
  wakers behind it are dropped and the payload leaves the method.
\<close>

fun wake_all ::
  "('k \<Rightarrow> 'w \<Rightarrow> panic_payload option \<times> 'w) \<Rightarrow> 'k list \<Rightarrow> 'w \<Rightarrow> (panic_payload + unit) \<times> 'w"
where
  "wake_all wake [] w = (Inr (), w)"
| "wake_all wake (waker # wakers) w =
     (case wake waker w of
        (Some payload, w') \<Rightarrow> (Inl payload, w')
      | (None, w') \<Rightarrow> wake_all wake wakers w')"

definition cs_cancel ::
  "((u64 \<times> 'k) list \<Rightarrow> (u64 \<times> 'k) list) \<Rightarrow> ('k \<Rightarrow> 'w \<Rightarrow> panic_payload option \<times> 'w)
     \<Rightarrow> ('k cancellation_state \<times> 'w, panic_payload, unit) prog"
where
  "cs_cancel order wake = (\<lambda>(st, w).
     if cs_cancelled st then Some (Inr (), st, w)
     else
       (case cs_locked (registry_take_all order) (st\<lparr>cs_cancelled := True\<rparr>) of
          None \<Rightarrow> None
        | Some (Inl e, st') \<Rightarrow> Some (Inl e, st', w)
        | Some (Inr wakers, st') \<Rightarrow>
            (case wake_all wake wakers w of (r, w') \<Rightarrow> Some (r, st', w'))))"

section \<open>The cancellation future\<close>

record cancelled_future =
  cf_registration_id :: "u64 option"

definition cancelled_new :: cancelled_future where
  "cancelled_new = \<lparr>cf_registration_id = None\<rparr>"

text \<open>One poll; \<open>True\<close> is \<open>Ready\<close>.\<close>

definition cancelled_poll ::
  "'k \<Rightarrow> ('k cancellation_state \<times> cancelled_future, 'x, bool) prog"
where
  "cancelled_poll waker = (\<lambda>(st, future).
     if cs_cancelled st then Some (Inr True, st, future)
     else
       (case cs_register (cf_registration_id future) waker st of
          None \<Rightarrow> None
        | Some (Inl e, st') \<Rightarrow> Some (Inl e, st', future)
        | Some (Inr (registration_id, replaced, removed, cancelled), st') \<Rightarrow>
            if cancelled then Some (Inr True, st', future\<lparr>cf_registration_id := None\<rparr>)
            else Some (Inr False, st', future\<lparr>cf_registration_id := Some registration_id\<rparr>)))"

definition cancelled_drop ::
  "('k cancellation_state \<times> cancelled_future, 'x, unit) prog"
where
  "cancelled_drop = (\<lambda>(st, future).
     case cf_registration_id future of
       None \<Rightarrow> Some (Inr (), st, future)
     | Some registration_id \<Rightarrow>
         (case cs_unregister registration_id st of
            None \<Rightarrow> None
          | Some (Inl e, st') \<Rightarrow> Some (Inl e, st', future)
          | Some (Inr removed, st') \<Rightarrow>
              Some (Inr (), st', future\<lparr>cf_registration_id := None\<rparr>)))"

section \<open>Tokens\<close>

text \<open>
  A token is a reference to a shared state; cloning it copies the reference.  The store is
  the list of all states made so far, a reference its position.
\<close>

type_synonym 'k token_store = "'k cancellation_state list"

record retry_cancellation_token =
  tok_state :: nat

definition cancellation_token_new :: "'k token_store \<Rightarrow> retry_cancellation_token \<times> 'k token_store" where
  "cancellation_token_new store =
     (\<lparr>tok_state = length store\<rparr>, store @ [cancellation_state_default])"

definition cancellation_token_clone :: "retry_cancellation_token \<Rightarrow> retry_cancellation_token" where
  "cancellation_token_clone tok = \<lparr>tok_state = tok_state tok\<rparr>"

definition shares_source_with ::
  "retry_cancellation_token \<Rightarrow> retry_cancellation_token \<Rightarrow> bool"
where
  "shares_source_with tok other \<longleftrightarrow> tok_state tok = tok_state other"

definition cancellation_token_is_cancelled ::
  "retry_cancellation_token \<Rightarrow> 'k token_store \<Rightarrow> bool"
where
  "cancellation_token_is_cancelled tok store = cs_cancelled (store ! tok_state tok)"

definition cancellation_token_cancel ::
  "((u64 \<times> 'k) list \<Rightarrow> (u64 \<times> 'k) list) \<Rightarrow> ('k \<Rightarrow> 'w \<Rightarrow> panic_payload option \<times> 'w)
     \<Rightarrow> retry_cancellation_token \<Rightarrow> ('k token_store \<times> 'w, panic_payload, unit) prog"
where
  "cancellation_token_cancel order wake tok = (\<lambda>(store, w).
     case cs_cancel order wake (store ! tok_state tok, w) of
       None \<Rightarrow> None
     | Some (r, st, w') \<Rightarrow> Some (r, store[tok_state tok := st], w'))"

definition token_valid :: "retry_cancellation_token \<Rightarrow> 'k token_store \<Rightarrow> bool" where
  "token_valid tok store \<longleftrightarrow> tok_state tok < length store"

section \<open>Lemmas\<close>

lemma wp_cs_locked [wp_rules, simp]:
  "wp (cs_locked m) Q E = (\<lambda>st. wp m (\<lambda>a r. Q a (st\<lparr>cs_waiters := r\<rparr>))
     (\<lambda>e r. E e (st\<lparr>cs_waiters := r\<rparr>)) (cs_waiters st))"
  by (auto simp: wp_def cs_locked_def fun_eq_iff split: option.split sum.split)

lemma fresh_id_wp:
  assumes "map_of (wr_wakers (r :: 'k waker_registry)) free = None"
  shows "wp registry_fresh_id
    (\<lambda>i r'. map_of (wr_wakers r) i = None \<and> wr_next_id r' = i + 1 \<and> wr_wakers r' = wr_wakers r)
    (\<lambda>_ _. False) r"
proof -
  define W where "W = wr_wakers r"
  define gap where "gap s = (LEAST k. map_of W (wr_next_id s + of_nat k) = None)"
    for s :: "'k waker_registry"
  have ex: "map_of W (n + of_nat (unat (free - n))) = None" for n
    using assms by (simp add: W_def)
  have step: "gap (s\<lparr>wr_next_id := wr_next_id s + 1\<rparr>) < gap s"
    if taken: "map_of W (wr_next_id s) \<noteq> None" for s
  proof -
    have "map_of W (wr_next_id s + of_nat (gap s)) = None"
      unfolding gap_def
      by (rule LeastI [of "\<lambda>k. map_of W (wr_next_id s + of_nat k) = None", OF ex])
    moreover from this obtain k where k: "gap s = Suc k" using taken by (cases "gap s") auto
    ultimately have "map_of W (wr_next_id s + 1 + of_nat k) = None" by (simp add: algebra_simps)
    then have "gap (s\<lparr>wr_next_id := wr_next_id s + 1\<rparr>) \<le> k" by (simp add: gap_def Least_le)
    with k show ?thesis by simp
  qed
  show ?thesis
    unfolding registry_fresh_id_def
    by (rule wp_loops [where I = "\<lambda>s. wr_wakers s = W" and m = gap])
      (use step in \<open>auto simp: W_def\<close>)
qed

text \<open>Whatever it returns, and whether or not the registry is full, is an unused identifier.\<close>

lemma fresh_id_unused:
  assumes "registry_fresh_id r = Some (res, r')"
  shows "\<exists>i. res = Inr i \<and> map_of (wr_wakers r) i = None \<and> wr_wakers r' = wr_wakers r"
proof -
  have "(case res of Inl e \<Rightarrow> False | Inr i \<Rightarrow>
      map_of (wr_wakers r) i = None \<and> wr_wakers r' = wr_wakers r)"
    by (rule loops_induct [OF assms [unfolded registry_fresh_id_def],
          where I = "\<lambda>s. wr_wakers s = wr_wakers r"
            and P = "\<lambda>res s. case res of Inl e \<Rightarrow> False
              | Inr i \<Rightarrow> map_of (wr_wakers r) i = None \<and> wr_wakers s = wr_wakers r"])
      (auto simp: prog_defs split: if_splits)
  then show ?thesis by (auto split: sum.splits)
qed

lemma cs_register_effect:
  assumes "cs_register registration_id waker st = Some (Inr (i, replaced, removed, cancelled), st')"
  shows "cancelled = cs_cancelled st" and "cs_cancelled st' = cs_cancelled st"
    and "registration_id = Some j \<Longrightarrow> i = j"
    and "registration_id = None \<Longrightarrow> map_of (wr_wakers (cs_waiters st)) i = None"
    and "wr_wakers (cs_waiters st') =
      (if cancelled then AList.delete i (AList.update i waker (wr_wakers (cs_waiters st)))
       else AList.update i waker (wr_wakers (cs_waiters st)))"
  using assms
  by (auto simp: cs_register_def cs_locked_def registry_register_def registry_unregister_def
      prog_defs split: option.splits sum.splits if_splits prod.splits dest!: fresh_id_unused)

lemma cancelled_drop_effect:
  assumes "cancelled_drop (st, future) = Some (r, st', future')"
  shows "cs_cancelled st' = cs_cancelled st" and "cf_registration_id future' = None"
    and "wr_wakers (cs_waiters st') =
      (case cf_registration_id future of None \<Rightarrow> wr_wakers (cs_waiters st)
       | Some i \<Rightarrow> AList.delete i (wr_wakers (cs_waiters st)))"
  using assms
  by (auto simp: cancelled_drop_def cs_unregister_def cs_locked_def registry_unregister_def prog_defs
      split: option.splits sum.splits)

lemma wp_registry_register_fresh:
  assumes "map_of (wr_wakers (r :: 'k waker_registry)) free = None"
  shows "wp (registry_register None waker)
    (\<lambda>(i, replaced) r'. replaced = None \<and> map_of (wr_wakers r) i = None \<and>
       map_of (wr_wakers r') = (map_of (wr_wakers r))(i \<mapsto> waker)) (\<lambda>_ _. False) r"
  unfolding registry_register_def
  by (simp, rule wp_only [OF fresh_id_wp [OF assms]]) (auto simp: AList.update_conv')

lemma free_id_exists:
  assumes "length (wr_wakers (r :: 'k waker_registry)) < 2 ^ 64"
  shows "\<exists>free. map_of (wr_wakers r) free = None"
proof -
  have "card (dom (map_of (wr_wakers r))) \<le> length (wr_wakers r)"
    by (metis card_length dom_map_of_conv_image_fst length_map list.set_map)
  also have "\<dots> < card (UNIV :: u64 set)" using assms by (simp add: card_word)
  finally have "dom (map_of (wr_wakers r)) \<noteq> UNIV" by auto
  then show ?thesis by auto
qed

lemma registry_room:
  assumes "length (wr_wakers (r :: 'k waker_registry)) < 2 ^ 64"
  shows "wp (registry_register None waker)
    (\<lambda>(i, replaced) r'. replaced = None \<and> map_of (wr_wakers r) i = None \<and>
       map_of (wr_wakers r') = (map_of (wr_wakers r))(i \<mapsto> waker)) (\<lambda>_ _. False) r"
proof -
  obtain free where "map_of (wr_wakers r) free = None" using free_id_exists [OF assms] by blast
  then show ?thesis by (rule wp_registry_register_fresh)
qed

section \<open>Properties\<close>

text \<open>
  C28. Registering a future terminates as long as fewer than \<open>2 ^ 64\<close> futures wait: the
  search wraps around the identifiers at most once, takes one that no waiting future
  holds, and replaces nobody's waker.
\<close>

theorem registration_terminates:
  assumes "length (wr_wakers (r :: 'k waker_registry)) < 2 ^ 64"
  shows "wp (registry_register None waker)
    (\<lambda>(i, replaced) r'. replaced = None \<and> map_of (wr_wakers r) i = None \<and>
       map_of (wr_wakers r') = (map_of (wr_wakers r))(i \<mapsto> waker)) (\<lambda>_ _. False) r"
  by (rule registry_room [OF assms])

lemma registration_terminates_witness:
  "wp (registry_register None (7 :: nat))
    (\<lambda>(i, replaced) r'. replaced = None \<and> map_of [(- 1, 5 :: nat), (0, 6)] i = None \<and>
       map_of (wr_wakers r') = (map_of [(- 1, 5), (0, 6)])(i \<mapsto> 7)) (\<lambda>_ _. False)
    \<lparr>wr_next_id = - 1, wr_wakers = [(- 1, 5), (0, 6)]\<rparr>"
  by (rule wp_only [OF registration_terminates]) simp_all

text \<open>
  C26. Cancellation is permanent and drains once: after the first request the flag is set
  and the registry empty, a second request changes nothing and wakes nobody, and every
  later poll of any future is ready without touching the registry.
\<close>

theorem cancellation_permanent:
  assumes "cs_cancel order wake (st, w) = Some (r, st', w')"
  shows "cs_cancelled st' \<and>
    (\<not> cs_cancelled st \<longrightarrow> wr_wakers (cs_waiters st') = []) \<and>
    cs_cancel order wake (st', w') = Some (Inr (), st', w') \<and>
    cancelled_poll k (st', future) = Some (Inr True, st', future)"
  using assms
  by (auto simp: cs_cancel_def cancelled_poll_def cs_locked_def registry_take_all_def prog_defs
      split: if_splits prod.splits)

lemma cancellation_permanent_witness:
  "\<exists>st'. cs_cancel id (\<lambda>k w. (None, k + w)) (\<lparr>cs_cancelled = False,
        cs_waiters = \<lparr>wr_next_id = 2, wr_wakers = [(0, 5), (1, 6)]\<rparr>\<rparr>, 0 :: nat)
      = Some (Inr (), st', 11) \<and>
    wr_wakers (cs_waiters st') = [] \<and>
    cancelled_poll 9 (st', cancelled_new) = Some (Inr True :: unit + _, st', cancelled_new)"
proof -
  let ?st = "\<lparr>cs_cancelled = False, cs_waiters = \<lparr>wr_next_id = 2, wr_wakers = [(0, 5), (1, 6)]\<rparr>\<rparr>"
  have run: "cs_cancel id (\<lambda>k w. (None, k + w)) (?st, 0 :: nat) =
      Some (Inr (), \<lparr>cs_cancelled = True, cs_waiters = \<lparr>wr_next_id = 2, wr_wakers = []\<rparr>\<rparr>, 11)"
    by (simp add: cs_cancel_def cs_locked_def registry_take_all_def prog_defs)
  from cancellation_permanent [OF this, of 9 cancelled_new] run show ?thesis by auto
qed

text \<open>
  C27. A future keeps at most one entry and takes it away with it: polled twice before the
  cancellation it holds one identifier, first with the first waker and then with the second,
  and dropping it restores the registry it started from.
\<close>

theorem future_lifecycle:
  fixes st :: "'k cancellation_state"
  assumes "\<not> cs_cancelled st" and "length (wr_wakers (cs_waiters st)) < 2 ^ 64"
  shows "wp (cancelled_poll k1 :: ('k cancellation_state \<times> cancelled_future, 'x, bool) prog) (\<lambda>ready1 (st1, future1). \<not> ready1 \<and>
      (\<exists>i. cf_registration_id future1 = Some i \<and>
         map_of (wr_wakers (cs_waiters st1)) = (map_of (wr_wakers (cs_waiters st)))(i \<mapsto> k1) \<and>
         wp (cancelled_poll k2) (\<lambda>ready2 (st2, future2). \<not> ready2 \<and>
             cf_registration_id future2 = Some i \<and>
             map_of (wr_wakers (cs_waiters st2)) = (map_of (wr_wakers (cs_waiters st)))(i \<mapsto> k2) \<and>
             wp cancelled_drop (\<lambda>_ (st3, future3). cf_registration_id future3 = None \<and>
                 map_of (wr_wakers (cs_waiters st3)) = map_of (wr_wakers (cs_waiters st)))
               (\<lambda>_ _. False) (st2, future2))
           (\<lambda>_ _. False) (st1, future1)))
    (\<lambda>_ _. False) (st, cancelled_new)"
proof -
  have "wp (registry_register None k1 :: ('k waker_registry, 'x, _) prog) (\<lambda>(i, replaced) r'. replaced = None \<and>
      map_of (wr_wakers (cs_waiters st)) i = None \<and>
      map_of (wr_wakers r') = (map_of (wr_wakers (cs_waiters st)))(i \<mapsto> k1)) (\<lambda>_ _. False)
      (cs_waiters st)"
    by (rule registry_room [OF assms(2)])
  then obtain i r' where reg: "(registry_register None k1 :: ('k waker_registry, 'x, _) prog)
        (cs_waiters st) = Some (Inr (i, None), r')"
      and free: "map_of (wr_wakers (cs_waiters st)) i = None"
      and r': "map_of (wr_wakers r') = (map_of (wr_wakers (cs_waiters st)))(i \<mapsto> k1)"
    by (auto dest!: wp_returns)
  have "(map_of (wr_wakers (cs_waiters st)))(i := None) = map_of (wr_wakers (cs_waiters st))"
    using free by auto
  then show ?thesis
    using assms(1) reg r'
    by (auto simp: wp_def cancelled_poll_def cancelled_drop_def cs_register_def cs_unregister_def
        cs_locked_def cancelled_new_def registry_register_def registry_unregister_def prog_defs
        AList.update_conv' AList.delete_conv')
qed

lemma future_lifecycle_witness:
  "wp (cancelled_poll (8 :: nat) :: (nat cancellation_state \<times> cancelled_future, unit, bool) prog)
     (\<lambda>ready (st1, future1). \<not> ready \<and> cf_registration_id future1 \<noteq> None)
     (\<lambda>_ _. False)
     (\<lparr>cs_cancelled = False, cs_waiters = \<lparr>wr_next_id = 3, wr_wakers = [(3, 5)]\<rparr>\<rparr>, cancelled_new)"
  by (rule wp_only [OF future_lifecycle [where ?k2.0 = 9]]) auto

text \<open>
  C29. Cancelling reaches exactly the tokens that share the source: after a cancel through
  any token (whether or not a waker unwinds), every token cloned from it is cancelled, every
  token of another source is as before, and a token made anew shares no source and is not
  cancelled.
\<close>

theorem cancel_reaches_source:
  assumes "token_valid tok store" and "token_valid other store"
    and "cancellation_token_cancel order wake tok (store, w) = Some (r, store', w')"
  shows "cancellation_token_is_cancelled (cancellation_token_clone tok) store' \<and>
    (shares_source_with tok other \<longrightarrow> cancellation_token_is_cancelled other store') \<and>
    (\<not> shares_source_with tok other \<longrightarrow>
       cancellation_token_is_cancelled other store' = cancellation_token_is_cancelled other store) \<and>
    (case cancellation_token_new store' of (fresh, store'') \<Rightarrow>
       \<not> shares_source_with tok fresh \<and> \<not> cancellation_token_is_cancelled fresh store'' \<and>
       cancellation_token_is_cancelled tok store'')"
proof -
  obtain st where cancel: "cs_cancel order wake (store ! tok_state tok, w) = Some (r, st, w')"
      and store': "store' = store[tok_state tok := st]"
    using assms(3) by (auto simp: cancellation_token_cancel_def split: option.splits)
  have "cs_cancelled st"
    using cancel by (auto simp: cs_cancel_def cs_locked_def registry_take_all_def prog_defs
        split: if_splits prod.splits)
  then show ?thesis
    using assms(1,2)
    by (auto simp: store' token_valid_def cancellation_token_is_cancelled_def shares_source_with_def
        cancellation_token_clone_def cancellation_token_new_def cancellation_state_default_def
        nth_append)
qed

lemma cancel_reaches_source_witness:
  "case cancellation_token_new ([] :: nat token_store) of (a, s1) \<Rightarrow>
   case cancellation_token_new s1 of (b, s2) \<Rightarrow>
   case cancellation_token_cancel id (\<lambda>k w. (None, w + k)) a (s2, 0) of
     Some (r, s3, w) \<Rightarrow> cancellation_token_is_cancelled a s3 \<and> \<not> cancellation_token_is_cancelled b s3
   | None \<Rightarrow> False"
proof -
  define a where "a = \<lparr>tok_state = 0\<rparr>"
  define b where "b = \<lparr>tok_state = 1\<rparr>"
  define s2 :: "nat token_store" where "s2 = [cancellation_state_default, cancellation_state_default]"
  have run: "cancellation_token_cancel id (\<lambda>k w. (None, w + k)) a (s2, 0) =
      Some (Inr (), [cancellation_state_default\<lparr>cs_cancelled := True\<rparr>, cancellation_state_default], 0)"
    by (simp add: a_def s2_def cancellation_token_cancel_def cs_cancel_def cs_locked_def
        registry_take_all_def cancellation_state_default_def registry_default_def prog_defs)
  have "token_valid a s2" "token_valid b s2" "\<not> shares_source_with a b"
      "\<not> cancellation_token_is_cancelled b s2" "cancellation_token_clone a = a"
    by (simp_all add: a_def b_def s2_def token_valid_def shares_source_with_def
        cancellation_token_is_cancelled_def cancellation_state_default_def cancellation_token_clone_def)
  with cancel_reaches_source [OF _ _ run, of b] show ?thesis
    using run by (simp add: cancellation_token_new_def a_def b_def s2_def)
qed

end
