(* ===== verification/Cancellation_Steps.thy ===== *)
theory Cancellation_Steps
  imports Retry_Cancellation
begin

text \<open>
  Futures and cancelling threads running against one shared token, one atomic step at a
  time: the load of the flag, the registration under the lock, the swap of the flag, the
  draining under the lock, each wake.  Any number of futures, any interleaving.

  The theorem is that no wake-up is lost: once a cancelling thread is done, every future
  that last answered \<open>Pending\<close> has had the waker of that poll woken.
\<close>

section \<open>The system\<close>

datatype 'k future_phase =
    FutureIdle                \<comment> \<open>not polled yet\<close>
  | FutureChecked             \<comment> \<open>inside a poll, past the first load of the flag\<close>
  | FuturePending 'k          \<comment> \<open>answered \<open>Pending\<close> to a poll with this waker\<close>
  | FutureReady
  | FutureDropped

record ('f, 'k) cancel_system =
  sys_state :: "'k cancellation_state"
  sys_future :: "'f \<Rightarrow> cancelled_future"
  sys_phase :: "'f \<Rightarrow> 'k future_phase"
  sys_swapped :: bool         \<comment> \<open>a thread has swapped the flag and not drained yet\<close>
  sys_to_wake :: "'k list"    \<comment> \<open>drained wakers it has still to invoke\<close>
  sys_woken :: "'k set"
  sys_unwound :: bool         \<comment> \<open>a waker unwound, dropping those behind it\<close>

definition sys_init :: "('f, 'k) cancel_system" where
  "sys_init = \<lparr>sys_state = cancellation_state_default, sys_future = (\<lambda>f. cancelled_new),
     sys_phase = (\<lambda>f. FutureIdle), sys_swapped = False, sys_to_wake = [], sys_woken = {},
     sys_unwound = False\<rparr>"

definition sys_set_phase ::
  "'f \<Rightarrow> 'k future_phase \<Rightarrow> ('f, 'k) cancel_system \<Rightarrow> ('f, 'k) cancel_system"
where
  "sys_set_phase f phase s = s\<lparr>sys_phase := (sys_phase s)(f := phase)\<rparr>"

inductive cancel_step ::
  "('f, 'k) cancel_system \<Rightarrow> ('f, 'k) cancel_system \<Rightarrow> bool"
where
  poll_ready:
    "sys_phase s f \<notin> {FutureChecked, FutureDropped} \<Longrightarrow> cs_cancelled (sys_state s) \<Longrightarrow>
     cancel_step s (sys_set_phase f FutureReady s)"
| poll_check:
    "sys_phase s f \<notin> {FutureChecked, FutureDropped} \<Longrightarrow> \<not> cs_cancelled (sys_state s) \<Longrightarrow>
     cancel_step s (sys_set_phase f FutureChecked s)"
| poll_register:
    "sys_phase s f = FutureChecked \<Longrightarrow>
     cs_register (cf_registration_id (sys_future s f)) k (sys_state s) =
       Some (Inr (i, replaced, removed, cancelled) :: unit + _, st) \<Longrightarrow>
     cancel_step s (sys_set_phase f (if cancelled then FutureReady else FuturePending k)
       (s\<lparr>sys_state := st,
          sys_future := (sys_future s)(f := \<lparr>cf_registration_id = (if cancelled then None else Some i)\<rparr>)\<rparr>))"
| drop_future:
    "sys_phase s f \<notin> {FutureChecked, FutureDropped} \<Longrightarrow>
     cancelled_drop (sys_state s, sys_future s f) = Some (r :: unit + _, st, future) \<Longrightarrow>
     cancel_step s (sys_set_phase f FutureDropped
       (s\<lparr>sys_state := st, sys_future := (sys_future s)(f := future)\<rparr>))"
| cancel_again:
    "cs_cancelled (sys_state s) \<Longrightarrow> cancel_step s s"
| cancel_swap:
    "\<not> cs_cancelled (sys_state s) \<Longrightarrow>
     cancel_step s (s\<lparr>sys_state := (sys_state s)\<lparr>cs_cancelled := True\<rparr>, sys_swapped := True\<rparr>)"
| cancel_take:
    "sys_swapped s \<Longrightarrow> mset (order (wr_wakers (cs_waiters (sys_state s)))) =
       mset (wr_wakers (cs_waiters (sys_state s))) \<Longrightarrow>
     cs_locked (registry_take_all order) (sys_state s) = Some (Inr wakers :: unit + _, st) \<Longrightarrow>
     cancel_step s (s\<lparr>sys_state := st, sys_swapped := False, sys_to_wake := wakers\<rparr>)"
| cancel_wake:
    "sys_to_wake s = k # ks \<Longrightarrow>
     cancel_step s (s\<lparr>sys_to_wake := ks, sys_woken := insert k (sys_woken s)\<rparr>)"
| cancel_unwind:
    "sys_to_wake s = k # ks \<Longrightarrow>
     cancel_step s (s\<lparr>sys_to_wake := [], sys_woken := insert k (sys_woken s), sys_unwound := True\<rparr>)"

section \<open>The invariant\<close>

abbreviation sys_wakers :: "('f, 'k) cancel_system \<Rightarrow> (u64 \<times> 'k) list" where
  "sys_wakers s \<equiv> wr_wakers (cs_waiters (sys_state s))"

abbreviation sys_registration :: "('f, 'k) cancel_system \<Rightarrow> 'f \<Rightarrow> u64 option" where
  "sys_registration s f \<equiv> cf_registration_id (sys_future s f)"

text \<open>The drain of the registry is over: what is registered later removes itself.\<close>

definition sys_drained :: "('f, 'k) cancel_system \<Rightarrow> bool" where
  "sys_drained s \<longleftrightarrow> cs_cancelled (sys_state s) \<and> \<not> sys_swapped s"

definition sys_inv :: "('f, 'k) cancel_system \<Rightarrow> bool" where
  "sys_inv s \<longleftrightarrow>
     (sys_swapped s \<longrightarrow> cs_cancelled (sys_state s)) \<and>
     (sys_drained s \<longrightarrow> sys_wakers s = []) \<and>
     (sys_to_wake s \<noteq> [] \<longrightarrow> sys_drained s) \<and>
     (\<not> sys_drained s \<longrightarrow> (\<forall>f i. sys_registration s f = Some i \<longrightarrow>
        map_of (sys_wakers s) i \<noteq> None \<and> (\<forall>g. g \<noteq> f \<longrightarrow> sys_registration s g \<noteq> Some i))) \<and>
     (\<forall>f k. sys_phase s f = FuturePending k \<longrightarrow>
        (\<exists>i. sys_registration s f = Some i \<and> map_of (sys_wakers s) i = Some k) \<or>
        k \<in> set (sys_to_wake s) \<or> k \<in> sys_woken s \<or> sys_unwound s)"

lemma sys_inv_init: "sys_inv sys_init"
  by (simp add: sys_inv_def sys_init_def cancelled_new_def sys_drained_def
      cancellation_state_default_def)

lemmas sys_simps = sys_set_phase_def sys_drained_def AList.update_conv' AList.delete_conv'

lemma map_of_mset_value:
  assumes "mset xs = mset ys" and "map_of ys i = Some k"
  shows "k \<in> set (map snd xs)"
proof -
  have "(i, k) \<in> set xs" using assms map_of_SomeD mset_eq_setD by metis
  then show ?thesis by force
qed

text \<open>
  A step of one future: it changes at most the entry \<open>c\<close> of the registry, which no other
  future owns, and what it ends with is in the registry.
\<close>

lemma sys_inv_local:
  assumes inv: "sys_inv s"
    and s': "s' = sys_set_phase f phase (s\<lparr>sys_state := st,
      sys_future := (sys_future s)(f := \<lparr>cf_registration_id = R\<rparr>)\<rparr>)"
    and flag: "cs_cancelled st = cs_cancelled (sys_state s)"
    and empty: "sys_drained s \<Longrightarrow> wr_wakers (cs_waiters st) = []"
    and rest: "\<And>j. c \<noteq> Some j \<Longrightarrow> map_of (wr_wakers (cs_waiters st)) j = map_of (sys_wakers s) j"
    and mine: "\<And>g. g \<noteq> f \<Longrightarrow> \<not> sys_drained s \<Longrightarrow> c \<noteq> None \<Longrightarrow> sys_registration s g \<noteq> c"
    and owned: "R \<noteq> None \<Longrightarrow> \<not> sys_drained s \<Longrightarrow> R = c \<and> map_of (wr_wakers (cs_waiters st)) (the R) \<noteq> None"
    and pending: "\<And>k. phase = FuturePending k \<Longrightarrow>
      R \<noteq> None \<and> map_of (wr_wakers (cs_waiters st)) (the R) = Some k"
  shows "sys_inv s'"
proof -
  have drained: "sys_drained s' = sys_drained s"
    using flag by (simp add: s' sys_simps)
  have reg: "sys_registration s' g = (if g = f then R else sys_registration s g)" for g
    by (simp add: s' sys_simps)
  have wakers: "sys_wakers s' = wr_wakers (cs_waiters st)"
    by (simp add: s' sys_simps)
  have ids: "map_of (sys_wakers s') j \<noteq> None \<and> (\<forall>h. h \<noteq> g \<longrightarrow> sys_registration s' h \<noteq> Some j)"
    if "\<not> sys_drained s'" and j: "sys_registration s' g = Some j" for g j
  proof (cases "g = f")
    case True
    then show ?thesis using j that(1) owned mine by (auto simp: reg wakers drained)
  next
    case False
    then have old: "sys_registration s g = Some j" using j by (simp add: reg)
    then have "map_of (sys_wakers s) j \<noteq> None" "\<forall>h. h \<noteq> g \<longrightarrow> sys_registration s h \<noteq> Some j"
      using inv that(1) drained by (simp_all add: sys_inv_def)
    moreover have "c \<noteq> Some j" using mine [OF False] old that(1) drained by auto
    ultimately show ?thesis using rest [of j] owned that(1) by (auto simp: reg wakers drained)
  qed
  have woken: "(\<exists>j. sys_registration s' g = Some j \<and> map_of (sys_wakers s') j = Some l) \<or>
      l \<in> set (sys_to_wake s') \<or> l \<in> sys_woken s' \<or> sys_unwound s'"
    if l: "sys_phase s' g = FuturePending l" for g l
  proof (cases "g = f")
    case True
    then show ?thesis using l pending [of l] reg [of f] by (auto simp: s' sys_set_phase_def)
  next
    case False
    then have "(\<exists>j. sys_registration s g = Some j \<and> map_of (sys_wakers s) j = Some l) \<or>
        l \<in> set (sys_to_wake s) \<or> l \<in> sys_woken s \<or> sys_unwound s"
      using l inv by (simp add: s' sys_set_phase_def sys_inv_def)
    moreover have "map_of (sys_wakers s') j = Some l"
      if "sys_registration s g = Some j" "map_of (sys_wakers s) j = Some l" for j
    proof -
      have "\<not> sys_drained s" using that(2) inv by (auto simp: sys_inv_def)
      then show ?thesis using that rest [of j] mine [OF False] by (auto simp: wakers)
    qed
    ultimately show ?thesis using reg [of g] False by (auto simp: s' sys_set_phase_def)
  qed
  have "sys_swapped s' \<longrightarrow> cs_cancelled (sys_state s')"
    using inv flag by (simp add: s' sys_set_phase_def sys_inv_def)
  moreover have "sys_drained s' \<longrightarrow> sys_wakers s' = []"
    using empty drained wakers by simp
  moreover have "sys_to_wake s' \<noteq> [] \<longrightarrow> sys_drained s'"
    using inv drained by (simp add: s' sys_set_phase_def sys_inv_def)
  ultimately show ?thesis using ids woken unfolding sys_inv_def by blast
qed

lemma sys_inv_unique:
  assumes "sys_inv s" and "\<not> sys_drained s" and "sys_registration s f = Some i"
  shows "map_of (sys_wakers s) i \<noteq> None" and "g \<noteq> f \<Longrightarrow> sys_registration s g \<noteq> Some i"
  using assms by (simp_all add: sys_inv_def)

lemma sys_inv_phase:
  assumes inv: "sys_inv s" and "\<And>k. phase \<noteq> FuturePending k"
  shows "sys_inv (sys_set_phase f phase s)"
proof -
  have s': "sys_set_phase f phase s = sys_set_phase f phase (s\<lparr>sys_state := sys_state s,
      sys_future := (sys_future s)(f := \<lparr>cf_registration_id = sys_registration s f\<rparr>)\<rparr>)"
    by (cases "sys_future s f") (simp add: fun_upd_idem)
  have empty: "sys_drained s \<Longrightarrow> sys_wakers s = []" using inv by (simp add: sys_inv_def)
  have unique: "map_of (sys_wakers s) (the (sys_registration s f)) \<noteq> None"
      "g \<noteq> f \<Longrightarrow> sys_registration s g \<noteq> sys_registration s f"
    if "\<not> sys_drained s" "sys_registration s f \<noteq> None" for g
    using sys_inv_unique [OF inv that(1)] that(2) by auto
  show ?thesis
    by (rule sys_inv_local [OF inv s', where c = "sys_registration s f"])
      (use assms(2) empty unique in simp_all)
qed

lemma cancel_step_inv:
  assumes "cancel_step s s'" and inv: "sys_inv s"
  shows "sys_inv s'"
  using assms(1)
proof cases
  case (poll_register f k i replaced removed cancelled st)
  note effect = cs_register_effect [OF poll_register(3)]
  have mine: "sys_registration s g \<noteq> Some i" if "g \<noteq> f" "\<not> sys_drained s" for g
    using effect(3,4) sys_inv_unique [OF inv] that by (cases "sys_registration s f") metis+
  have empty: "sys_drained s \<Longrightarrow> wr_wakers (cs_waiters st) = []"
    using inv effect(1,5) by (simp add: sys_inv_def sys_drained_def)
  show ?thesis
    by (rule sys_inv_local [OF inv poll_register(1), where c = "Some i"])
      (use effect(2,5) mine empty in
        \<open>auto simp: AList.update_conv' AList.delete_conv' split: if_splits\<close>)
next
  case (drop_future f r st future)
  note effect = cancelled_drop_effect [OF drop_future(3)]
  have "future = \<lparr>cf_registration_id = None\<rparr>" using effect(2) by (cases future) simp
  then have s': "s' = sys_set_phase f FutureDropped (s\<lparr>sys_state := st,
      sys_future := (sys_future s)(f := \<lparr>cf_registration_id = None\<rparr>)\<rparr>)"
    using drop_future(1) by simp
  have empty: "sys_drained s \<Longrightarrow> wr_wakers (cs_waiters st) = []"
    using inv effect(3) by (simp add: sys_inv_def split: option.splits)
  have mine: "sys_registration s g \<noteq> sys_registration s f"
    if "g \<noteq> f" "\<not> sys_drained s" "sys_registration s f \<noteq> None" for g
    using sys_inv_unique(2) [OF inv] that by auto
  show ?thesis
    by (rule sys_inv_local [OF inv s', where c = "sys_registration s f"])
      (use effect mine empty in \<open>auto simp: AList.delete_conv' split: option.splits\<close>)
next
  case (poll_ready f)
  then show ?thesis using sys_inv_phase [OF inv] by simp
next
  case (poll_check f)
  then show ?thesis using sys_inv_phase [OF inv] by simp
next
  case cancel_again
  then show ?thesis using inv by simp
next
  case cancel_swap
  then have "\<not> sys_drained s'" "\<not> sys_drained s" "sys_swapped s' \<and> cs_cancelled (sys_state s')"
    by (simp_all add: sys_drained_def)
  moreover from this have "sys_to_wake s = []" using inv by (auto simp: sys_inv_def)
  ultimately show ?thesis using inv cancel_swap(1) by (simp add: sys_inv_def)
next
  case (cancel_take order wakers st)
  then have st: "st = (sys_state s)\<lparr>cs_waiters := (cs_waiters (sys_state s))\<lparr>wr_wakers := []\<rparr>\<rparr>"
    "wakers = map snd (order (sys_wakers s))"
    by (simp_all add: cs_locked_def registry_take_all_def prog_defs)
  have "k \<in> set wakers" if "map_of (sys_wakers s) i = Some k" for i k
    using map_of_mset_value [OF cancel_take(3) that] st(2) by simp
  moreover have "sys_to_wake s = []"
    using inv cancel_take(2) by (auto simp: sys_inv_def sys_drained_def)
  ultimately show ?thesis
    using inv cancel_take(1,2) st(1) by (simp add: sys_inv_def sys_drained_def) blast
next
  case (cancel_wake k ks)
  have "sys_drained s" "sys_wakers s = []" using inv cancel_wake(2) by (auto simp: sys_inv_def)
  moreover have "sys_drained s' = sys_drained s" using cancel_wake(1) by (simp add: sys_drained_def)
  ultimately show ?thesis using inv cancel_wake by (simp add: sys_inv_def) blast
next
  case (cancel_unwind k ks)
  have "sys_drained s" "sys_wakers s = []" using inv cancel_unwind(2) by (auto simp: sys_inv_def)
  moreover have "sys_drained s' = sys_drained s" using cancel_unwind(1) by (simp add: sys_drained_def)
  ultimately show ?thesis using inv cancel_unwind by (simp add: sys_inv_def)
qed

lemma cancel_reachable_inv: "cancel_step\<^sup>*\<^sup>* sys_init s \<Longrightarrow> sys_inv s"
  by (induction rule: rtranclp_induct) (auto intro: sys_inv_init cancel_step_inv)

section \<open>Properties\<close>

text \<open>
  C11. No wake-up is lost: in every interleaving, once a cancelling thread has drained the
  registry and invoked what it drained, the registry is empty and every future that last
  answered \<open>Pending\<close> has had the waker of that poll woken (unless a waker unwound, which
  drops those behind it).
\<close>

theorem no_lost_wakeup:
  assumes "cancel_step\<^sup>*\<^sup>* sys_init s" and "cs_cancelled (sys_state s)"
    and "\<not> sys_swapped s" and "sys_to_wake s = []" and "\<not> sys_unwound s"
  shows "sys_wakers s = [] \<and>
    {k. \<exists>f. sys_phase s f = FuturePending k} \<subseteq> sys_woken s"
  using cancel_reachable_inv [OF assms(1)] assms(2-) by (auto simp: sys_inv_def sys_drained_def)

lemma no_lost_wakeup_witness:
  "\<exists>s :: (nat, nat) cancel_system. cancel_step\<^sup>*\<^sup>* sys_init s \<and> sys_phase s 0 = FuturePending 7 \<and>
     sys_wakers s = [] \<and> 7 \<in> sys_woken s"
proof -
  define s1 :: "(nat, nat) cancel_system" where "s1 = sys_set_phase 0 FutureChecked sys_init"
  define st where "st = \<lparr>cs_cancelled = False, cs_waiters = \<lparr>wr_next_id = 1, wr_wakers = [(0, 7 :: nat)]\<rparr>\<rparr>"
  define s2 where "s2 = sys_set_phase 0 (FuturePending 7)
    (s1\<lparr>sys_state := st, sys_future := (sys_future s1)(0 := \<lparr>cf_registration_id = Some 0\<rparr>)\<rparr>)"
  define s3 where "s3 = s2\<lparr>sys_state := (sys_state s2)\<lparr>cs_cancelled := True\<rparr>, sys_swapped := True\<rparr>"
  define s4 where "s4 = s3\<lparr>sys_state := (sys_state s3)\<lparr>cs_waiters := \<lparr>wr_next_id = 1, wr_wakers = []\<rparr>\<rparr>,
    sys_swapped := False, sys_to_wake := [7]\<rparr>"
  define s5 where "s5 = s4\<lparr>sys_to_wake := [], sys_woken := insert 7 (sys_woken s4)\<rparr>"
  note defs = sys_init_def s1_def st_def s2_def s3_def s4_def s5_def sys_set_phase_def
    cancellation_state_default_def registry_default_def cancelled_new_def
  have "cancel_step sys_init s1"
    unfolding s1_def by (rule poll_check) (simp_all add: defs)
  moreover have "cs_register (cf_registration_id (sys_future s1 0)) 7 (sys_state s1) =
      Some (Inr (0, None, None, False) :: unit + _, st)"
    by (simp add: defs cs_register_def cs_locked_def registry_register_def registry_fresh_id_def
        loops.simps prog_defs)
  then have "cancel_step s1 s2"
    using poll_register [of s1 0 7 0 None None False st] by (simp add: s2_def s1_def sys_set_phase_def)
  moreover have "cancel_step s2 s3"
    unfolding s3_def by (rule cancel_swap) (simp add: defs)
  moreover have "cancel_step s3 s4"
    using cancel_take [of s3 id "[7]" "(sys_state s3)\<lparr>cs_waiters := \<lparr>wr_next_id = 1, wr_wakers = []\<rparr>\<rparr>"]
    by (simp add: s4_def) (simp add: defs cs_locked_def registry_take_all_def prog_defs)
  moreover have "cancel_step s4 s5"
    unfolding s5_def by (rule cancel_wake) (simp add: defs)
  ultimately have reach: "cancel_step\<^sup>*\<^sup>* sys_init s5" by (meson converse_rtranclp_into_rtranclp rtranclp.rtrancl_refl)
  have "cs_cancelled (sys_state s5)" "\<not> sys_swapped s5" "sys_to_wake s5 = []" "\<not> sys_unwound s5"
    and phase: "sys_phase s5 0 = FuturePending 7"
    by (simp_all add: defs)
  from no_lost_wakeup [OF reach this(1-4)] phase reach show ?thesis by blast
qed

end
