(* ===== verification/Outcome.thy ===== *)
theory Outcome
  imports Wire
begin

text \<open>
  What callbacks and callers see: the context snapshot (src/src/context) and the terminal
  results (src/src/outcome), with the projections, mappings and decompositions of the
  terminal error.
\<close>

section \<open>Context\<close>

record retry_context_parts =
  part_attempts :: u32
  part_current_attempt :: "nonzero_u32 option"
  part_max_attempts :: u32
  part_operation_time_budget :: "duration option"
  part_total_time_budget :: "duration option"
  part_operation_elapsed :: duration
  part_total_elapsed :: duration
  part_last_attempt_elapsed :: duration
  part_current_hard_attempt_timeout :: "duration option"
  part_next_delay :: "duration option"
  part_retry_after_hint :: "duration option"

record retry_context =
  ctx_attempts :: u32
  ctx_current_attempt :: "nonzero_u32 option"
  ctx_max_attempts :: u32
  ctx_operation_time_budget :: "duration option"
  ctx_total_time_budget :: "duration option"
  ctx_operation_elapsed :: duration
  ctx_total_elapsed :: duration
  ctx_last_attempt_elapsed :: duration
  ctx_current_hard_attempt_timeout :: "duration option"
  ctx_next_delay :: "duration option"
  ctx_retry_after_hint :: "duration option"

definition context_from_parts :: "retry_context_parts \<Rightarrow> retry_context" where
  "context_from_parts parts =
     \<lparr>ctx_attempts = part_attempts parts,
      ctx_current_attempt = part_current_attempt parts,
      ctx_max_attempts = part_max_attempts parts,
      ctx_operation_time_budget = part_operation_time_budget parts,
      ctx_total_time_budget = part_total_time_budget parts,
      ctx_operation_elapsed = part_operation_elapsed parts,
      ctx_total_elapsed = part_total_elapsed parts,
      ctx_last_attempt_elapsed = part_last_attempt_elapsed parts,
      ctx_current_hard_attempt_timeout = part_current_hard_attempt_timeout parts,
      ctx_next_delay = part_next_delay parts,
      ctx_retry_after_hint = part_retry_after_hint parts\<rparr>"

definition context_new :: "u32 \<Rightarrow> u32 \<Rightarrow> retry_context" where
  "context_new attempts max_attempts =
     context_from_parts
       \<lparr>part_attempts = attempts, part_current_attempt = nz_new attempts,
        part_max_attempts = max_attempts, part_operation_time_budget = None,
        part_total_time_budget = None, part_operation_elapsed = 0, part_total_elapsed = 0,
        part_last_attempt_elapsed = 0, part_current_hard_attempt_timeout = None,
        part_next_delay = None, part_retry_after_hint = None\<rparr>"

definition ctx_max_retries :: "retry_context \<Rightarrow> u32" where
  "ctx_max_retries c = u32_saturating_sub (ctx_max_attempts c) 1"

definition with_next_delay :: "duration \<Rightarrow> retry_context \<Rightarrow> retry_context" where
  "with_next_delay delay c = c\<lparr>ctx_next_delay := Some delay\<rparr>"

definition with_retry_after_hint :: "duration option \<Rightarrow> retry_context \<Rightarrow> retry_context" where
  "with_retry_after_hint hint c = c\<lparr>ctx_retry_after_hint := hint\<rparr>"

definition with_hard_attempt_timeout :: "duration option \<Rightarrow> retry_context \<Rightarrow> retry_context" where
  "with_hard_attempt_timeout timeout c = c\<lparr>ctx_current_hard_attempt_timeout := timeout\<rparr>"

lemma context_from_parts_sel [simp]:
  "ctx_attempts (context_from_parts p) = part_attempts p"
  "ctx_current_attempt (context_from_parts p) = part_current_attempt p"
  "ctx_max_attempts (context_from_parts p) = part_max_attempts p"
  "ctx_operation_time_budget (context_from_parts p) = part_operation_time_budget p"
  "ctx_total_time_budget (context_from_parts p) = part_total_time_budget p"
  "ctx_operation_elapsed (context_from_parts p) = part_operation_elapsed p"
  "ctx_total_elapsed (context_from_parts p) = part_total_elapsed p"
  "ctx_last_attempt_elapsed (context_from_parts p) = part_last_attempt_elapsed p"
  "ctx_current_hard_attempt_timeout (context_from_parts p) = part_current_hard_attempt_timeout p"
  "ctx_next_delay (context_from_parts p) = part_next_delay p"
  "ctx_retry_after_hint (context_from_parts p) = part_retry_after_hint p"
  by (simp_all add: context_from_parts_def)

lemma context_overlays_frame [simp]:
  "ctx_attempts (with_next_delay d c) = ctx_attempts c"
  "ctx_attempts (with_retry_after_hint h c) = ctx_attempts c"
  "ctx_attempts (with_hard_attempt_timeout t c) = ctx_attempts c"
  "ctx_max_attempts (with_next_delay d c) = ctx_max_attempts c"
  "ctx_max_attempts (with_retry_after_hint h c) = ctx_max_attempts c"
  "ctx_max_attempts (with_hard_attempt_timeout t c) = ctx_max_attempts c"
  "ctx_current_attempt (with_next_delay d c) = ctx_current_attempt c"
  "ctx_current_attempt (with_retry_after_hint h c) = ctx_current_attempt c"
  "ctx_current_attempt (with_hard_attempt_timeout t c) = ctx_current_attempt c"
  "ctx_operation_elapsed (with_next_delay d c) = ctx_operation_elapsed c"
  "ctx_operation_elapsed (with_retry_after_hint h c) = ctx_operation_elapsed c"
  "ctx_operation_elapsed (with_hard_attempt_timeout t c) = ctx_operation_elapsed c"
  "ctx_total_elapsed (with_next_delay d c) = ctx_total_elapsed c"
  "ctx_total_elapsed (with_retry_after_hint h c) = ctx_total_elapsed c"
  "ctx_total_elapsed (with_hard_attempt_timeout t c) = ctx_total_elapsed c"
  "ctx_last_attempt_elapsed (with_next_delay d c) = ctx_last_attempt_elapsed c"
  "ctx_last_attempt_elapsed (with_retry_after_hint h c) = ctx_last_attempt_elapsed c"
  "ctx_last_attempt_elapsed (with_hard_attempt_timeout t c) = ctx_last_attempt_elapsed c"
  "ctx_next_delay (with_next_delay d c) = Some d"
  "ctx_retry_after_hint (with_next_delay d c) = ctx_retry_after_hint c"
  "ctx_retry_after_hint (with_retry_after_hint h c) = h"
  by (simp_all add: with_next_delay_def with_retry_after_hint_def with_hard_attempt_timeout_def)

section \<open>Terminal reasons\<close>

datatype retry_error_reason =
    ReasonAborted
  | ReasonExhausted retry_limit_kind
  | ReasonTimedOut retry_timeout_scope
  | ReasonCancelled retry_cancellation_phase
  | ReasonCallbackFailed retry_callback_failure
  | ReasonInfrastructure retry_infrastructure_failure

primrec show_error_reason :: "retry_error_reason \<Rightarrow> string" where
  "show_error_reason ReasonAborted = ''aborted''"
| "show_error_reason (ReasonExhausted limit) = ''exhausted ('' @ show_limit_kind limit @ '')''"
| "show_error_reason (ReasonTimedOut scope) = ''timed out ('' @ show_timeout_scope scope @ '')''"
| "show_error_reason (ReasonCancelled phase) =
     ''cancelled ('' @ show_cancellation_phase phase @ '')''"
| "show_error_reason (ReasonCallbackFailed callback) =
     ''callback failed ('' @ show_callback_failure callback @ '')''"
| "show_error_reason (ReasonInfrastructure failure) =
     ''infrastructure failure ('' @ show_infrastructure failure @ '')''"

section \<open>Terminal error\<close>

record 'e retry_error =
  err_reason :: retry_error_reason
  err_last_failure :: "'e attempt_failure option"
  err_context :: retry_context
  err_completion_callback_failures :: "retry_callback_failure list"

definition retry_error_new ::
  "retry_error_reason \<Rightarrow> 'e attempt_failure option \<Rightarrow> retry_context \<Rightarrow> 'e retry_error"
where
  "retry_error_new reason last_failure context =
     \<lparr>err_reason = reason, err_last_failure = last_failure, err_context = context,
      err_completion_callback_failures = []\<rparr>"

lemma retry_error_new_sel [simp]:
  "err_reason (retry_error_new r f c) = r"
  "err_last_failure (retry_error_new r f c) = f"
  "err_context (retry_error_new r f c) = c"
  "err_completion_callback_failures (retry_error_new r f c) = []"
  by (simp_all add: retry_error_new_def)

definition err_last_error :: "'e retry_error \<Rightarrow> 'e option" where
  "err_last_error e = Option.bind (err_last_failure e) failure_as_error"

definition error_map_error :: "('e \<Rightarrow> 'u) \<Rightarrow> 'e retry_error \<Rightarrow> 'u retry_error" where
  "error_map_error f e =
     \<lparr>err_reason = err_reason e,
      err_last_failure = map_option (failure_map_error f) (err_last_failure e),
      err_context = err_context e,
      err_completion_callback_failures = err_completion_callback_failures e\<rparr>"

definition error_into_parts ::
  "'e retry_error \<Rightarrow>
     retry_error_reason \<times> 'e attempt_failure option \<times> retry_context \<times> retry_callback_failure list"
where
  "error_into_parts e =
     (err_reason e, err_last_failure e, err_context e, err_completion_callback_failures e)"

record retry_error_metadata =
  meta_reason :: retry_error_reason
  meta_last_attempt :: "attempt_failure_metadata option"
  meta_context :: retry_context
  meta_completion_callback_failures :: "retry_callback_failure list"

definition error_into_metadata_and_error ::
  "'e retry_error \<Rightarrow> retry_error_metadata \<times> 'e option"
where
  "error_into_metadata_and_error e =
     (let (reason, last_failure, context, failures) = error_into_parts e;
          (last_attempt, application_error) =
            (case last_failure of
               Some (FailError error) \<Rightarrow> (Some MetaApplicationError, Some error)
             | Some (FailTimedOut scope) \<Rightarrow> (Some (MetaTimedOut scope), None)
             | Some (FailPanicked p) \<Rightarrow> (Some (MetaPanicked p), None)
             | None \<Rightarrow> (None, None))
      in (\<lparr>meta_reason = reason, meta_last_attempt = last_attempt, meta_context = context,
           meta_completion_callback_failures = failures\<rparr>, application_error))"

definition error_set_completion_callback_failures ::
  "retry_callback_failure list \<Rightarrow> 'e retry_error \<Rightarrow> 'e retry_error"
where
  "error_set_completion_callback_failures failures e =
     e\<lparr>err_completion_callback_failures := failures\<rparr>"

definition show_retry_error :: "'e retry_error \<Rightarrow> string" where
  "show_retry_error e =
     ''retry '' @ show_error_reason (err_reason e) @ '' after '' @
     show_nat (unat (ctx_attempts (err_context e))) @ '' attempt(s)''"

definition show_error_metadata :: "retry_error_metadata \<Rightarrow> string" where
  "show_error_metadata m =
     ''retry '' @ show_error_reason (meta_reason m) @ '' after '' @
     show_nat (unat (ctx_attempts (meta_context m))) @ '' attempt(s)''"

section \<open>Terminal success\<close>

record 't retry_success =
  suc_value :: 't
  suc_context :: retry_context
  suc_completion_callback_failures :: "retry_callback_failure list"

definition retry_success_new :: "'t \<Rightarrow> retry_context \<Rightarrow> 't retry_success" where
  "retry_success_new v context =
     \<lparr>suc_value = v, suc_context = context, suc_completion_callback_failures = []\<rparr>"

definition success_into_parts ::
  "'t retry_success \<Rightarrow> 't \<times> retry_context \<times> retry_callback_failure list"
where
  "success_into_parts s = (suc_value s, suc_context s, suc_completion_callback_failures s)"

definition into_value_discarding_diagnostics :: "'t retry_success \<Rightarrow> 't" where
  "into_value_discarding_diagnostics s = suc_value s"

definition success_set_completion_callback_failures ::
  "retry_callback_failure list \<Rightarrow> 't retry_success \<Rightarrow> 't retry_success"
where
  "success_set_completion_callback_failures failures s =
     s\<lparr>suc_completion_callback_failures := failures\<rparr>"

type_synonym ('t, 'e) retry_result = "'e retry_error + 't retry_success"

section \<open>Facts\<close>

lemma error_metadata_fields:
  "meta_reason (fst (error_into_metadata_and_error e)) = err_reason e"
  "meta_context (fst (error_into_metadata_and_error e)) = err_context e"
  "meta_completion_callback_failures (fst (error_into_metadata_and_error e)) =
     err_completion_callback_failures e"
  by (simp_all add: error_into_metadata_and_error_def error_into_parts_def Let_def case_prod_beta)

lemma error_metadata_last:
  "meta_last_attempt (fst (error_into_metadata_and_error e)) = None \<longleftrightarrow> err_last_failure e = None"
  "snd (error_into_metadata_and_error e) = err_last_error e"
  by (auto simp: error_into_metadata_and_error_def error_into_parts_def err_last_error_def Let_def
      split: option.split attempt_failure.split)

text \<open>The inverse of the decomposition into metadata and application error.\<close>

fun failure_of_metadata :: "attempt_failure_metadata \<Rightarrow> 'e option \<Rightarrow> 'e attempt_failure option" where
  "failure_of_metadata MetaApplicationError (Some e) = Some (FailError e)"
| "failure_of_metadata MetaApplicationError None = None"
| "failure_of_metadata (MetaTimedOut s) _ = Some (FailTimedOut s)"
| "failure_of_metadata (MetaPanicked p) _ = Some (FailPanicked p)"

definition error_of_metadata :: "retry_error_metadata \<Rightarrow> 'e option \<Rightarrow> 'e retry_error" where
  "error_of_metadata m e =
     \<lparr>err_reason = meta_reason m,
      err_last_failure = Option.bind (meta_last_attempt m) (\<lambda>k. failure_of_metadata k e),
      err_context = meta_context m,
      err_completion_callback_failures = meta_completion_callback_failures m\<rparr>"

section \<open>Properties\<close>

text \<open>
  C40. Splitting a terminal error into metadata and application error loses nothing: the
  error can be put together again from the two, the application error is the one
  \<open>last_error\<close> shows, both display the same text, and mapping the application error
  commutes with the split.
\<close>

theorem error_decomposition_lossless:
  "error_of_metadata (fst (error_into_metadata_and_error e)) (snd (error_into_metadata_and_error e))
     = e \<and>
   snd (error_into_metadata_and_error e) = err_last_error e \<and>
   show_error_metadata (fst (error_into_metadata_and_error e)) = show_retry_error e \<and>
   error_into_metadata_and_error (error_map_error f e) =
     map_prod id (map_option f) (error_into_metadata_and_error e)"
proof (intro conjI)
  show "error_of_metadata (fst (error_into_metadata_and_error e))
      (snd (error_into_metadata_and_error e)) = e"
    by (cases e) (auto simp: error_of_metadata_def error_into_metadata_and_error_def
        error_into_parts_def Let_def split: option.split attempt_failure.split)
  show "show_error_metadata (fst (error_into_metadata_and_error e)) = show_retry_error e"
    by (simp add: show_error_metadata_def show_retry_error_def error_metadata_fields)
  show "error_into_metadata_and_error (error_map_error f e) =
      map_prod id (map_option f) (error_into_metadata_and_error e)"
    by (auto simp: error_map_error_def error_into_metadata_and_error_def error_into_parts_def
        Let_def split: option.split attempt_failure.split)
qed (simp add: error_metadata_last)

text \<open>
  Mapping the application error is a functor that touches nothing else: mapping the
  identity changes nothing, mapping twice is mapping the composition, and the reason, the
  context, the callback diagnostics and the display text are those of the original.
\<close>

theorem error_map_error_functor:
  "error_map_error id e = e \<and>
   error_map_error g (error_map_error f e) = error_map_error (g \<circ> f) e \<and>
   err_reason (error_map_error f e) = err_reason e \<and>
   err_context (error_map_error f e) = err_context e \<and>
   err_completion_callback_failures (error_map_error f e) = err_completion_callback_failures e \<and>
   err_last_error (error_map_error f e) = map_option f (err_last_error e) \<and>
   show_retry_error (error_map_error f e) = show_retry_error e"
proof -
  have "map_option (failure_map_error id) (err_last_failure e) = err_last_failure e"
    by (cases "err_last_failure e") simp_all
  then show ?thesis
    by (cases "err_last_failure e")
      (simp_all add: error_map_error_def failure_map_error_comp err_last_error_def
        show_retry_error_def)
qed

end
