(* ===== verification/Callbacks.thy ===== *)
theory Callbacks
  imports Outcome
begin

text \<open>
  Retry rules and observers (src/src/rule, src/src/observer): user callbacks that run with
  a context snapshot, may step the world and may panic; and the two collections that call
  them in registration order, isolate their panics and report the first of them (control
  callbacks) or all of them (completion callbacks).
\<close>

section \<open>Rules\<close>

datatype retry_decision =
    UseDefault
  | DecisionRetry
  | RetryWithHint duration
  | RetryWithJitteredHint duration
  | DecisionAbort

primrec decision_retry_after_hint :: "retry_decision \<Rightarrow> duration option" where
  "decision_retry_after_hint UseDefault = None"
| "decision_retry_after_hint DecisionRetry = None"
| "decision_retry_after_hint (RetryWithHint hint) = Some hint"
| "decision_retry_after_hint (RetryWithJitteredHint hint) = Some hint"
| "decision_retry_after_hint DecisionAbort = None"

datatype retry_fallback = FallbackAbort | FallbackRetry

text \<open>A rule decides, or unwinds with a panic payload; either way it may step the world.\<close>

type_synonym ('e, 'w) retry_rule =
  "'e attempt_failure \<Rightarrow> retry_context \<Rightarrow> 'w \<Rightarrow> (panic_payload + retry_decision) \<times> 'w"

fun try_decide_from ::
  "nat \<Rightarrow> ('e, 'w) retry_rule list \<Rightarrow> 'e attempt_failure \<Rightarrow> retry_context \<Rightarrow> 'w
     \<Rightarrow> (retry_callback_failure + retry_decision) \<times> 'w"
where
  "try_decide_from index [] failure context w = (Inr UseDefault, w)"
| "try_decide_from index (rule # rules) failure context w =
     (case rule failure context w of
        (Inl payload, w') \<Rightarrow>
          (Inl (callback_failure_new KindRule index CbRuleDecision
                  (retry_panic_from_payload payload)), w')
      | (Inr decision, w') \<Rightarrow>
          if decision \<noteq> UseDefault then (Inr decision, w')
          else try_decide_from (Suc index) rules failure context w')"

definition try_decide ::
  "('e, 'w) retry_rule list \<Rightarrow> 'e attempt_failure \<Rightarrow> retry_context \<Rightarrow> 'w
     \<Rightarrow> (retry_callback_failure + retry_decision) \<times> 'w"
where
  "try_decide rules failure context w = try_decide_from 0 rules failure context w"

section \<open>Observers\<close>

text \<open>A callback returns the payload it panicked with, if it did.\<close>

type_synonym 'w callback = "'w \<Rightarrow> panic_payload option \<times> 'w"

record ('e, 'w) retry_observer =
  on_success :: "retry_context \<Rightarrow> 'w callback"
  on_terminal_failure :: "retry_error_reason \<Rightarrow> retry_context \<Rightarrow> 'w callback"
  on_before_attempt :: "retry_context \<Rightarrow> 'w callback"
  on_attempt_failed :: "'e attempt_failure \<Rightarrow> retry_context \<Rightarrow> 'w callback"
  on_retry_scheduled :: "backoff_step \<Rightarrow> retry_context \<Rightarrow> 'w callback"

text \<open>The default methods of the trait do nothing; a closure observes failed attempts.\<close>

definition observer_default :: "('e, 'w) retry_observer" where
  "observer_default =
     \<lparr>on_success = (\<lambda>c w. (None, w)), on_terminal_failure = (\<lambda>r c w. (None, w)),
      on_before_attempt = (\<lambda>c w. (None, w)), on_attempt_failed = (\<lambda>f c w. (None, w)),
      on_retry_scheduled = (\<lambda>b c w. (None, w))\<rparr>"

definition closure_observer ::
  "('e attempt_failure \<Rightarrow> retry_context \<Rightarrow> 'w callback) \<Rightarrow> ('e, 'w) retry_observer"
where
  "closure_observer f = observer_default\<lparr>on_attempt_failed := f\<rparr>"

fun notify_each_from ::
  "nat \<Rightarrow> retry_callback_phase \<Rightarrow> ('o \<Rightarrow> 'w callback) \<Rightarrow> 'o list \<Rightarrow> 'w
     \<Rightarrow> retry_callback_failure list \<times> 'w"
where
  "notify_each_from index phase callback [] w = ([], w)"
| "notify_each_from index phase callback (observer # observers) w =
     (case callback observer w of
        (r, w') \<Rightarrow>
          (case notify_each_from (Suc index) phase callback observers w' of
             (failures, w'') \<Rightarrow>
               ((case r of
                   None \<Rightarrow> failures
                 | Some payload \<Rightarrow>
                     callback_failure_new KindObserver index phase
                       (retry_panic_from_payload payload) # failures), w'')))"

definition notify_each ::
  "retry_callback_phase \<Rightarrow> ('o \<Rightarrow> 'w callback) \<Rightarrow> 'o list \<Rightarrow> 'w
     \<Rightarrow> retry_callback_failure list \<times> 'w"
where
  "notify_each phase callback observers w = notify_each_from 0 phase callback observers w"

fun try_each_from ::
  "nat \<Rightarrow> retry_callback_phase \<Rightarrow> ('o \<Rightarrow> 'w callback) \<Rightarrow> 'o list \<Rightarrow> 'w
     \<Rightarrow> (retry_callback_failure + unit) \<times> 'w"
where
  "try_each_from index phase callback [] w = (Inr (), w)"
| "try_each_from index phase callback (observer # observers) w =
     (case callback observer w of
        (Some payload, w') \<Rightarrow>
          (Inl (callback_failure_new KindObserver index phase
                  (retry_panic_from_payload payload)), w')
      | (None, w') \<Rightarrow> try_each_from (Suc index) phase callback observers w')"

definition try_each ::
  "retry_callback_phase \<Rightarrow> ('o \<Rightarrow> 'w callback) \<Rightarrow> 'o list \<Rightarrow> 'w
     \<Rightarrow> (retry_callback_failure + unit) \<times> 'w"
where
  "try_each phase callback observers w = try_each_from 0 phase callback observers w"

definition try_before_attempt ::
  "('e, 'w) retry_observer list \<Rightarrow> retry_context \<Rightarrow> 'w \<Rightarrow> (retry_callback_failure + unit) \<times> 'w"
where
  "try_before_attempt observers context =
     try_each CbBeforeAttempt (\<lambda>observer. on_before_attempt observer context) observers"

definition try_attempt_failed ::
  "('e, 'w) retry_observer list \<Rightarrow> 'e attempt_failure \<Rightarrow> retry_context \<Rightarrow> 'w
     \<Rightarrow> (retry_callback_failure + unit) \<times> 'w"
where
  "try_attempt_failed observers failure context =
     try_each CbAttemptFailed (\<lambda>observer. on_attempt_failed observer failure context) observers"

definition try_retry_scheduled ::
  "('e, 'w) retry_observer list \<Rightarrow> backoff_step \<Rightarrow> retry_context \<Rightarrow> 'w
     \<Rightarrow> (retry_callback_failure + unit) \<times> 'w"
where
  "try_retry_scheduled observers backoff context =
     try_each CbRetryScheduled (\<lambda>observer. on_retry_scheduled observer backoff context) observers"

definition notify_success ::
  "('e, 'w) retry_observer list \<Rightarrow> retry_context \<Rightarrow> 'w \<Rightarrow> retry_callback_failure list \<times> 'w"
where
  "notify_success observers context =
     notify_each CbSuccess (\<lambda>observer. on_success observer context) observers"

definition notify_terminal_failure ::
  "('e, 'w) retry_observer list \<Rightarrow> retry_error_reason \<Rightarrow> retry_context \<Rightarrow> 'w
     \<Rightarrow> retry_callback_failure list \<times> 'w"
where
  "notify_terminal_failure observers reason context =
     notify_each CbTerminalFailure (\<lambda>observer. on_terminal_failure observer reason context)
       observers"

section \<open>Reference traces\<close>

text \<open>
  The calls made when every callback runs: each with what it returned, in order, and the
  world after the last one.
\<close>

fun callback_trace ::
  "('o \<Rightarrow> 'w \<Rightarrow> 'r \<times> 'w) \<Rightarrow> 'o list \<Rightarrow> 'w \<Rightarrow> 'r list \<times> 'w"
where
  "callback_trace call [] w = ([], w)"
| "callback_trace call (x # xs) w =
     (let (r, w') = call x w; (rs, w'') = callback_trace call xs w' in (r # rs, w''))"

lemma callback_trace_append:
  "callback_trace call (xs @ ys) w =
     (let (rs, w') = callback_trace call xs w; (rs', w'') = callback_trace call ys w'
      in (rs @ rs', w''))"
  by (induction xs arbitrary: w) (simp_all add: Let_def case_prod_beta)

lemma callback_trace_length [simp]: "length (fst (callback_trace call xs w)) = length xs"
  by (induction xs arbitrary: w) (simp_all add: Let_def case_prod_beta)

definition failures_of_trace ::
  "nat \<Rightarrow> retry_callback_phase \<Rightarrow> panic_payload option list \<Rightarrow> retry_callback_failure list"
where
  "failures_of_trace index phase rs =
     concat (map (\<lambda>(i, r). case r of None \<Rightarrow> []
                  | Some payload \<Rightarrow> [callback_failure_new KindObserver i phase
                      (retry_panic_from_payload payload)]) (enumerate index rs))"

lemma notify_each_from_trace:
  "notify_each_from i phase call xs w =
     (failures_of_trace i phase (fst (callback_trace call xs w)), snd (callback_trace call xs w))"
  by (induction xs arbitrary: i w)
    (simp_all add: failures_of_trace_def Let_def case_prod_beta split: option.split)

lemma try_each_from_prefix:
  "set (fst (callback_trace call pre w)) \<subseteq> {None} \<Longrightarrow>
   try_each_from i phase call (pre @ later) w =
     try_each_from (i + length pre) phase call later (snd (callback_trace call pre w))"
  by (induction pre arbitrary: i w) (auto simp: Let_def split: prod.splits option.split)

lemma try_decide_from_prefix:
  "set (fst (callback_trace (\<lambda>rule. rule f c) pre w)) \<subseteq> {Inr UseDefault} \<Longrightarrow>
   try_decide_from i (pre @ later) f c w =
     try_decide_from (i + length pre) later f c
       (snd (callback_trace (\<lambda>rule. rule f c) pre w))"
  by (induction pre arbitrary: i w) (auto simp: Let_def split: prod.splits sum.split)

section \<open>Properties\<close>

text \<open>
  C37. Rules are asked in registration order until one decides: while the rules before it
  defer, the first rule that decides settles the outcome, the first rule that panics ends
  the chain with a failure naming its own position, and in both cases no later rule is
  called (the outcome and the world do not depend on \<open>later\<close>).  If all rules defer, so does
  the chain.
\<close>

theorem rule_chain_first_decision:
  assumes "set (fst (callback_trace (\<lambda>rule. rule f c) pre w)) \<subseteq> {Inr UseDefault}"
  shows "try_decide pre f c w = (Inr UseDefault, snd (callback_trace (\<lambda>rule. rule f c) pre w)) \<and>
    (case r f c (snd (callback_trace (\<lambda>rule. rule f c) pre w)) of
       (Inr d, w') \<Rightarrow> d \<noteq> UseDefault \<longrightarrow> try_decide (pre @ r # later) f c w = (Inr d, w')
     | (Inl payload, w') \<Rightarrow> try_decide (pre @ r # later) f c w =
         (Inl (callback_failure_new KindRule (length pre) CbRuleDecision
            (retry_panic_from_payload payload)), w'))"
  using try_decide_from_prefix [OF assms, of 0 "[]"] try_decide_from_prefix [OF assms, of 0 "r # later"]
  by (auto simp: try_decide_def split: prod.split sum.split)

lemma rule_chain_first_decision_witness:
  "try_decide [\<lambda>f c w. (Inr UseDefault, w + 1), \<lambda>f c w. (Inl (PayloadString ''boom''), w + 1),
      \<lambda>f c w. (Inr DecisionRetry, w + 100)] (FailError (5 :: nat)) (context_new 1 3) (0 :: nat) =
   (Inl (callback_failure_new KindRule 1 CbRuleDecision (PanicString ''boom'')), 2)"
  using rule_chain_first_decision
    [of "FailError (5 :: nat)" "context_new 1 3" "[\<lambda>f c w. (Inr UseDefault, w + 1)]" "0 :: nat"
      "\<lambda>f c w. (Inl (PayloadString ''boom''), w + 1)" "[\<lambda>f c w. (Inr DecisionRetry, w + 100)]"]
  by (simp add: Let_def numeral_2_eq_2)

text \<open>
  C38. Completion callbacks are isolated from each other: every observer is called exactly
  once, in order, whatever the others do, and the failures reported are exactly those of
  the observers that panicked, each with its own position, in order.
\<close>

theorem completion_callbacks_isolated:
  "notify_success observers c w =
     (let call = (\<lambda>observer. on_success observer c); (rs, w') = callback_trace call observers w
      in (failures_of_trace 0 CbSuccess rs, w')) \<and>
   notify_terminal_failure observers reason c w =
     (let call = (\<lambda>observer. on_terminal_failure observer reason c);
          (rs, w') = callback_trace call observers w
      in (failures_of_trace 0 CbTerminalFailure rs, w'))"
  by (simp add: notify_success_def notify_terminal_failure_def notify_each_def
      notify_each_from_trace Let_def case_prod_beta)



end
