(* ===== verification/Budget.thy ===== *)
theory Budget
  imports Outcome
begin

text \<open>
  Continuation accounting (src/src/budget): admitted attempts, cumulative operation time
  and total flow time, sampled on one monotonic clock.  First the internal state
  \<open>RetryBudgetState\<close>, then the public \<open>RetryBudget\<close> that guards it with attempt tokens.

  The abstract specification is a ledger: the closed time intervals of the finished
  attempts, the start of an open one, and the last sample.  Every operation of the state
  simulates the ledger's.
\<close>

section \<open>State\<close>

record budget_snapshot =
  snap_attempts :: u32
  snap_operation_elapsed :: duration
  snap_total_elapsed :: duration
  snap_attempt_elapsed :: duration

definition budget_snapshot_new ::
  "u32 \<Rightarrow> duration \<Rightarrow> duration \<Rightarrow> duration \<Rightarrow> budget_snapshot"
where
  "budget_snapshot_new attempts operation_elapsed total_elapsed attempt_elapsed =
     \<lparr>snap_attempts = attempts, snap_operation_elapsed = operation_elapsed,
      snap_total_elapsed = total_elapsed, snap_attempt_elapsed = attempt_elapsed\<rparr>"

lemma budget_snapshot_new_sel [simp]:
  "snap_attempts (budget_snapshot_new a oe te ae) = a"
  "snap_operation_elapsed (budget_snapshot_new a oe te ae) = oe"
  "snap_total_elapsed (budget_snapshot_new a oe te ae) = te"
  "snap_attempt_elapsed (budget_snapshot_new a oe te ae) = ae"
  by (simp_all add: budget_snapshot_new_def)

record ('i, 'b) budget_state =
  bs_limits :: retry_admission_limits
  bs_started_at :: 'i
  bs_sampled_at :: 'i
  bs_counter :: 'b
  bs_operation_elapsed :: duration
  bs_last_attempt_elapsed :: duration
  bs_attempt_started_at :: "'i option"

definition bs_new ::
  "('i, 'd, 'x, 'b, 'w) deps \<Rightarrow> 'i \<Rightarrow> retry_admission_limits \<Rightarrow> ('i, 'b) budget_state"
where
  "bs_new X started_at limits =
     \<lparr>bs_limits = limits, bs_started_at = started_at, bs_sampled_at = started_at,
      bs_counter = counter_new X ResourceAttempts (nz_get (lim_max_attempts limits)),
      bs_operation_elapsed = 0, bs_last_attempt_elapsed = 0, bs_attempt_started_at = None\<rparr>"

lemma bs_limits_new [simp]: "bs_limits (bs_new X t limits) = limits"
  by (simp add: bs_new_def)

definition bs_has_active_attempt :: "('i, 'b) budget_state \<Rightarrow> bool" where
  "bs_has_active_attempt st \<longleftrightarrow> bs_attempt_started_at st \<noteq> None"

definition bs_attempts :: "('i, 'd, 'x, 'b, 'w) deps \<Rightarrow> ('i, 'b) budget_state \<Rightarrow> u32" where
  "bs_attempts X st = counter_used X (bs_counter st)"

definition bs_snapshot_at ::
  "('i, 'd, 'x, 'b, 'w) deps \<Rightarrow> 'i \<Rightarrow> ('i, 'b) budget_state \<Rightarrow> 'x + budget_snapshot"
where
  "bs_snapshot_at X now st =
     (case duration_since X now (bs_sampled_at st) of
        Inl e \<Rightarrow> Inl e
      | Inr _ \<Rightarrow>
          (case duration_since X now (bs_started_at st) of
             Inl e \<Rightarrow> Inl e
           | Inr elapsed \<Rightarrow>
               Inr (budget_snapshot_new (bs_attempts X st) (bs_operation_elapsed st) elapsed
                      (bs_last_attempt_elapsed st))))"

text \<open>\<open>snapshot\<close> expects the last committed sample to be coherent: no value is a panic.\<close>

definition bs_snapshot ::
  "('i, 'd, 'x, 'b, 'w) deps \<Rightarrow> ('i, 'b) budget_state \<Rightarrow> budget_snapshot option"
where
  "bs_snapshot X st =
     (case bs_snapshot_at X (bs_sampled_at st) st of Inl _ \<Rightarrow> None | Inr snap \<Rightarrow> Some snap)"

text \<open>The outer option is the panic of that snapshot, taken only when a total limit is set.\<close>

definition bs_retry_limit ::
  "('i, 'd, 'x, 'b, 'w) deps \<Rightarrow> duration \<Rightarrow> ('i, 'b) budget_state \<Rightarrow> retry_limit_kind option option"
where
  "bs_retry_limit X delay st =
     (if counter_remaining X (bs_counter st) = 0 then Some (Some LimitAttempts)
      else if is_some_and (\<lambda>limit. limit \<le> bs_operation_elapsed st)
                (lim_operation_time_budget (bs_limits st)) then
        Some (Some LimitOperationElapsed)
      else
        (case lim_total_time_budget (bs_limits st) of
           None \<Rightarrow> Some None
         | Some limit \<Rightarrow>
             (case bs_snapshot X st of
                None \<Rightarrow> None
              | Some snap \<Rightarrow>
                  if limit \<le> dur_saturating_add (snap_total_elapsed snap) delay
                  then Some (Some LimitTotalElapsed)
                  else Some None)))"

definition bs_refresh ::
  "('i, 'd, 'x, 'b, 'w) deps \<Rightarrow> 'i \<Rightarrow> (('i, 'b) budget_state, 'x, unit) prog"
where
  "bs_refresh X now =
     andthen (try_reads (bs_snapshot_at X now)) (\<lambda>_.
     updates (\<lambda>st. st\<lparr>bs_sampled_at := now\<rparr>))"

text \<open>The two debug assertions are panics; release builds skip them.\<close>

definition bs_begin_attempt ::
  "('i, 'd, 'x, 'b, 'w) deps \<Rightarrow> 'i \<Rightarrow> (('i, 'b) budget_state, 'x, unit) prog"
where
  "bs_begin_attempt X now =
     andthen (reads bs_has_active_attempt) (\<lambda>active.
     andthen (check (\<not> active)) (\<lambda>_.
     andthen (reads (\<lambda>st. fst (counter_consume_available X (bs_counter st) 1))) (\<lambda>consumed.
     andthen (updates (\<lambda>st. st\<lparr>bs_counter := snd (counter_consume_available X (bs_counter st) 1)\<rparr>))
       (\<lambda>_.
     andthen (check (consumed = 1)) (\<lambda>_.
     updates (\<lambda>st. st\<lparr>bs_sampled_at := now, bs_attempt_started_at := Some now\<rparr>))))))"

definition bs_finish_attempt ::
  "('i, 'd, 'x, 'b, 'w) deps \<Rightarrow> 'i \<Rightarrow> (('i, 'b) budget_state, 'x, unit) prog"
where
  "bs_finish_attempt X now =
     andthen (expect_reads bs_attempt_started_at) (\<lambda>started_at.
     andthen (try_reads (bs_snapshot_at X now)) (\<lambda>_.
     andthen (try_reads (\<lambda>_. duration_since X now started_at)) (\<lambda>elapsed.
     updates (\<lambda>st. st\<lparr>bs_sampled_at := now, bs_last_attempt_elapsed := elapsed,
       bs_operation_elapsed := dur_saturating_add (bs_operation_elapsed st) elapsed,
       bs_attempt_started_at := None\<rparr>))))"

section \<open>The public budget\<close>

datatype retry_budget_exhausted =
    ExhaustedAttempts | ExhaustedOperationElapsed | ExhaustedTotalElapsed

datatype 'x retry_budget_error =
    BudgetClock 'x
  | BudgetExhausted retry_budget_exhausted
  | BudgetAttemptInProgress
  | BudgetInvalidAttempt

text \<open>The owner \<open>Arc<()>\<close> is compared by identity only: a number, fresh for each budget.\<close>

record retry_attempt =
  att_number :: u32
  att_owner :: nat

record ('i, 'b) retry_budget =
  rb_state :: "('i, 'b) budget_state"
  rb_owner :: nat

text \<open>Lifting a budget-state program into the public object; its error is a clock error.\<close>

definition rb_lift ::
  "(('i, 'b) budget_state, 'x, 'a) prog \<Rightarrow>
     (('i, 'b) retry_budget \<times> 'w, 'x retry_budget_error, 'a) prog"
where
  "rb_lift m = (\<lambda>(rb, w). case m (rb_state rb) of
       None \<Rightarrow> None
     | Some (Inl e, st) \<Rightarrow> Some (Inl (BudgetClock e), rb\<lparr>rb_state := st\<rparr>, w)
     | Some (Inr a, st) \<Rightarrow> Some (Inr a, rb\<lparr>rb_state := st\<rparr>, w))"

definition rb_now ::
  "('i, 'w) clock_reader \<Rightarrow> (('i, 'b) retry_budget \<times> 'w, 'e, 'i) prog"
where
  "rb_now clock = (\<lambda>(rb, w). let (now, w') = clock w in Some (Inr now, rb, w'))"

definition rb_new ::
  "('i, 'd, 'x, 'b, 'w) deps \<Rightarrow> ('i, 'w) clock_reader \<Rightarrow> 'd \<Rightarrow> nat \<Rightarrow> retry_admission_limits \<Rightarrow> 'w
     \<Rightarrow> ('x retry_budget_error + ('i, 'b) retry_budget) \<times> 'w"
where
  "rb_new X clock domain owner limits w =
     (let (now, w') = clock w
      in (case validate_domain X now domain of
            Inl e \<Rightarrow> (Inl (BudgetClock e), w')
          | Inr _ \<Rightarrow> (Inr \<lparr>rb_state = bs_new X now limits, rb_owner = owner\<rparr>, w')))"

definition rb_snapshot ::
  "('i, 'd, 'x, 'b, 'w) deps \<Rightarrow> ('i, 'w) clock_reader \<Rightarrow>
     (('i, 'b) retry_budget \<times> 'w, 'x retry_budget_error, budget_snapshot) prog"
where
  "rb_snapshot X clock =
     andthen (rb_now clock) (\<lambda>now. rb_lift (try_reads (bs_snapshot_at X now)))"

definition exhausted_of_limit :: "retry_limit_kind \<Rightarrow> retry_budget_exhausted" where
  "exhausted_of_limit limit =
     (case limit of
        LimitAttempts \<Rightarrow> ExhaustedAttempts
      | LimitOperationElapsed \<Rightarrow> ExhaustedOperationElapsed
      | LimitTotalElapsed \<Rightarrow> ExhaustedTotalElapsed)"

definition rb_check_limit ::
  "('i, 'd, 'x, 'b, 'w) deps \<Rightarrow> duration \<Rightarrow>
     (('i, 'b) retry_budget \<times> 'w, 'x retry_budget_error, unit) prog"
where
  "rb_check_limit X delay =
     andthen (expect_reads (\<lambda>(rb, w). bs_retry_limit X delay (rb_state rb))) (\<lambda>r.
     case r of
       None \<Rightarrow> ok ()
     | Some limit \<Rightarrow> fail (BudgetExhausted (exhausted_of_limit limit)))"

definition rb_begin_attempt ::
  "('i, 'd, 'x, 'b, 'w) deps \<Rightarrow> ('i, 'w) clock_reader \<Rightarrow>
     (('i, 'b) retry_budget \<times> 'w, 'x retry_budget_error, retry_attempt) prog"
where
  "rb_begin_attempt X clock =
     andthen (reads (\<lambda>(rb, w). bs_has_active_attempt (rb_state rb))) (\<lambda>active.
     if active then fail BudgetAttemptInProgress
     else
       andthen (rb_now clock) (\<lambda>now.
       andthen (rb_lift (bs_refresh X now)) (\<lambda>_.
       andthen (rb_check_limit X 0) (\<lambda>_.
       andthen (rb_lift (bs_begin_attempt X now)) (\<lambda>_.
       reads (\<lambda>(rb, w). \<lparr>att_number = bs_attempts X (rb_state rb), att_owner = rb_owner rb\<rparr>))))))"

definition rb_finish_attempt ::
  "('i, 'd, 'x, 'b, 'w) deps \<Rightarrow> ('i, 'w) clock_reader \<Rightarrow> retry_attempt \<Rightarrow>
     (('i, 'b) retry_budget \<times> 'w, 'x retry_budget_error, budget_snapshot) prog"
where
  "rb_finish_attempt X clock token =
     andthen (reads (\<lambda>(rb, w). rb_owner rb \<noteq> att_owner token \<or>
         \<not> bs_has_active_attempt (rb_state rb) \<or>
         att_number token \<noteq> bs_attempts X (rb_state rb))) (\<lambda>invalid.
     if invalid then fail BudgetInvalidAttempt
     else
       andthen (rb_now clock) (\<lambda>now.
       andthen (rb_lift (bs_finish_attempt X now)) (\<lambda>_.
       expect_reads (\<lambda>(rb, w). bs_snapshot X (rb_state rb)))))"

definition rb_check_retry_after ::
  "('i, 'd, 'x, 'b, 'w) deps \<Rightarrow> ('i, 'w) clock_reader \<Rightarrow> duration \<Rightarrow>
     (('i, 'b) retry_budget \<times> 'w, 'x retry_budget_error, unit) prog"
where
  "rb_check_retry_after X clock delay =
     andthen (reads (\<lambda>(rb, w). bs_has_active_attempt (rb_state rb))) (\<lambda>active.
     if active then fail BudgetAttemptInProgress
     else
       andthen (rb_now clock) (\<lambda>now.
       andthen (rb_lift (bs_refresh X now)) (\<lambda>_.
       rb_check_limit X delay)))"

section \<open>The ledger\<close>

text \<open>
  The abstract account, in nanoseconds since the origin of the clock: the flow's start, the
  last sample, the closed intervals of the finished attempts (latest first) and the start
  of an open one.
\<close>

record ledger =
  led_start :: nat
  led_now :: nat
  led_done :: "(nat \<times> nat) list"
  led_open :: "nat option"

definition led_new :: "nat \<Rightarrow> ledger" where
  "led_new t = \<lparr>led_start = t, led_now = t, led_done = [], led_open = None\<rparr>"

definition led_refresh :: "nat \<Rightarrow> ledger \<Rightarrow> ledger" where
  "led_refresh t L = L\<lparr>led_now := t\<rparr>"

definition led_begin :: "nat \<Rightarrow> ledger \<Rightarrow> ledger" where
  "led_begin t L = L\<lparr>led_now := t, led_open := Some t\<rparr>"

definition led_finish :: "nat \<Rightarrow> ledger \<Rightarrow> ledger" where
  "led_finish t L =
     (case led_open L of
        None \<Rightarrow> L
      | Some a \<Rightarrow> L\<lparr>led_now := t, led_done := (a, t) # led_done L, led_open := None\<rparr>)"

definition led_attempts :: "ledger \<Rightarrow> nat" where
  "led_attempts L = length (led_done L) + (if led_open L = None then 0 else 1)"

definition interval_length :: "nat \<times> nat \<Rightarrow> nat" where
  "interval_length i = snd i - fst i"

definition led_operation :: "ledger \<Rightarrow> nat" where
  "led_operation L = sum_list (map interval_length (led_done L))"

definition led_last :: "ledger \<Rightarrow> nat" where
  "led_last L = (case led_done L of [] \<Rightarrow> 0 | i # _ \<Rightarrow> interval_length i)"

definition led_total :: "ledger \<Rightarrow> nat" where
  "led_total L = led_now L - led_start L"

text \<open>The intervals are ordered, disjoint and inside the flow.\<close>

fun intervals_ok :: "nat \<Rightarrow> nat \<Rightarrow> (nat \<times> nat) list \<Rightarrow> bool" where
  "intervals_ok lo hi [] \<longleftrightarrow> lo \<le> hi"
| "intervals_ok lo hi ((a, b) # is) \<longleftrightarrow> a \<le> b \<and> b \<le> hi \<and> intervals_ok lo a is"

definition led_wf :: "ledger \<Rightarrow> bool" where
  "led_wf L \<longleftrightarrow>
     (case led_open L of
        None \<Rightarrow> intervals_ok (led_start L) (led_now L) (led_done L)
      | Some a \<Rightarrow> a \<le> led_now L \<and> intervals_ok (led_start L) a (led_done L))"

lemma intervals_ok_sum:
  "intervals_ok lo hi is \<Longrightarrow> lo + sum_list (map interval_length is) \<le> hi"
  by (induction lo hi "is" rule: intervals_ok.induct) (auto simp: interval_length_def)

lemma intervals_ok_mono: "intervals_ok lo hi is \<Longrightarrow> hi \<le> hi' \<Longrightarrow> intervals_ok lo hi' is"
  by (cases "(lo, hi, is)" rule: intervals_ok.cases) auto

lemma led_wf_operation_le_total:
  assumes "led_wf L"
  shows "led_operation L \<le> led_total L" and "led_start L \<le> led_now L"
proof -
  have "led_start L + led_operation L \<le> led_now L"
  proof (cases "led_open L")
    case None
    then show ?thesis
      using assms intervals_ok_sum by (simp add: led_wf_def led_operation_def)
  next
    case (Some a)
    then show ?thesis
      using assms intervals_ok_sum [of "led_start L" a "led_done L"]
      by (simp add: led_wf_def led_operation_def)
  qed
  then show "led_operation L \<le> led_total L" and "led_start L \<le> led_now L"
    by (simp_all add: led_total_def)
qed

lemma led_last_le_operation: "led_last L \<le> led_operation L"
  by (simp add: led_last_def led_operation_def split: list.split)

lemma led_wf_new [simp]: "led_wf (led_new t)"
  by (simp add: led_wf_def led_new_def)

lemma led_wf_refresh: "led_wf L \<Longrightarrow> led_now L \<le> t \<Longrightarrow> led_wf (led_refresh t L)"
  by (auto simp: led_wf_def led_refresh_def intervals_ok_mono split: option.splits)

lemma led_wf_begin:
  "led_wf L \<Longrightarrow> led_open L = None \<Longrightarrow> led_now L \<le> t \<Longrightarrow> led_wf (led_begin t L)"
  by (auto simp: led_wf_def led_begin_def intervals_ok_mono)

lemma led_wf_finish: "led_wf L \<Longrightarrow> led_now L \<le> t \<Longrightarrow> led_wf (led_finish t L)"
  by (auto simp: led_wf_def led_finish_def split: option.splits)

section \<open>Simulation\<close>

definition nanos_at :: "('i, 'd, 'x, 'b, 'w) deps \<Rightarrow> 'i \<Rightarrow> nat" where
  "nanos_at X a = as_nanos (since_origin X a)"

text \<open>A sample the budget can accept: its own domain, and not before the last one.\<close>

definition accepts_sample ::
  "('i, 'd, 'x, 'b, 'w) deps \<Rightarrow> 'i \<Rightarrow> ('i, 'b) budget_state \<Rightarrow> bool"
where
  "accepts_sample X now st \<longleftrightarrow>
     instant_domain X now = instant_domain X (bs_sampled_at st) \<and>
     nanos_at X (bs_sampled_at st) \<le> nanos_at X now"

definition ledger_rel ::
  "('i, 'd, 'x, 'b, 'w) deps \<Rightarrow> ledger \<Rightarrow> ('i, 'b) budget_state \<Rightarrow> bool"
where
  "ledger_rel X L st \<longleftrightarrow>
     led_wf L \<and>
     instant_domain X (bs_sampled_at st) = instant_domain X (bs_started_at st) \<and>
     (\<forall>a. bs_attempt_started_at st = Some a \<longrightarrow>
        instant_domain X a = instant_domain X (bs_started_at st)) \<and>
     led_start L = nanos_at X (bs_started_at st) \<and>
     led_now L = nanos_at X (bs_sampled_at st) \<and>
     led_open L = map_option (nanos_at X) (bs_attempt_started_at st) \<and>
     led_operation L = as_nanos (bs_operation_elapsed st) \<and>
     led_last L = as_nanos (bs_last_attempt_elapsed st) \<and>
     led_attempts L = unat (counter_used X (bs_counter st)) \<and>
     unat (counter_used X (bs_counter st)) + unat (counter_remaining X (bs_counter st)) =
       unat (nz_get (lim_max_attempts (bs_limits st)))"

definition bs_inv :: "('i, 'd, 'x, 'b, 'w) deps \<Rightarrow> ('i, 'b) budget_state \<Rightarrow> bool" where
  "bs_inv X st \<longleftrightarrow> (\<exists>L. ledger_rel X L st)"

context deps_laws
begin

lemma since_iff_nanos:
  "duration_since X a b = Inr d \<longleftrightarrow>
     instant_domain X a = instant_domain X b \<and> nanos_at X b \<le> nanos_at X a \<and>
     as_nanos d = nanos_at X a - nanos_at X b"
  unfolding since_Inr_iff by (auto simp: nanos_at_def less_eq_duration_def duration_eq_iff)

lemma since_later:
  assumes "instant_domain X a = instant_domain X b" and "nanos_at X b \<le> nanos_at X a"
  shows "\<exists>d. duration_since X a b = Inr d \<and> as_nanos d = nanos_at X a - nanos_at X b"
proof (cases "duration_since X a b")
  case (Inl e)
  then show ?thesis
    using assms since_Inl_iff [of a b] by (auto simp: nanos_at_def less_eq_duration_def)
next
  case (Inr d)
  then show ?thesis using assms since_iff_nanos [of a b d] by auto
qed

lemma since_not_later:
  "\<not> (instant_domain X a = instant_domain X b \<and> nanos_at X b \<le> nanos_at X a) \<Longrightarrow>
   \<exists>e. duration_since X a b = Inl e"
  unfolding since_Inl_iff by (simp add: nanos_at_def less_eq_duration_def)

lemma ledger_new: "ledger_rel X (led_new (nanos_at X t)) (bs_new X t limits)"
  by (simp add: ledger_rel_def bs_new_def led_new_def led_wf_def led_operation_def led_last_def
      led_attempts_def new_used new_remaining)

text \<open>Sampling: accepted exactly for coherent samples, and then it reads the ledger.\<close>

lemma snapshot_at_ledger:
  assumes "ledger_rel X L st"
  shows "if accepts_sample X now st
    then \<exists>snap. bs_snapshot_at X now st = Inr snap \<and>
      unat (snap_attempts snap) = led_attempts L \<and>
      as_nanos (snap_operation_elapsed snap) = led_operation L \<and>
      as_nanos (snap_total_elapsed snap) = nanos_at X now - led_start L \<and>
      as_nanos (snap_attempt_elapsed snap) = led_last L
    else \<exists>e. bs_snapshot_at X now st = Inl e"
proof (cases "accepts_sample X now st")
  case True
  then obtain d where "duration_since X now (bs_sampled_at st) = Inr d"
    using since_later [of now "bs_sampled_at st"] by (auto simp: accepts_sample_def)
  moreover have "led_start L \<le> led_now L"
    using assms led_wf_operation_le_total(2) [of L] by (simp add: ledger_rel_def)
  then obtain d' where "duration_since X now (bs_started_at st) = Inr d'"
      "as_nanos d' = nanos_at X now - nanos_at X (bs_started_at st)"
    using True assms since_later [of now "bs_started_at st"]
    by (auto simp: accepts_sample_def ledger_rel_def)
  ultimately show ?thesis
    using True assms by (simp add: bs_snapshot_at_def ledger_rel_def bs_attempts_def)
next
  case False
  then obtain e where "duration_since X now (bs_sampled_at st) = Inl e"
    using since_not_later [of now "bs_sampled_at st"] by (auto simp: accepts_sample_def)
  then show ?thesis using False by (simp add: bs_snapshot_at_def)
qed

lemma snapshot_at_error_iff:
  assumes "ledger_rel X L st"
  shows "(\<exists>snap. bs_snapshot_at X now st = Inr snap) \<longleftrightarrow> accepts_sample X now st"
  using snapshot_at_ledger [OF assms, of now] by (auto split: if_splits)

lemma accepts_last_sample: "accepts_sample X (bs_sampled_at st) st"
  by (simp add: accepts_sample_def)

lemma snapshot_ledger:
  assumes "ledger_rel X L st"
  shows "\<exists>snap. bs_snapshot X st = Some snap \<and>
      unat (snap_attempts snap) = led_attempts L \<and>
      as_nanos (snap_operation_elapsed snap) = led_operation L \<and>
      as_nanos (snap_total_elapsed snap) = led_total L \<and>
      as_nanos (snap_attempt_elapsed snap) = led_last L"
  using snapshot_at_ledger [OF assms, of "bs_sampled_at st"] assms
  by (auto simp: bs_snapshot_def accepts_last_sample led_total_def ledger_rel_def)

lemma refresh_ledger:
  assumes "ledger_rel X L st"
  shows "wp (bs_refresh X now)
    (\<lambda>_ st'. accepts_sample X now st \<and> st' = st\<lparr>bs_sampled_at := now\<rparr> \<and>
       ledger_rel X (led_refresh (nanos_at X now) L) st')
    (\<lambda>e st'. \<not> accepts_sample X now st \<and> st' = st) st"
proof (cases "accepts_sample X now st")
  case True
  then have "ledger_rel X (led_refresh (nanos_at X now) L) (st\<lparr>bs_sampled_at := now\<rparr>)"
    using assms led_wf_refresh [of L "nanos_at X now"]
    by (auto simp: ledger_rel_def accepts_sample_def led_refresh_def led_operation_def led_last_def
        led_attempts_def)
  then show ?thesis
    using True snapshot_at_ledger [OF assms, of now] by (auto simp: bs_refresh_def)
next
  case False
  then show ?thesis using snapshot_at_ledger [OF assms, of now] by (auto simp: bs_refresh_def)
qed

lemma counter_begin:
  assumes "unat (counter_used X b) + unat (counter_remaining X b) = unat (nz_get m)"
    and "counter_remaining X b \<noteq> 0"
  shows "fst (counter_consume_available X b 1) = 1"
    and "unat (counter_used X (snd (counter_consume_available X b 1))) = Suc (unat (counter_used X b))"
    and "unat (counter_used X (snd (counter_consume_available X b 1))) +
      unat (counter_remaining X (snd (counter_consume_available X b 1))) = unat (nz_get m)"
proof -
  have pos: "0 < unat (counter_remaining X b)"
    using assms(2) unat_gt_0 by blast
  then have one: "min 1 (counter_remaining X b) = 1"
    by (simp add: min_def word_le_nat_alt)
  have bound: "unat (counter_used X b) + unat (counter_remaining X b) < 2 ^ 32"
    using assms(1) unat_u32_bound [of "nz_get m"] by simp
  show "fst (counter_consume_available X b 1) = 1"
    using one by (simp add: consume_amount)
  have used: "unat (counter_used X b + 1) = Suc (unat (counter_used X b))"
    using bound pos by (simp add: unat_word_ariths)
  have remaining: "unat (counter_remaining X b - 1) = unat (counter_remaining X b) - 1"
    using pos by (simp add: unat_sub word_le_nat_alt)
  show "unat (counter_used X (snd (counter_consume_available X b 1))) =
      Suc (unat (counter_used X b))"
    using used consume_used [OF bound, of 1] one by simp
  then show "unat (counter_used X (snd (counter_consume_available X b 1))) +
      unat (counter_remaining X (snd (counter_consume_available X b 1))) = unat (nz_get m)"
    using remaining consume_remaining [OF bound, of 1] one pos assms(1) by simp
qed

lemma begin_ledger:
  assumes "ledger_rel X L st" and "\<not> bs_has_active_attempt st"
    and "counter_remaining X (bs_counter st) \<noteq> 0" and "accepts_sample X now st"
  shows "wp (bs_begin_attempt X now)
    (\<lambda>_ st'. ledger_rel X (led_begin (nanos_at X now) L) st' \<and>
       bs_attempt_started_at st' = Some now \<and> bs_sampled_at st' = now \<and>
       bs_limits st' = bs_limits st \<and> bs_started_at st' = bs_started_at st)
    (\<lambda>e st'. False) st"
proof -
  have c: "unat (counter_used X (bs_counter st)) + unat (counter_remaining X (bs_counter st)) =
      unat (nz_get (lim_max_attempts (bs_limits st)))"
    using assms(1) by (simp add: ledger_rel_def)
  have o: "led_open L = None"
    using assms(1,2) by (simp add: ledger_rel_def bs_has_active_attempt_def)
  have n: "led_now L \<le> nanos_at X now"
    using assms(1,4) by (simp add: ledger_rel_def accepts_sample_def)
  have wf: "led_wf (led_begin (nanos_at X now) L)"
    using assms(1) led_wf_begin [OF _ o n] by (simp add: ledger_rel_def)
  then show ?thesis
    using assms o counter_begin [OF c assms(3)]
    by (auto simp: bs_begin_attempt_def ledger_rel_def led_begin_def led_operation_def led_last_def
        led_attempts_def bs_has_active_attempt_def accepts_sample_def)
qed

lemma finish_ledger:
  assumes "ledger_rel X L st" and "bs_has_active_attempt st"
  shows "wp (bs_finish_attempt X now)
    (\<lambda>_ st'. accepts_sample X now st \<and> ledger_rel X (led_finish (nanos_at X now) L) st' \<and>
       bs_attempt_started_at st' = None \<and> bs_sampled_at st' = now \<and>
       bs_limits st' = bs_limits st \<and> bs_started_at st' = bs_started_at st \<and>
       bs_counter st' = bs_counter st)
    (\<lambda>e st'. \<not> accepts_sample X now st \<and> st' = st) st"
proof (cases "accepts_sample X now st")
  case False
  then show ?thesis
    using snapshot_at_ledger [OF assms(1), of now] assms(2)
    by (auto simp: bs_finish_attempt_def bs_has_active_attempt_def)
next
  case True
  obtain a where a: "bs_attempt_started_at st = Some a"
    using assms(2) by (auto simp: bs_has_active_attempt_def)
  have wf: "led_wf (led_finish (nanos_at X now) L)"
    using True assms(1) led_wf_finish [of L "nanos_at X now"]
    by (simp add: ledger_rel_def accepts_sample_def)
  have le: "nanos_at X a \<le> nanos_at X now"
    using a True assms(1) by (auto simp: ledger_rel_def accepts_sample_def led_wf_def)
  then obtain d where d: "duration_since X now a = Inr d"
      "as_nanos d = nanos_at X now - nanos_at X a"
    using a True assms(1) since_later [of now a]
    by (auto simp: accepts_sample_def ledger_rel_def)
  have sum: "led_operation (led_finish (nanos_at X now) L) = as_nanos d + led_operation L"
    using a assms(1) d
    by (simp add: led_finish_def ledger_rel_def led_operation_def interval_length_def)
  moreover have "led_operation (led_finish (nanos_at X now) L) \<le> nanos_at X now"
    using led_wf_operation_le_total(1) [OF wf] a assms(1)
    by (simp add: led_total_def led_finish_def ledger_rel_def)
  moreover have "nanos_at X now \<le> max_nanos"
    by (simp add: nanos_at_def)
  ultimately have "as_nanos (dur_saturating_add (bs_operation_elapsed st) d) =
      led_operation (led_finish (nanos_at X now) L)"
    using assms(1) by (simp add: ledger_rel_def add.commute)
  then have "ledger_rel X (led_finish (nanos_at X now) L)
      (st\<lparr>bs_sampled_at := now, bs_last_attempt_elapsed := d,
        bs_operation_elapsed := dur_saturating_add (bs_operation_elapsed st) d,
        bs_attempt_started_at := None\<rparr>)"
    using wf a assms(1) d True
    by (auto simp: ledger_rel_def led_finish_def led_last_def led_attempts_def interval_length_def
        accepts_sample_def)
  then show ?thesis
    using True a d snapshot_at_ledger [OF assms(1), of now]
    by (auto simp: bs_finish_attempt_def)
qed

text \<open>Consequences used by the flow, free of the ledger.\<close>

lemma inv_new [simp]: "bs_inv X (bs_new X t limits)"
  using ledger_new unfolding bs_inv_def by blast

lemma inv_snapshot:
  assumes "bs_inv X st"
  obtains snap where "bs_snapshot X st = Some snap"
    "snap_operation_elapsed snap \<le> snap_total_elapsed snap"
    "snap_attempt_elapsed snap \<le> snap_operation_elapsed snap"
    "snap_attempts snap = bs_attempts X st"
    "as_nanos (snap_total_elapsed snap) =
       nanos_at X (bs_sampled_at st) - nanos_at X (bs_started_at st)"
proof -
  obtain L where L: "ledger_rel X L st" using assms by (auto simp: bs_inv_def)
  then obtain snap where "bs_snapshot X st = Some snap"
      "unat (snap_attempts snap) = led_attempts L"
      "as_nanos (snap_operation_elapsed snap) = led_operation L"
      "as_nanos (snap_total_elapsed snap) = led_total L"
      "as_nanos (snap_attempt_elapsed snap) = led_last L"
    using snapshot_ledger by blast
  moreover have "led_wf L" "led_attempts L = unat (bs_attempts X st)"
      "led_total L = nanos_at X (bs_sampled_at st) - nanos_at X (bs_started_at st)"
    using L by (simp_all add: ledger_rel_def bs_attempts_def led_total_def)
  ultimately show ?thesis
    using that led_wf_operation_le_total(1) [of L] led_last_le_operation [of L]
    by (simp add: less_eq_duration_def word_unat_eq_iff)
qed

lemma inv_attempts_le:
  "bs_inv X st \<Longrightarrow> unat (bs_attempts X st) \<le> unat (nz_get (lim_max_attempts (bs_limits st)))"
  by (auto simp: bs_inv_def ledger_rel_def bs_attempts_def)

lemma inv_active_attempts:
  "bs_inv X st \<Longrightarrow> bs_has_active_attempt st \<Longrightarrow> 0 < unat (bs_attempts X st)"
  by (auto simp: bs_inv_def ledger_rel_def bs_attempts_def bs_has_active_attempt_def
      led_attempts_def)

lemma inv_remaining:
  "bs_inv X st \<Longrightarrow> counter_remaining X (bs_counter st) \<noteq> 0 \<longleftrightarrow>
     unat (bs_attempts X st) < unat (nz_get (lim_max_attempts (bs_limits st)))"
  by (auto simp: bs_inv_def ledger_rel_def bs_attempts_def word_unat_eq_iff)

lemma inv_refresh:
  assumes "bs_inv X st"
  shows "wp (bs_refresh X now)
    (\<lambda>_ st'. bs_inv X st' \<and> accepts_sample X now st \<and> st' = st\<lparr>bs_sampled_at := now\<rparr>)
    (\<lambda>e st'. \<not> accepts_sample X now st \<and> st' = st) st"
proof -
  obtain L where "ledger_rel X L st" using assms by (auto simp: bs_inv_def)
  from refresh_ledger [OF this, of now] show ?thesis
    by (rule wp_mono) (auto simp: bs_inv_def)
qed

lemma inv_begin:
  assumes "bs_inv X st" and "\<not> bs_has_active_attempt st"
    and "counter_remaining X (bs_counter st) \<noteq> 0" and "accepts_sample X now st"
  shows "wp (bs_begin_attempt X now)
    (\<lambda>_ st'. bs_inv X st' \<and> bs_attempt_started_at st' = Some now \<and> bs_sampled_at st' = now \<and>
       unat (bs_attempts X st') = Suc (unat (bs_attempts X st)) \<and>
       bs_limits st' = bs_limits st \<and> bs_started_at st' = bs_started_at st)
    (\<lambda>e st'. False) st"
proof -
  obtain L where L: "ledger_rel X L st" using assms by (auto simp: bs_inv_def)
  then have "led_open L = None" "led_attempts L = unat (bs_attempts X st)"
    using assms(2) by (simp_all add: ledger_rel_def bs_has_active_attempt_def bs_attempts_def)
  then have n: "led_attempts (led_begin (nanos_at X now) L) = Suc (unat (bs_attempts X st))"
    by (simp add: led_attempts_def led_begin_def)
  have "ledger_rel X (led_begin (nanos_at X now) L) st' \<Longrightarrow>
      bs_inv X st' \<and> unat (bs_attempts X st') = Suc (unat (bs_attempts X st))" for st'
    using n by (auto simp: bs_inv_def ledger_rel_def bs_attempts_def)
  then show ?thesis
    using begin_ledger [OF L assms(2,3,4)] by (blast intro: wp_mono)
qed

lemma inv_finish:
  assumes "bs_inv X st" and "bs_has_active_attempt st"
  shows "wp (bs_finish_attempt X now)
    (\<lambda>_ st'. bs_inv X st' \<and> accepts_sample X now st \<and> bs_attempt_started_at st' = None \<and>
       bs_sampled_at st' = now \<and> bs_attempts X st' = bs_attempts X st \<and>
       bs_limits st' = bs_limits st \<and> bs_started_at st' = bs_started_at st)
    (\<lambda>e st'. \<not> accepts_sample X now st \<and> st' = st) st"
proof -
  obtain L where "ledger_rel X L st" using assms by (auto simp: bs_inv_def)
  from finish_ledger [OF this assms(2), of now] show ?thesis
    by (rule wp_mono) (auto simp: bs_inv_def bs_attempts_def)
qed

lemma inv_retry_limit:
  assumes "bs_inv X st"
  shows "\<exists>r. bs_retry_limit X delay st = Some r"
    and "bs_retry_limit X delay st = Some None \<Longrightarrow> counter_remaining X (bs_counter st) \<noteq> 0"
proof -
  obtain snap where "bs_snapshot X st = Some snap"
    using inv_snapshot [OF assms] by blast
  then show "\<exists>r. bs_retry_limit X delay st = Some r"
    by (simp add: bs_retry_limit_def split: option.split)
  show "bs_retry_limit X delay st = Some None \<Longrightarrow> counter_remaining X (bs_counter st) \<noteq> 0"
    by (auto simp: bs_retry_limit_def)
qed

end

section \<open>Limits on the ledger\<close>

text \<open>The first limit that stops the flow, read off the account alone.\<close>

definition led_limit ::
  "retry_admission_limits \<Rightarrow> duration \<Rightarrow> ledger \<Rightarrow> retry_limit_kind option"
where
  "led_limit limits delay L =
     (if unat (nz_get (lim_max_attempts limits)) \<le> led_attempts L then Some LimitAttempts
      else if is_some_and (\<lambda>b. as_nanos b \<le> led_operation L) (lim_operation_time_budget limits)
        then Some LimitOperationElapsed
      else if is_some_and (\<lambda>b. as_nanos b \<le> led_total L + as_nanos delay)
          (lim_total_time_budget limits)
        then Some LimitTotalElapsed
      else None)"

context deps_laws
begin

lemma retry_limit_ledger:
  assumes "ledger_rel X L st"
  shows "bs_retry_limit X delay st = Some (led_limit (bs_limits st) delay L)"
proof -
  obtain snap where snap: "bs_snapshot X st = Some snap"
      "as_nanos (snap_total_elapsed snap) = led_total L"
    using snapshot_ledger [OF assms] by blast
  have "counter_remaining X (bs_counter st) = 0 \<longleftrightarrow>
      unat (nz_get (lim_max_attempts (bs_limits st))) \<le> led_attempts L"
    using assms by (auto simp: ledger_rel_def word_unat_eq_iff)
  moreover have "limit \<le> bs_operation_elapsed st \<longleftrightarrow> as_nanos limit \<le> led_operation L" for limit
    using assms by (simp add: ledger_rel_def less_eq_duration_def)
  moreover have "limit \<le> dur_saturating_add (snap_total_elapsed snap) delay \<longleftrightarrow>
      as_nanos limit \<le> led_total L + as_nanos delay" for limit
    using snap(2) as_nanos_le_max [of limit] by (simp add: less_eq_duration_def)
  ultimately show ?thesis
    using snap(1) by (auto simp: bs_retry_limit_def led_limit_def split: option.split)
qed

end

section \<open>The public budget keeps the account\<close>

lemma wp_rb_lift [wp_rules, simp]:
  "wp (rb_lift m) Q E = (\<lambda>(rb, w). wp m (\<lambda>a st. Q a (rb\<lparr>rb_state := st\<rparr>, w))
     (\<lambda>e st. E (BudgetClock e) (rb\<lparr>rb_state := st\<rparr>, w)) (rb_state rb))"
  by (auto simp: wp_def rb_lift_def fun_eq_iff split: option.split sum.split)

lemma wp_rb_now [wp_rules, simp]:
  "wp (rb_now clock) Q E = (\<lambda>(rb, w). Q (fst (clock w)) (rb, snd (clock w)))"
  by (simp add: wp_def rb_now_def fun_eq_iff case_prod_beta)

lemma rb_check_limit_wp:
  assumes "bs_retry_limit X delay (rb_state rb) = Some r"
  shows "wp (rb_check_limit X delay) Q E (rb, w) =
    (case r of None \<Rightarrow> Q () (rb, w)
     | Some k \<Rightarrow> E (BudgetExhausted (exhausted_of_limit k)) (rb, w))"
  using assms by (simp add: rb_check_limit_def split: option.split)

datatype budget_call =
    CallSnapshot
  | CallBegin
  | CallFinish retry_attempt
  | CallCheckRetryAfter duration

text \<open>The effect of one call of the public interface, its result discarded.\<close>

fun rb_call ::
  "('i, 'd, 'x, 'b, 'w) deps \<Rightarrow> ('i, 'w) clock_reader \<Rightarrow> budget_call \<Rightarrow>
     ('i, 'b) retry_budget \<times> 'w \<Rightarrow> (('i, 'b) retry_budget \<times> 'w) option"
where
  "rb_call X clock CallSnapshot s = map_option snd (rb_snapshot X clock s)"
| "rb_call X clock CallBegin s = map_option snd (rb_begin_attempt X clock s)"
| "rb_call X clock (CallFinish token) s = map_option snd (rb_finish_attempt X clock token s)"
| "rb_call X clock (CallCheckRetryAfter d) s = map_option snd (rb_check_retry_after X clock d s)"

primrec rb_calls ::
  "('i, 'd, 'x, 'b, 'w) deps \<Rightarrow> ('i, 'w) clock_reader \<Rightarrow> budget_call list \<Rightarrow>
     ('i, 'b) retry_budget \<times> 'w \<Rightarrow> (('i, 'b) retry_budget \<times> 'w) option"
where
  "rb_calls X clock [] s = Some s"
| "rb_calls X clock (c # cs) s = Option.bind (rb_call X clock c s) (rb_calls X clock cs)"

lemma wp_map_snd:
  "wp m (\<lambda>_. P) (\<lambda>_. P) s \<Longrightarrow> \<exists>s'. map_option snd (m s) = Some s' \<and> P s'"
  by (auto simp: wp_def split: option.splits sum.splits)

definition rb_keeps :: "('i, 'd, 'x, 'b, 'w) deps \<Rightarrow> retry_admission_limits \<Rightarrow>
    ('i, 'b) retry_budget \<times> 'w \<Rightarrow> bool" where
  "rb_keeps X limits = (\<lambda>(rb, w). bs_inv X (rb_state rb) \<and> bs_limits (rb_state rb) = limits)"

context deps_laws
begin

lemma rb_snapshot_keeps:
  assumes "rb_keeps X limits s"
  shows "wp (rb_snapshot X clock) (\<lambda>_. rb_keeps X limits) (\<lambda>_. rb_keeps X limits) s"
  using assms by (cases s) (auto simp: rb_snapshot_def rb_keeps_def split: sum.split)

lemma rb_refresh_keeps:
  assumes "bs_inv X (rb_state rb)" and "bs_limits (rb_state rb) = limits"
  shows "wp (bs_refresh X now)
    (\<lambda>_ st. bs_inv X st \<and> bs_limits st = limits \<and> bs_sampled_at st = now \<and>
       bs_attempt_started_at st = bs_attempt_started_at (rb_state rb))
    (\<lambda>_ st. bs_inv X st \<and> bs_limits st = limits) (rb_state rb)"
  using inv_refresh [OF assms(1), of now] assms by (auto elim: wp_mono)

lemma rb_check_retry_after_keeps:
  assumes "rb_keeps X limits s"
  shows "wp (rb_check_retry_after X clock d) (\<lambda>_. rb_keeps X limits) (\<lambda>_. rb_keeps X limits) s"
proof -
  obtain rb w where s: "s = (rb, w)" by (cases s)
  have "wp (rb_check_limit X d) (\<lambda>_. rb_keeps X limits) (\<lambda>_. rb_keeps X limits)
      (rb\<lparr>rb_state := st\<rparr>, w')" if "bs_inv X st \<and> bs_limits st = limits" for st w'
    using that inv_retry_limit(1) [of st d]
    by (auto simp: rb_check_limit_wp rb_keeps_def split: option.split)
  then show ?thesis
    using assms
    by (auto simp: s rb_check_retry_after_def rb_keeps_def
        intro!: wp_mono [OF rb_refresh_keeps [of rb limits]])
qed

lemma rb_admit_keeps:
  assumes "bs_attempt_started_at st = None" and "bs_inv X st" and "bs_limits st = limits"
    and "bs_sampled_at st = now"
  shows "wp (rb_check_limit X 0)
    (\<lambda>_ (rb', _). wp (bs_begin_attempt X now)
       (\<lambda>_ st'. bs_inv X st' \<and> bs_limits st' = limits)
       (\<lambda>_ st'. bs_inv X st' \<and> bs_limits st' = limits) (rb_state rb'))
    (\<lambda>_ (rb', _). bs_inv X (rb_state rb') \<and> bs_limits (rb_state rb') = limits)
    (rb\<lparr>rb_state := st\<rparr>, w)"
proof -
  obtain r where r: "bs_retry_limit X 0 st = Some r"
    using inv_retry_limit(1) [of st 0] assms(2) by blast
  show ?thesis
  proof (cases r)
    case None
    then have "counter_remaining X (bs_counter st) \<noteq> 0"
      using r inv_retry_limit(2) [of st 0] assms(2) by simp
    then have "wp (bs_begin_attempt X now)
        (\<lambda>_ st'. bs_inv X st' \<and> bs_limits st' = limits)
        (\<lambda>_ st'. bs_inv X st' \<and> bs_limits st' = limits) st"
      using assms accepts_last_sample [of st]
      by (intro wp_mono [OF inv_begin [of st now]]) (simp_all add: bs_has_active_attempt_def)
    then show ?thesis
      using r None by (simp add: rb_check_limit_wp)
  next
    case (Some k)
    then show ?thesis using r assms by (simp add: rb_check_limit_wp)
  qed
qed

lemma rb_begin_keeps:
  assumes "rb_keeps X limits s"
  shows "wp (rb_begin_attempt X clock) (\<lambda>_. rb_keeps X limits) (\<lambda>_. rb_keeps X limits) s"
  using assms
  by (cases s) (auto simp: rb_begin_attempt_def rb_keeps_def bs_has_active_attempt_def
      intro!: wp_mono [OF rb_refresh_keeps] rb_admit_keeps)

lemma rb_finish_keeps:
  assumes "rb_keeps X limits s"
  shows "wp (rb_finish_attempt X clock token) (\<lambda>_. rb_keeps X limits) (\<lambda>_. rb_keeps X limits) s"
proof -
  obtain rb w where s: "s = (rb, w)" by (cases s)
  have done_: "wp (bs_finish_attempt X now)
      (\<lambda>_ st. bs_inv X st \<and> bs_limits st = limits \<and> (\<exists>snap. bs_snapshot X st = Some snap))
      (\<lambda>_ st. bs_inv X st \<and> bs_limits st = limits) (rb_state rb)"
    if "bs_has_active_attempt (rb_state rb)" for now
    using inv_finish [OF _ that, of now] assms
    by (auto simp: s rb_keeps_def elim!: wp_mono elim: inv_snapshot)
  then show ?thesis
    using assms
    by (auto simp: s rb_finish_attempt_def rb_keeps_def intro!: wp_mono [OF done_])
qed

lemma rb_calls_keeps:
  "rb_keeps X limits s \<Longrightarrow> \<exists>s'. rb_calls X clock cs s = Some s' \<and> rb_keeps X limits s'"
proof (induction cs arbitrary: s)
  case (Cons c cs)
  have "\<exists>s'. rb_call X clock c s = Some s' \<and> rb_keeps X limits s'"
    by (cases c) (simp_all only: rb_call.simps, (rule wp_map_snd, rule rb_snapshot_keeps
      rb_begin_keeps rb_finish_keeps rb_check_retry_after_keeps, rule Cons.prems)+)
  then show ?case using Cons.IH by auto
qed simp

end

section \<open>Properties\<close>


lemma manual_ledger_new:
  "n \<le> max_nanos \<Longrightarrow>
   ledger_rel (manual_deps :: (_, _, _, _, 'w) deps) (led_new n)
     (bs_new (manual_deps :: (_, _, _, _, 'w) deps) (0, of_nanos n) limits)"
  using manual.ledger_new [of "(0, of_nanos n)" limits] by (simp add: nanos_at_def)

text \<open>A manual clock that advances by one nanosecond at each reading.\<close>

definition ticking_clock :: "(nat \<times> duration, nat) clock_reader" where
  "ticking_clock w = ((0, of_nanos w), w + 1)"

definition sample_limits :: retry_admission_limits where
  "sample_limits = admission_limits_new (Abs_nonzero_u32 2) None (Some (of_nanos 50))"


text \<open>
  C18. Whatever calls a client makes on a public budget, in whatever order, with whatever
  tokens and clock, no call panics, the admitted attempts never exceed the limit, and the
  elapsed times stay ordered: last attempt within all operations within the whole flow.
\<close>

theorem budget_history_sound:
  assumes "deps_laws X" and "rb_new X clock domain owner limits w = (Inr rb, w1)"
  shows "\<exists>rb' w' snap. rb_calls X clock calls (rb, w1) = Some (rb', w') \<and>
    bs_snapshot X (rb_state rb') = Some snap \<and>
    unat (snap_attempts snap) \<le> unat (nz_get (lim_max_attempts limits)) \<and>
    snap_attempt_elapsed snap \<le> snap_operation_elapsed snap \<and>
    snap_operation_elapsed snap \<le> snap_total_elapsed snap"
proof -
  have "rb_keeps X limits (rb, w1)"
    using assms(2) deps_laws.inv_new [OF assms(1)]
    by (auto simp: rb_new_def rb_keeps_def bs_limits_new split: prod.splits sum.splits)
  then obtain rb' w' where run: "rb_calls X clock calls (rb, w1) = Some (rb', w')"
      and keeps: "bs_inv X (rb_state rb')" "bs_limits (rb_state rb') = limits"
    using deps_laws.rb_calls_keeps [OF assms(1), of limits "(rb, w1)" clock calls]
    by (auto simp: rb_keeps_def)
  obtain snap where "bs_snapshot X (rb_state rb') = Some snap"
      "snap_attempts snap = bs_attempts X (rb_state rb')"
      "snap_attempt_elapsed snap \<le> snap_operation_elapsed snap"
      "snap_operation_elapsed snap \<le> snap_total_elapsed snap"
    using deps_laws.inv_snapshot [OF assms(1) keeps(1)] by blast
  then show ?thesis
    using run keeps deps_laws.inv_attempts_le [OF assms(1) keeps(1)] by auto
qed

lemma budget_history_sound_witness:
  "\<exists>rb' w' snap. rb_calls tick_deps ticking_clock
      [CallBegin, CallBegin, CallFinish \<lparr>att_number = 1, att_owner = 7\<rparr>, CallSnapshot]
      (\<lparr>rb_state = bs_new tick_deps (0, of_nanos 3) sample_limits, rb_owner = 7\<rparr>, 4) =
        Some (rb', w') \<and>
    bs_snapshot tick_deps (rb_state rb') = Some snap \<and>
    unat (snap_attempts snap) \<le> unat (nz_get (lim_max_attempts sample_limits)) \<and>
    snap_attempt_elapsed snap \<le> snap_operation_elapsed snap \<and>
    snap_operation_elapsed snap \<le> snap_total_elapsed snap"
  by (rule budget_history_sound [OF manual.deps_laws_axioms,
        where domain = 0 and w = 3 and owner = 7])
    (simp add: rb_new_def ticking_clock_def manual_validate_def)



text \<open>
  C25. Completion by the public budget: a token of another budget, a token of an earlier
  attempt, or any token while no attempt is open is refused and nothing is read or
  changed; the token of the open attempt closes it and returns the account after it.
\<close>

theorem budget_completion_exact:
  assumes "deps_laws X" and "ledger_rel X L (rb_state rb)" and "clock w = (now, w')"
    and "accepts_sample X now (rb_state rb)"
  shows "if att_owner token = rb_owner rb \<and> led_open L \<noteq> None \<and>
      unat (att_number token) = led_attempts L
    then \<exists>snap rb'. rb_finish_attempt X clock token (rb, w) = Some (Inr snap, rb', w') \<and>
      ledger_rel X (led_finish (nanos_at X now) L) (rb_state rb') \<and>
      unat (snap_attempts snap) = led_attempts L \<and>
      as_nanos (snap_operation_elapsed snap) =
        led_operation L + as_nanos (snap_attempt_elapsed snap) \<and>
      as_nanos (snap_attempt_elapsed snap) = nanos_at X now - the (led_open L)
    else rb_finish_attempt X clock token (rb, w) = Some (Inl BudgetInvalidAttempt, rb, w)"
proof (cases "att_owner token = rb_owner rb \<and> led_open L \<noteq> None \<and>
      unat (att_number token) = led_attempts L")
  case False
  have "led_open L \<noteq> None \<longleftrightarrow> bs_has_active_attempt (rb_state rb)"
      "led_attempts L = unat (bs_attempts X (rb_state rb))"
    using assms(2) by (simp_all add: ledger_rel_def bs_attempts_def bs_has_active_attempt_def)
  then have "rb_owner rb \<noteq> att_owner token \<or> \<not> bs_has_active_attempt (rb_state rb) \<or>
      att_number token \<noteq> bs_attempts X (rb_state rb)"
    using False by metis
  then have "rb_finish_attempt X clock token (rb, w) = Some (Inl BudgetInvalidAttempt, rb, w)"
    by (simp add: rb_finish_attempt_def prog_defs)
  then show ?thesis using False by (simp only: if_False)
next
  case True
  let ?L = "led_finish (nanos_at X now) L"
  have valid: "rb_owner rb = att_owner token" "bs_has_active_attempt (rb_state rb)"
      "att_number token = bs_attempts X (rb_state rb)"
    using True assms(2)
    by (auto simp: ledger_rel_def bs_attempts_def bs_has_active_attempt_def word_unat_eq_iff)
  obtain st where st: "bs_finish_attempt X now (rb_state rb) = Some (Inr (), st)" "ledger_rel X ?L st"
    using wp_returns [OF deps_laws.finish_ledger [OF assms(1,2) valid(2), of now]] assms(4)
    by auto
  obtain snap where snap: "bs_snapshot X st = Some snap"
      "unat (snap_attempts snap) = led_attempts ?L"
      "as_nanos (snap_operation_elapsed snap) = led_operation ?L"
      "as_nanos (snap_attempt_elapsed snap) = led_last ?L"
    using deps_laws.snapshot_ledger [OF assms(1) st(2)] by blast
  obtain a where a: "led_open L = Some a" using True by auto
  then have "led_attempts ?L = led_attempts L" "led_last ?L = nanos_at X now - a"
      "led_operation ?L = led_operation L + (nanos_at X now - a)"
    by (simp_all add: led_finish_def led_attempts_def led_last_def led_operation_def
        interval_length_def)
  then show ?thesis
    using True a valid st snap assms(3)
    by (simp add: rb_finish_attempt_def rb_lift_def rb_now_def prog_defs)
qed

lemma budget_completion_exact_witness:
  "rb_finish_attempt tick_deps ticking_clock \<lparr>att_number = 1, att_owner = 8\<rparr>
     (\<lparr>rb_state = bs_new tick_deps (0, of_nanos 3) sample_limits, rb_owner = 7\<rparr>, 4) =
   Some (Inl BudgetInvalidAttempt,
     \<lparr>rb_state = bs_new tick_deps (0, of_nanos 3) sample_limits, rb_owner = 7\<rparr>, 4)"
proof -
  have "ledger_rel tick_deps (led_new 3) (rb_state
      \<lparr>rb_state = bs_new tick_deps (0, of_nanos 3) sample_limits, rb_owner = 7\<rparr>)"
    by (simp add: manual_ledger_new max_nanos_def nanos_per_sec_def)
  from budget_completion_exact [OF manual.deps_laws_axioms this,
      of ticking_clock 4 "(0, of_nanos 4)" 5 "\<lparr>att_number = 1, att_owner = 8\<rparr>"]
  show ?thesis
    by (simp add: ticking_clock_def nanos_at_def max_nanos_def nanos_per_sec_def led_new_def
        accepts_sample_def bs_new_def)
qed

end
