(* ===== verification/Flow_State.thy ===== *)
theory Flow_State
  imports Callbacks Budget
begin

text \<open>
  The state of one flow and the plans made from it (src/src/executor/internal/flow):
  \<open>RetryFlowState\<close> joins policy, budget, backoff sequence and flow timeout;
  \<open>EffectiveTimeout\<close> selects between the attempt and the flow limit; the prepared plans
  carry a deadline from preparation to commit.  A read that takes a budget snapshot has an
  outer option: \<open>None\<close> is the panic of that snapshot.
\<close>

section \<open>Timeouts and plans\<close>

record effective_timeout =
  eff_duration :: duration
  eff_scope :: retry_timeout_scope

definition effective_timeout_select ::
  "duration option \<Rightarrow> duration option \<Rightarrow> effective_timeout option"
where
  "effective_timeout_select attempt_timeout flow_remaining =
     (case (attempt_timeout, flow_remaining) of
        (Some a, Some f) \<Rightarrow>
          if a \<le> f then Some \<lparr>eff_duration = a, eff_scope = ScopeAttempt\<rparr>
          else Some \<lparr>eff_duration = f, eff_scope = ScopeFlow\<rparr>
      | (Some a, None) \<Rightarrow> Some \<lparr>eff_duration = a, eff_scope = ScopeAttempt\<rparr>
      | (None, Some f) \<Rightarrow> Some \<lparr>eff_duration = f, eff_scope = ScopeFlow\<rparr>
      | (None, None) \<Rightarrow> None)"

record 'i prepared_timeout =
  pt_deadline :: 'i
  pt_duration :: duration
  pt_scope :: retry_timeout_scope

definition prepared_timeout_new ::
  "'i \<Rightarrow> duration \<Rightarrow> retry_timeout_scope \<Rightarrow> 'i prepared_timeout"
where
  "prepared_timeout_new deadline duration scope =
     \<lparr>pt_deadline = deadline, pt_duration = duration, pt_scope = scope\<rparr>"

record 'i prepared_attempt_plan =
  plan_timeout :: "'i prepared_timeout option"

definition plan_from_timeout ::
  "('i \<times> duration \<times> retry_timeout_scope) option \<Rightarrow> 'i prepared_attempt_plan"
where
  "plan_from_timeout timeout =
     \<lparr>plan_timeout = map_option (\<lambda>(deadline, duration, scope).
        prepared_timeout_new deadline duration scope) timeout\<rparr>"

definition plan_deadline :: "'i prepared_attempt_plan \<Rightarrow> 'i option" where
  "plan_deadline plan = map_option pt_deadline (plan_timeout plan)"

definition plan_scope :: "'i prepared_attempt_plan \<Rightarrow> retry_timeout_scope option" where
  "plan_scope plan = map_option pt_scope (plan_timeout plan)"

definition plan_duration :: "'i prepared_attempt_plan \<Rightarrow> duration option" where
  "plan_duration plan = map_option pt_duration (plan_timeout plan)"

definition plan_deadline_and_scope ::
  "'i prepared_attempt_plan \<Rightarrow> ('i \<times> retry_timeout_scope) option"
where
  "plan_deadline_and_scope plan =
     map_option (\<lambda>timeout. (pt_deadline timeout, pt_scope timeout)) (plan_timeout plan)"

record 'i prepared_backoff_plan =
  bop_deadline :: 'i
  bop_immediate :: bool

definition backoff_plan_new :: "'i \<Rightarrow> bool \<Rightarrow> 'i prepared_backoff_plan" where
  "backoff_plan_new deadline immediate = \<lparr>bop_deadline = deadline, bop_immediate = immediate\<rparr>"

section \<open>The flow state\<close>

record ('i, 'b, 'w) flow_state =
  fs_policy :: retry_policy
  fs_budget :: "('i, 'b) budget_state"
  fs_backoff :: "'w backoff_state"
  fs_flow_timeout :: "duration option"

definition flow_new ::
  "('i, 'd, 'x, 'b, 'w) deps \<Rightarrow> 'i \<Rightarrow> retry_policy \<Rightarrow> 'w random_source option \<Rightarrow> duration option
     \<Rightarrow> ('i, 'b, 'w) flow_state"
where
  "flow_new X started_at policy random_source flow_timeout =
     \<lparr>fs_policy = policy,
      fs_budget = bs_new X started_at (pol_limits policy),
      fs_backoff = (case random_source of
                      None \<Rightarrow> backoff_start (pol_backoff policy)
                    | Some random \<Rightarrow>
                        backoff_start_with_random_source (pol_backoff policy) random),
      fs_flow_timeout = flow_timeout\<rparr>"

definition flow_timed_out ::
  "('i, 'd, 'x, 'b, 'w) deps \<Rightarrow> ('i, 'b, 'w) flow_state \<Rightarrow> bool option"
where
  "flow_timed_out X fs =
     (case fs_flow_timeout fs of
        None \<Rightarrow> Some False
      | Some limit \<Rightarrow>
          map_option (\<lambda>snap. limit \<le> snap_total_elapsed snap) (bs_snapshot X (fs_budget fs)))"

definition flow_retry_limit ::
  "('i, 'd, 'x, 'b, 'w) deps \<Rightarrow> duration \<Rightarrow> ('i, 'b, 'w) flow_state \<Rightarrow> retry_limit_kind option option"
where
  "flow_retry_limit X delay fs = bs_retry_limit X delay (fs_budget fs)"

definition flow_continuation_limit ::
  "('i, 'd, 'x, 'b, 'w) deps \<Rightarrow> ('i, 'b, 'w) flow_state \<Rightarrow> retry_limit_kind option option"
where
  "flow_continuation_limit X fs = bs_retry_limit X 0 (fs_budget fs)"

definition flow_remaining ::
  "('i, 'd, 'x, 'b, 'w) deps \<Rightarrow> ('i, 'b, 'w) flow_state \<Rightarrow> duration option option"
where
  "flow_remaining X fs =
     (case fs_flow_timeout fs of
        None \<Rightarrow> Some None
      | Some limit \<Rightarrow>
          map_option (\<lambda>snap. Some (dur_saturating_sub limit (snap_total_elapsed snap)))
            (bs_snapshot X (fs_budget fs)))"

definition flow_deadline ::
  "('i, 'd, 'x, 'b, 'w) deps \<Rightarrow> ('i, 'b, 'w) flow_state \<Rightarrow> 'x + 'i option"
where
  "flow_deadline X fs =
     transpose_map (\<lambda>timeout. instant_checked_add X (bs_started_at (fs_budget fs)) timeout)
       (fs_flow_timeout fs)"

definition flow_effective_timeout ::
  "('i, 'd, 'x, 'b, 'w) deps \<Rightarrow> duration option \<Rightarrow> ('i, 'b, 'w) flow_state
     \<Rightarrow> effective_timeout option option"
where
  "flow_effective_timeout X attempt_timeout fs =
     map_option (effective_timeout_select attempt_timeout) (flow_remaining X fs)"

definition flow_backoff_deadline ::
  "('i, 'd, 'x, 'b, 'w) deps \<Rightarrow> 'i \<Rightarrow> duration \<Rightarrow> ('i, 'b, 'w) flow_state \<Rightarrow> 'x + 'i"
where
  "flow_backoff_deadline X now delay fs =
     (case flow_deadline X fs of
        Inl e \<Rightarrow> Inl e
      | Inr None \<Rightarrow> instant_checked_add X now delay
      | Inr (Some deadline) \<Rightarrow>
          (case validate_domain X deadline (instant_domain X now) of
             Inl e \<Rightarrow> Inl e
           | Inr _ \<Rightarrow>
               (let remaining = dur_saturating_sub (since_origin X deadline) (since_origin X now)
                in if remaining \<le> delay then Inr deadline
                   else instant_checked_add X now delay)))"

definition flow_next_attempt ::
  "('i, 'd, 'x, 'b, 'w) deps \<Rightarrow> ('i, 'b, 'w) flow_state \<Rightarrow> nonzero_u32 option"
where
  "flow_next_attempt X fs = nz_new (u32_saturating_add (bs_attempts X (fs_budget fs)) 1)"

definition flow_context ::
  "('i, 'd, 'x, 'b, 'w) deps \<Rightarrow> nonzero_u32 option \<Rightarrow> ('i, 'b, 'w) flow_state
     \<Rightarrow> retry_context option"
where
  "flow_context X current_attempt fs =
     map_option (\<lambda>snap.
       (let limits = pol_limits (fs_policy fs)
        in context_from_parts
             \<lparr>part_attempts = snap_attempts snap,
              part_current_attempt = current_attempt,
              part_max_attempts = nz_get (lim_max_attempts limits),
              part_operation_time_budget = lim_operation_time_budget limits,
              part_total_time_budget = lim_total_time_budget limits,
              part_operation_elapsed = snap_operation_elapsed snap,
              part_total_elapsed = snap_total_elapsed snap,
              part_last_attempt_elapsed = snap_attempt_elapsed snap,
              part_current_hard_attempt_timeout = None,
              part_next_delay = None,
              part_retry_after_hint = None\<rparr>))
       (bs_snapshot X (fs_budget fs))"

text \<open>The budget's programs, run on the budget inside the flow state.\<close>

definition flow_lift ::
  "(('i, 'b) budget_state, 'x, 'a) prog \<Rightarrow> (('i, 'b, 'w) flow_state, 'x, 'a) prog"
where
  "flow_lift m = (\<lambda>fs. case m (fs_budget fs) of
       None \<Rightarrow> None
     | Some (r, st) \<Rightarrow> Some (r, fs\<lparr>fs_budget := st\<rparr>))"

definition flow_refresh ::
  "('i, 'd, 'x, 'b, 'w) deps \<Rightarrow> 'i \<Rightarrow> (('i, 'b, 'w) flow_state, 'x, unit) prog"
where
  "flow_refresh X now = flow_lift (bs_refresh X now)"

definition flow_begin_attempt ::
  "('i, 'd, 'x, 'b, 'w) deps \<Rightarrow> 'i \<Rightarrow> (('i, 'b, 'w) flow_state, 'x, unit) prog"
where
  "flow_begin_attempt X now = flow_lift (bs_begin_attempt X now)"

definition flow_finish_attempt ::
  "('i, 'd, 'x, 'b, 'w) deps \<Rightarrow> 'i \<Rightarrow> (('i, 'b, 'w) flow_state, 'x, unit) prog"
where
  "flow_finish_attempt X now = flow_lift (bs_finish_attempt X now)"

definition flow_finish_for_infrastructure ::
  "('i, 'd, 'x, 'b, 'w) deps \<Rightarrow> 'i \<Rightarrow> (('i, 'b, 'w) flow_state, 'x, unit) prog"
where
  "flow_finish_for_infrastructure X now =
     andthen (reads (\<lambda>fs. bs_has_active_attempt (fs_budget fs))) (\<lambda>active.
     if active then flow_finish_attempt X now else flow_refresh X now)"

definition backoff_request_of :: "retry_decision \<Rightarrow> backoff_request" where
  "backoff_request_of decision =
     (case decision of
        RetryWithHint delay \<Rightarrow> request_hint delay
      | RetryWithJitteredHint delay \<Rightarrow> request_jittered_hint delay
      | DecisionRetry \<Rightarrow> request_policy
      | UseDefault \<Rightarrow> request_policy
      | DecisionAbort \<Rightarrow> request_policy)"

definition flow_next_backoff ::
  "('i, 'd, 'x, 'b, 'w) deps \<Rightarrow> retry_decision \<Rightarrow> ('i, 'b, 'w) flow_state \<Rightarrow> 'w
     \<Rightarrow> backoff_step \<times> ('i, 'b, 'w) flow_state \<times> 'w"
where
  "flow_next_backoff X decision fs w =
     (let (step, backoff, w') = backoff_next X (backoff_request_of decision) (fs_backoff fs) w
      in (step, fs\<lparr>fs_backoff := backoff\<rparr>, w'))"

section \<open>Invariant\<close>

definition fs_inv :: "('i, 'd, 'x, 'b, 'w) deps \<Rightarrow> ('i, 'b, 'w) flow_state \<Rightarrow> bool" where
  "fs_inv X fs \<longleftrightarrow>
     bs_inv X (fs_budget fs) \<and> bs_limits (fs_budget fs) = pol_limits (fs_policy fs)"

definition fs_attempts :: "('i, 'd, 'x, 'b, 'w) deps \<Rightarrow> ('i, 'b, 'w) flow_state \<Rightarrow> nat" where
  "fs_attempts X fs = unat (bs_attempts X (fs_budget fs))"

definition fs_max :: "('i, 'b, 'w) flow_state \<Rightarrow> nat" where
  "fs_max fs = unat (nz_get (lim_max_attempts (pol_limits (fs_policy fs))))"

definition fs_active :: "('i, 'b, 'w) flow_state \<Rightarrow> bool" where
  "fs_active fs \<longleftrightarrow> bs_has_active_attempt (fs_budget fs)"

text \<open>Everything an operation on the budget leaves alone.\<close>

definition fs_frame :: "('i, 'b, 'w) flow_state \<Rightarrow> ('i, 'b, 'w) flow_state \<Rightarrow> bool" where
  "fs_frame fs fs' \<longleftrightarrow>
     fs_policy fs' = fs_policy fs \<and> fs_flow_timeout fs' = fs_flow_timeout fs \<and>
     bs_started_at (fs_budget fs') = bs_started_at (fs_budget fs)"

lemma fs_frame_refl [simp]: "fs_frame fs fs"
  by (simp add: fs_frame_def)

lemma fs_frame_trans: "fs_frame a b \<Longrightarrow> fs_frame b c \<Longrightarrow> fs_frame a c"
  by (simp add: fs_frame_def)

lemma fs_frame_max: "fs_frame fs fs' \<Longrightarrow> fs_max fs' = fs_max fs"
  by (simp add: fs_frame_def fs_max_def)

lemma wp_flow_lift [wp_rules, simp]:
  "wp (flow_lift m) Q E = (\<lambda>fs. wp m (\<lambda>a st. Q a (fs\<lparr>fs_budget := st\<rparr>))
     (\<lambda>e st. E e (fs\<lparr>fs_budget := st\<rparr>)) (fs_budget fs))"
  by (auto simp: wp_def flow_lift_def fun_eq_iff split: option.split sum.split)

lemma flow_next_attempt_some: "\<exists>n. flow_next_attempt X fs = Some n"
  by (simp add: flow_next_attempt_def u32_saturating_succ_nonzero nz_new_def)

context deps_laws
begin

lemma fs_inv_new [simp]: "fs_inv X (flow_new X t policy random timeout)"
  by (simp add: fs_inv_def flow_new_def)

lemma fs_new_facts [simp]:
  "fs_attempts X (flow_new X t policy random timeout) = 0"
  "\<not> fs_active (flow_new X t policy random timeout)"
  by (simp_all add: fs_attempts_def fs_active_def flow_new_def bs_attempts_def bs_new_def
      new_used bs_has_active_attempt_def)

lemma fs_snapshot_some:
  assumes "fs_inv X fs"
  shows "\<exists>snap. bs_snapshot X (fs_budget fs) = Some snap \<and>
    snap_operation_elapsed snap \<le> snap_total_elapsed snap \<and>
    snap_attempt_elapsed snap \<le> snap_operation_elapsed snap \<and>
    snap_attempts snap = bs_attempts X (fs_budget fs)"
proof -
  have "bs_inv X (fs_budget fs)" using assms by (simp add: fs_inv_def)
  from inv_snapshot [OF this] show ?thesis by blast
qed

lemma fs_attempts_le: "fs_inv X fs \<Longrightarrow> fs_attempts X fs \<le> fs_max fs"
  using inv_attempts_le [of "fs_budget fs"] by (simp add: fs_inv_def fs_attempts_def fs_max_def)

lemma fs_reads_some:
  assumes "fs_inv X fs"
  shows "\<exists>b. flow_timed_out X fs = Some b"
    and "\<exists>r. flow_retry_limit X delay fs = Some r"
    and "\<exists>r. flow_continuation_limit X fs = Some r"
    and "\<exists>r. flow_effective_timeout X tm fs = Some r"
    and "\<exists>c. flow_context X n fs = Some c"
proof -
  obtain snap where "bs_snapshot X (fs_budget fs) = Some snap"
    using fs_snapshot_some [OF assms] by blast
  then show "\<exists>b. flow_timed_out X fs = Some b" "\<exists>r. flow_effective_timeout X tm fs = Some r"
      "\<exists>c. flow_context X n fs = Some c"
    by (auto simp: flow_timed_out_def flow_effective_timeout_def flow_remaining_def
        flow_context_def split: option.split)
  show "\<exists>r. flow_retry_limit X delay fs = Some r" "\<exists>r. flow_continuation_limit X fs = Some r"
    using assms inv_retry_limit(1)
    by (simp_all add: fs_inv_def flow_retry_limit_def flow_continuation_limit_def)
qed

lemma fs_context_facts:
  assumes "fs_inv X fs" and "flow_context X n fs = Some c"
  shows "unat (ctx_attempts c) = fs_attempts X fs" and "unat (ctx_max_attempts c) = fs_max fs"
    and "ctx_current_attempt c = n"
    and "ctx_last_attempt_elapsed c \<le> ctx_operation_elapsed c"
    and "ctx_operation_elapsed c \<le> ctx_total_elapsed c"
  using assms fs_snapshot_some [OF assms(1)]
  by (auto simp: flow_context_def Let_def fs_attempts_def fs_max_def)

lemma fs_continuation_room:
  assumes "fs_inv X fs" and "flow_continuation_limit X fs = Some None"
  shows "fs_attempts X fs < fs_max fs"
  using assms inv_retry_limit(2) [of "fs_budget fs" 0] inv_remaining [of "fs_budget fs"]
  by (simp add: fs_inv_def flow_continuation_limit_def fs_attempts_def fs_max_def)

lemma fs_refresh:
  assumes "fs_inv X fs"
  shows "wp (flow_refresh X now)
    (\<lambda>_ fs'. fs_inv X fs' \<and> fs_frame fs fs' \<and> fs_attempts X fs' = fs_attempts X fs \<and>
       fs_active fs' = fs_active fs \<and> bs_sampled_at (fs_budget fs') = now \<and>
       accepts_sample X now (fs_budget fs) \<and> fs_backoff fs' = fs_backoff fs)
    (\<lambda>_ fs'. fs' = fs \<and> \<not> accepts_sample X now (fs_budget fs)) fs"
  using assms
  by (auto simp: flow_refresh_def fs_inv_def fs_frame_def fs_attempts_def fs_active_def
      bs_attempts_def bs_has_active_attempt_def intro!: wp_mono [OF inv_refresh])

lemma fs_begin:
  assumes "fs_inv X fs" and "\<not> fs_active fs" and "fs_attempts X fs < fs_max fs"
    and "bs_sampled_at (fs_budget fs) = now"
  shows "wp (flow_begin_attempt X now)
    (\<lambda>_ fs'. fs_inv X fs' \<and> fs_frame fs fs' \<and> fs_attempts X fs' = Suc (fs_attempts X fs) \<and>
       fs_active fs' \<and> bs_sampled_at (fs_budget fs') = now \<and> fs_backoff fs' = fs_backoff fs)
    (\<lambda>_ _. False) fs"
proof -
  have inv: "bs_inv X (fs_budget fs)" "\<not> bs_has_active_attempt (fs_budget fs)"
    using assms by (simp_all add: fs_inv_def fs_active_def)
  have "counter_remaining X (bs_counter (fs_budget fs)) \<noteq> 0"
    using assms inv_remaining [OF inv(1)] by (simp add: fs_inv_def fs_attempts_def fs_max_def)
  then show ?thesis
    using assms inv accepts_last_sample [of "fs_budget fs"]
    by (auto simp: flow_begin_attempt_def fs_inv_def fs_frame_def fs_attempts_def fs_active_def
        bs_has_active_attempt_def intro!: wp_mono [OF inv_begin])
qed

lemma fs_finish:
  assumes "fs_inv X fs" and "fs_active fs"
  shows "wp (flow_finish_attempt X now)
    (\<lambda>_ fs'. fs_inv X fs' \<and> fs_frame fs fs' \<and> fs_attempts X fs' = fs_attempts X fs \<and>
       \<not> fs_active fs' \<and> bs_sampled_at (fs_budget fs') = now \<and>
       accepts_sample X now (fs_budget fs) \<and> fs_backoff fs' = fs_backoff fs)
    (\<lambda>_ fs'. fs' = fs \<and> \<not> accepts_sample X now (fs_budget fs)) fs"
  using assms
  by (auto simp: flow_finish_attempt_def fs_inv_def fs_frame_def fs_attempts_def fs_active_def
      bs_has_active_attempt_def intro!: wp_mono [OF inv_finish])

lemma fs_finish_for_infrastructure:
  assumes "fs_inv X fs"
  shows "wp (flow_finish_for_infrastructure X now)
    (\<lambda>_ fs'. fs_inv X fs' \<and> fs_frame fs fs' \<and> fs_attempts X fs' = fs_attempts X fs \<and>
       \<not> fs_active fs')
    (\<lambda>_ fs'. fs' = fs) fs"
  using assms
  by (cases "fs_active fs")
    (auto simp: flow_finish_for_infrastructure_def fs_active_def
      intro!: wp_mono [OF fs_finish] wp_mono [OF fs_refresh])

end

section \<open>Properties\<close>

text \<open>
  The timeout that governs an attempt is the smaller of the configured attempt timeout
  and what remains of the flow timeout, it exists exactly when one of them does, and a tie
  is attributed to the attempt.
\<close>

theorem effective_timeout_is_minimum:
  "map_option eff_duration (effective_timeout_select a f) =
     (case (a, f) of
        (None, _) \<Rightarrow> f
      | (_, None) \<Rightarrow> a
      | (Some x, Some y) \<Rightarrow> Some (min x y)) \<and>
   (map_option eff_scope (effective_timeout_select a f) = Some ScopeAttempt \<longleftrightarrow>
      (\<exists>x. a = Some x \<and> (case f of None \<Rightarrow> True | Some y \<Rightarrow> x \<le> y))) \<and>
   (map_option eff_scope (effective_timeout_select a f) = Some ScopeFlow \<longleftrightarrow>
      (\<exists>y. f = Some y \<and> (case a of None \<Rightarrow> True | Some x \<Rightarrow> y < x)))"
  by (cases a; cases f) (auto simp: effective_timeout_select_def min_def)



end
