(* ===== verification/Config.thy ===== *)
theory Config
  imports Flow_State
begin

text \<open>
  The execution configuration (src/src/executor/retry_config.rs and its builder): policy,
  fallback, rules and observers, and the completion callbacks every facade runs on its
  terminal result.
\<close>

section \<open>Configuration\<close>

record ('e, 'w) retry_config =
  cfg_policy :: retry_policy
  cfg_fallback :: retry_fallback
  cfg_rules :: "('e, 'w) retry_rule list"
  cfg_observers :: "('e, 'w) retry_observer list"

definition config_new ::
  "retry_policy \<Rightarrow> retry_fallback \<Rightarrow> ('e, 'w) retry_rule list \<Rightarrow> ('e, 'w) retry_observer list
     \<Rightarrow> ('e, 'w) retry_config"
where
  "config_new policy fallback rules observers =
     \<lparr>cfg_policy = policy, cfg_fallback = fallback, cfg_rules = rules,
      cfg_observers = observers\<rparr>"

text \<open>\<open>complete\<close>: the matching notification runs and its failures are attached.\<close>

definition config_complete ::
  "('e, 'w) retry_config \<Rightarrow> ('t, 'e) retry_result \<Rightarrow> 'w \<Rightarrow> ('t, 'e) retry_result \<times> 'w"
where
  "config_complete cfg result w =
     (case result of
        Inr success \<Rightarrow>
          (let (diagnostics, w') = notify_success (cfg_observers cfg) (suc_context success) w
           in (Inr (success_set_completion_callback_failures diagnostics success), w'))
      | Inl error \<Rightarrow>
          (let (diagnostics, w') =
             notify_terminal_failure (cfg_observers cfg) (err_reason error) (err_context error) w
           in (Inl (error_set_completion_callback_failures diagnostics error), w')))"

section \<open>Builder\<close>

record ('e, 'w) config_builder =
  cb_policy_builder :: retry_policy_builder
  cb_built_policy :: "retry_policy option"
  cb_fallback :: retry_fallback
  cb_rules :: "('e, 'w) retry_rule list"
  cb_observers :: "('e, 'w) retry_observer list"

definition config_builder_new :: "('e, 'w) config_builder" where
  "config_builder_new =
     \<lparr>cb_policy_builder = policy_builder_new, cb_built_policy = None,
      cb_fallback = FallbackAbort, cb_rules = [], cb_observers = []\<rparr>"

definition config_builder_start :: "('e, 'w) config_builder" where
  "config_builder_start = config_builder_new"

text \<open>\<open>ensure_policy_builder\<close>: a policy set as a whole becomes the builder's settings.\<close>

definition ensure_policy_builder :: "('e, 'w) config_builder \<Rightarrow> ('e, 'w) config_builder" where
  "ensure_policy_builder b =
     (case cb_built_policy b of
        None \<Rightarrow> b
      | Some policy \<Rightarrow>
          b\<lparr>cb_built_policy := None, cb_policy_builder := policy_builder_from_policy policy\<rparr>)"

text \<open>The common body of the setters: ensure the builder, then update it.\<close>

definition cfg_on_policy ::
  "(retry_policy_builder \<Rightarrow> retry_policy_builder) \<Rightarrow> ('e, 'w) config_builder
     \<Rightarrow> ('e, 'w) config_builder"
where
  "cfg_on_policy f b =
     (let b' = ensure_policy_builder b
      in b'\<lparr>cb_policy_builder := f (cb_policy_builder b')\<rparr>)"

definition cfg_set_policy ::
  "retry_policy \<Rightarrow> ('e, 'w) config_builder \<Rightarrow> ('e, 'w) config_builder"
where
  "cfg_set_policy policy b = b\<lparr>cb_built_policy := Some policy\<rparr>"

definition cfg_max_attempts ::
  "u32 \<Rightarrow> ('e, 'w) config_builder \<Rightarrow> ('e, 'w) config_builder"
where
  "cfg_max_attempts n b = cfg_on_policy (pb_set_max_attempts n) b"

definition cfg_operation_time_budget ::
  "duration \<Rightarrow> ('e, 'w) config_builder \<Rightarrow> ('e, 'w) config_builder"
where
  "cfg_operation_time_budget d b = cfg_on_policy (pb_set_operation_time_budget d) b"

definition cfg_operation_time_budget_opt ::
  "duration option \<Rightarrow> ('e, 'w) config_builder \<Rightarrow> ('e, 'w) config_builder"
where
  "cfg_operation_time_budget_opt x b = cfg_on_policy (pb_set_operation_time_budget_opt x) b"

definition cfg_without_operation_time_budget ::
  "('e, 'w) config_builder \<Rightarrow> ('e, 'w) config_builder"
where
  "cfg_without_operation_time_budget b = cfg_on_policy (pb_without_operation_time_budget) b"

definition cfg_total_time_budget ::
  "duration \<Rightarrow> ('e, 'w) config_builder \<Rightarrow> ('e, 'w) config_builder"
where
  "cfg_total_time_budget d b = cfg_on_policy (pb_set_total_time_budget d) b"

definition cfg_total_time_budget_opt ::
  "duration option \<Rightarrow> ('e, 'w) config_builder \<Rightarrow> ('e, 'w) config_builder"
where
  "cfg_total_time_budget_opt y b = cfg_on_policy (pb_set_total_time_budget_opt y) b"

definition cfg_without_total_time_budget ::
  "('e, 'w) config_builder \<Rightarrow> ('e, 'w) config_builder"
where
  "cfg_without_total_time_budget b = cfg_on_policy (pb_without_total_time_budget) b"

definition cfg_backoff ::
  "backoff_policy \<Rightarrow> ('e, 'w) config_builder \<Rightarrow> ('e, 'w) config_builder"
where
  "cfg_backoff p b = cfg_on_policy (pb_set_backoff p) b"

definition cfg_rule :: "('e, 'w) retry_rule \<Rightarrow> ('e, 'w) config_builder \<Rightarrow> ('e, 'w) config_builder"
where
  "cfg_rule rule b = b\<lparr>cb_rules := cb_rules b @ [rule]\<rparr>"

definition cfg_shared_rule ::
  "('e, 'w) retry_rule \<Rightarrow> ('e, 'w) config_builder \<Rightarrow> ('e, 'w) config_builder"
where
  "cfg_shared_rule rule b = b\<lparr>cb_rules := cb_rules b @ [rule]\<rparr>"

definition cfg_set_fallback ::
  "retry_fallback \<Rightarrow> ('e, 'w) config_builder \<Rightarrow> ('e, 'w) config_builder"
where
  "cfg_set_fallback fallback b = b\<lparr>cb_fallback := fallback\<rparr>"

definition cfg_observer ::
  "('e, 'w) retry_observer \<Rightarrow> ('e, 'w) config_builder \<Rightarrow> ('e, 'w) config_builder"
where
  "cfg_observer observer b = b\<lparr>cb_observers := cb_observers b @ [observer]\<rparr>"

definition cfg_shared_observer ::
  "('e, 'w) retry_observer \<Rightarrow> ('e, 'w) config_builder \<Rightarrow> ('e, 'w) config_builder"
where
  "cfg_shared_observer observer b = b\<lparr>cb_observers := cb_observers b @ [observer]\<rparr>"

definition config_build :: "('e, 'w) config_builder \<Rightarrow> retry_policy_error + ('e, 'w) retry_config"
where
  "config_build b =
     (case (case cb_built_policy b of
              Some policy \<Rightarrow> Inr policy
            | None \<Rightarrow> policy_build (cb_policy_builder b)) of
        Inl e \<Rightarrow> Inl e
      | Inr policy \<Rightarrow> Inr (config_new policy (cb_fallback b) (cb_rules b) (cb_observers b)))"

section \<open>Refinement of the policy builder\<close>

text \<open>The policy settings a configuration builder stands for.\<close>

definition cfg_settings :: "('e, 'w) config_builder \<Rightarrow> retry_policy_builder" where
  "cfg_settings b =
     (case cb_built_policy b of
        None \<Rightarrow> cb_policy_builder b
      | Some policy \<Rightarrow> policy_builder_from_policy policy)"

lemma cfg_settings_on_policy [simp]: "cfg_settings (cfg_on_policy f b) = f (cfg_settings b)"
  by (simp add: cfg_settings_def cfg_on_policy_def ensure_policy_builder_def Let_def
      split: option.split)

lemma policy_build_from_policy: "policy_build (policy_builder_from_policy p) = Inr p"
  by (cases p; cases "pol_limits p")
    (simp add: policy_build_def policy_builder_from_policy_fields policy_new_def
      admission_limits_new_def)

lemma config_complete_Inr:
  "config_complete cfg (Inr s) w =
     (Inr (s\<lparr>suc_completion_callback_failures :=
         fst (notify_success (cfg_observers cfg) (suc_context s) w)\<rparr>),
      snd (notify_success (cfg_observers cfg) (suc_context s) w))"
  by (simp add: config_complete_def success_set_completion_callback_failures_def case_prod_beta)

lemma config_complete_Inl:
  "config_complete cfg (Inl e) w =
     (Inl (e\<lparr>err_completion_callback_failures :=
         fst (notify_terminal_failure (cfg_observers cfg) (err_reason e) (err_context e) w)\<rparr>),
      snd (notify_terminal_failure (cfg_observers cfg) (err_reason e) (err_context e) w))"
  by (simp add: config_complete_def error_set_completion_callback_failures_def case_prod_beta)

section \<open>Properties\<close>

text \<open>
  C36. The configuration builder refines the policy builder: whatever mixture of whole
  policies and single settings is applied, each call acts on the settings the builder
  stands for as the policy builder's own call does, a whole policy replaces them all, and
  building yields the policy of those settings with the collected rules and observers.
\<close>

theorem config_builder_refines_policy_builder:
  "cfg_settings (cfg_set_policy policy b) = policy_builder_from_policy policy \<and>
   cfg_settings (cfg_max_attempts n b) = pb_set_max_attempts n (cfg_settings b) \<and>
   cfg_settings (cfg_operation_time_budget d b) = pb_set_operation_time_budget d (cfg_settings b) \<and>
   cfg_settings (cfg_operation_time_budget_opt x b) = pb_set_operation_time_budget_opt x (cfg_settings b) \<and>
   cfg_settings (cfg_without_operation_time_budget b) = pb_without_operation_time_budget (cfg_settings b) \<and>
   cfg_settings (cfg_total_time_budget d b) = pb_set_total_time_budget d (cfg_settings b) \<and>
   cfg_settings (cfg_total_time_budget_opt y b) = pb_set_total_time_budget_opt y (cfg_settings b) \<and>
   cfg_settings (cfg_without_total_time_budget b) = pb_without_total_time_budget (cfg_settings b) \<and>
   cfg_settings (cfg_backoff p b) = pb_set_backoff p (cfg_settings b) \<and>
   config_build b =
     map_right (\<lambda>policy. config_new policy (cb_fallback b) (cb_rules b) (cb_observers b))
       (policy_build (cfg_settings b))"
proof -
  have "config_build b =
     map_right (\<lambda>policy. config_new policy (cb_fallback b) (cb_rules b) (cb_observers b))
       (policy_build (cfg_settings b))"
    by (cases "cb_built_policy b")
      (simp_all add: config_build_def cfg_settings_def map_right_def policy_build_from_policy)
  then show ?thesis
    by (simp add: cfg_max_attempts_def cfg_operation_time_budget_def cfg_operation_time_budget_opt_def
        cfg_without_operation_time_budget_def cfg_total_time_budget_def
        cfg_total_time_budget_opt_def
        cfg_without_total_time_budget_def cfg_backoff_def)
      (simp add: cfg_settings_def cfg_set_policy_def)
qed

text \<open>
  Completing a result never changes it: a success keeps its value and context, an
  error its reason, last failure and context; only the diagnostics are replaced, by the
  failures of one notification of the matching kind with the result's own context.
\<close>

theorem completion_preserves_result:
  "(case config_complete cfg result w of
      (Inr s', w') \<Rightarrow> \<exists>s. result = Inr s \<and> suc_value s' = suc_value s \<and>
        suc_context s' = suc_context s \<and>
        (suc_completion_callback_failures s', w') =
          notify_success (cfg_observers cfg) (suc_context s) w
    | (Inl e', w') \<Rightarrow> \<exists>e. result = Inl e \<and> err_reason e' = err_reason e \<and>
        err_last_failure e' = err_last_failure e \<and> err_context e' = err_context e \<and>
        (err_completion_callback_failures e', w') =
          notify_terminal_failure (cfg_observers cfg) (err_reason e) (err_context e) w)"
  by (cases result) (simp_all add: config_complete_Inr config_complete_Inl)

end
