(* ===== verification/Controller.thy ===== *)
theory Controller
  imports Config
begin

text \<open>
  The shared control of every retry facade
  (src/src/executor/internal/flow/retry_flow_controller.rs): admission, preparation and
  commit of attempts, the decision after a failure, and the construction of every terminal
  error.  A method is a program over the controller and the world; its \<open>Err\<close> is the
  terminal error.  The clock is a step of the world, the cancellation token an optional
  read of the world (another thread may cancel between two reads).
\<close>

section \<open>State\<close>

record ('i, 'b, 'w, 'e) flow_controller =
  fc_state :: "('i, 'b, 'w) flow_state"
  fc_rules :: "('e, 'w) retry_rule list"
  fc_observers :: "('e, 'w) retry_observer list"
  fc_fallback :: retry_fallback
  fc_last_failure :: "'e attempt_failure option"
  fc_attempt_timeout :: "duration option"
  fc_current_attempt :: "nonzero_u32 option"
  fc_current_hard_attempt_timeout :: "duration option"
  fc_next_delay :: "duration option"
  fc_retry_after_hint :: "duration option"

type_synonym ('i, 'b, 'w, 'e, 'x, 'a) ctl = "(('i, 'b, 'w, 'e) flow_controller \<times> 'w, 'x, 'a) prog"

text \<open>\<open>is_cancelled\<close> of an optional token.\<close>

type_synonym 'w cancellation = "('w \<Rightarrow> bool \<times> 'w) option"

definition ctl_new ::
  "('i, 'd, 'x, 'b, 'w) deps \<Rightarrow> 'i \<Rightarrow> ('e, 'w) retry_config \<Rightarrow> 'w random_source option
     \<Rightarrow> duration option \<Rightarrow> duration option \<Rightarrow> ('i, 'b, 'w, 'e) flow_controller"
where
  "ctl_new X started_at config random_source attempt_timeout flow_timeout =
     \<lparr>fc_state = flow_new X started_at (cfg_policy config) random_source flow_timeout,
      fc_rules = cfg_rules config,
      fc_observers = cfg_observers config,
      fc_fallback = cfg_fallback config,
      fc_last_failure = None,
      fc_attempt_timeout = attempt_timeout,
      fc_current_attempt = None,
      fc_current_hard_attempt_timeout = None,
      fc_next_delay = None,
      fc_retry_after_hint = None\<rparr>"

section \<open>Access to the parts of the state\<close>

definition ctl_now :: "('i, 'w) clock_reader \<Rightarrow> ('i, 'b, 'w, 'e, 'x, 'i) ctl" where
  "ctl_now clock = (\<lambda>(fc, w). let (now, w') = clock w in Some (Inr now, fc, w'))"

definition ctl_set ::
  "(('i, 'b, 'w, 'e) flow_controller \<Rightarrow> ('i, 'b, 'w, 'e) flow_controller)
     \<Rightarrow> ('i, 'b, 'w, 'e, 'x, unit) ctl"
where
  "ctl_set f = updates (\<lambda>(fc, w). (f fc, w))"

definition ctl_get ::
  "(('i, 'b, 'w, 'e) flow_controller \<Rightarrow> 'a) \<Rightarrow> ('i, 'b, 'w, 'e, 'x, 'a) ctl"
where
  "ctl_get f = reads (\<lambda>(fc, w). f fc)"

text \<open>A read of the flow state that may panic.\<close>

definition ctl_query ::
  "(('i, 'b, 'w) flow_state \<Rightarrow> 'a option) \<Rightarrow> ('i, 'b, 'w, 'e, 'x, 'a) ctl"
where
  "ctl_query f = expect_reads (\<lambda>(fc, w). f (fc_state fc))"

text \<open>A program of the flow state, its \<open>Result\<close> given back as a value.\<close>

definition ctl_flow ::
  "(('i, 'b, 'w) flow_state, 'y, 'a) prog \<Rightarrow> ('i, 'b, 'w, 'e, 'x, 'y + 'a) ctl"
where
  "ctl_flow m = (\<lambda>(fc, w). case m (fc_state fc) of
       None \<Rightarrow> None
     | Some (r, fs) \<Rightarrow> Some (Inr r, fc\<lparr>fc_state := fs\<rparr>, w))"

text \<open>A callback: it sees the controller's data and steps the world.\<close>

definition ctl_call ::
  "(('i, 'b, 'w, 'e) flow_controller \<Rightarrow> 'w \<Rightarrow> 'a \<times> 'w) \<Rightarrow> ('i, 'b, 'w, 'e, 'x, 'a) ctl"
where
  "ctl_call f = (\<lambda>(fc, w). let (a, w') = f fc w in Some (Inr a, fc, w'))"

text \<open>\<open>state.next_backoff(decision)\<close>, which may draw a random sample from the world.\<close>

definition ctl_next_backoff ::
  "('i, 'd, 'y, 'b, 'w) deps \<Rightarrow> retry_decision \<Rightarrow> ('i, 'b, 'w, 'e, 'x, backoff_step) ctl"
where
  "ctl_next_backoff X decision = (\<lambda>(fc, w).
     let (step, fs, w') = flow_next_backoff X decision (fc_state fc) w
     in Some (Inr step, fc\<lparr>fc_state := fs\<rparr>, w'))"

definition ctl_is_cancelled :: "'w cancellation \<Rightarrow> ('i, 'b, 'w, 'e, 'x, bool) ctl" where
  "ctl_is_cancelled cancellation =
     (case cancellation of
        None \<Rightarrow> ok False
      | Some is_cancelled \<Rightarrow> ctl_call (\<lambda>fc. is_cancelled))"

section \<open>Snapshots and terminal errors\<close>

definition ctl_decorate ::
  "('i, 'b, 'w, 'e) flow_controller \<Rightarrow> retry_context \<Rightarrow> retry_context"
where
  "ctl_decorate fc context =
     (let context' = with_retry_after_hint (fc_retry_after_hint fc)
                       (with_hard_attempt_timeout (fc_current_hard_attempt_timeout fc) context)
      in (case fc_next_delay fc of
            None \<Rightarrow> context'
          | Some delay \<Rightarrow> with_next_delay delay context'))"

definition ctl_snapshot ::
  "('i, 'd, 'y, 'b, 'w) deps \<Rightarrow> ('i, 'b, 'w, 'e, 'x, retry_context) ctl"
where
  "ctl_snapshot X =
     andthen (ctl_get fc_current_attempt) (\<lambda>current.
     andthen (ctl_query (flow_context X current)) (\<lambda>context.
     ctl_get (\<lambda>fc. ctl_decorate fc context)))"

definition ctl_attempts ::
  "('i, 'd, 'y, 'b, 'w) deps \<Rightarrow> ('i, 'b, 'w, 'e, 'x, u32) ctl"
where
  "ctl_attempts X =
     andthen (ctl_query (flow_context X None)) (\<lambda>context. ok (ctx_attempts context))"

text \<open>\<open>last_failure.take()\<close>.\<close>

definition ctl_take_last_failure :: "('i, 'b, 'w, 'e, 'x, 'e attempt_failure option) ctl" where
  "ctl_take_last_failure =
     andthen (ctl_get fc_last_failure) (\<lambda>failure.
     andthen (ctl_set (\<lambda>fc. fc\<lparr>fc_last_failure := None\<rparr>)) (\<lambda>_.
     ok failure))"

definition ctl_clear_current_attempt :: "('i, 'b, 'w, 'e, 'x, unit) ctl" where
  "ctl_clear_current_attempt =
     ctl_set (\<lambda>fc. fc\<lparr>fc_current_attempt := None, fc_current_hard_attempt_timeout := None\<rparr>)"

definition ctl_aborted ::
  "('i, 'd, 'y, 'b, 'w) deps \<Rightarrow> ('i, 'b, 'w, 'e, 'x, 'e retry_error) ctl"
where
  "ctl_aborted X =
     andthen ctl_take_last_failure (\<lambda>taken.
     andthen (expect taken) (\<lambda>last_failure.
     andthen ctl_clear_current_attempt (\<lambda>_.
     andthen (ctl_snapshot X) (\<lambda>context.
     ok (retry_error_new ReasonAborted (Some last_failure) context)))))"

definition ctl_exhausted ::
  "('i, 'd, 'y, 'b, 'w) deps \<Rightarrow> retry_limit_kind \<Rightarrow> ('i, 'b, 'w, 'e, 'x, 'e retry_error) ctl"
where
  "ctl_exhausted X limit =
     andthen ctl_clear_current_attempt (\<lambda>_.
     andthen ctl_take_last_failure (\<lambda>last_failure.
     andthen (ctl_snapshot X) (\<lambda>context.
     ok (retry_error_new (ReasonExhausted limit) last_failure context))))"

definition ctl_timed_out ::
  "('i, 'd, 'y, 'b, 'w) deps \<Rightarrow> retry_timeout_scope \<Rightarrow> ('i, 'b, 'w, 'e, 'x, 'e retry_error) ctl"
where
  "ctl_timed_out X scope =
     andthen ctl_clear_current_attempt (\<lambda>_.
     andthen ctl_take_last_failure (\<lambda>last_failure.
     andthen (ctl_snapshot X) (\<lambda>context.
     ok (retry_error_new (ReasonTimedOut scope) last_failure context))))"

definition ctl_cancelled_with_context ::
  "retry_cancellation_phase \<Rightarrow> retry_context \<Rightarrow> ('i, 'b, 'w, 'e, 'x, 'e retry_error) ctl"
where
  "ctl_cancelled_with_context phase context =
     andthen ctl_take_last_failure (\<lambda>last_failure.
     ok (retry_error_new (ReasonCancelled phase) last_failure context))"

definition ctl_cancelled ::
  "('i, 'd, 'y, 'b, 'w) deps \<Rightarrow> retry_cancellation_phase
     \<Rightarrow> ('i, 'b, 'w, 'e, 'x, 'e retry_error) ctl"
where
  "ctl_cancelled X phase =
     andthen ctl_clear_current_attempt (\<lambda>_.
     andthen (ctl_snapshot X) (\<lambda>context.
     ctl_cancelled_with_context phase context))"

definition ctl_callback_failed ::
  "retry_callback_failure \<Rightarrow> retry_context \<Rightarrow> ('i, 'b, 'w, 'e, 'x, 'e retry_error) ctl"
where
  "ctl_callback_failed callback context =
     andthen ctl_take_last_failure (\<lambda>last_failure.
     ok (retry_error_new (ReasonCallbackFailed callback) last_failure context))"

definition ctl_callback_failed_after_refresh ::
  "('i, 'd, 'y, 'b, 'w) deps \<Rightarrow> retry_callback_failure \<Rightarrow> retry_context \<Rightarrow> ('i, 'w) clock_reader
     \<Rightarrow> ('i, 'b, 'w, 'e, 'x, 'e retry_error) ctl"
where
  "ctl_callback_failed_after_refresh X callback fallback_context clock =
     andthen (ctl_now clock) (\<lambda>now.
     andthen (ctl_flow (flow_refresh X now)) (\<lambda>r.
     andthen (case r of Inr _ \<Rightarrow> ctl_snapshot X | Inl _ \<Rightarrow> ok fallback_context) (\<lambda>context.
     ctl_callback_failed callback context)))"

definition ctl_infrastructure ::
  "retry_infrastructure_failure \<Rightarrow> retry_context \<Rightarrow> ('i, 'b, 'w, 'e, 'x, 'e retry_error) ctl"
where
  "ctl_infrastructure failure context =
     andthen ctl_take_last_failure (\<lambda>last_failure.
     ok (retry_error_new (ReasonInfrastructure failure) last_failure context))"

definition ctl_inactive_clock_failure ::
  "('i, 'd, 'y, 'b, 'w) deps \<Rightarrow> 'y \<Rightarrow> ('i, 'b, 'w, 'e, 'x, 'e retry_error) ctl"
where
  "ctl_inactive_clock_failure X error =
     andthen ctl_clear_current_attempt (\<lambda>_.
     andthen (ctl_snapshot X) (\<lambda>context.
     ctl_infrastructure (InfraClock (time_error_text X error)) context))"

text \<open>
  From here on the error of a program is the terminal error: the facades' \<open>Err\<close>.  An
  operation whose clock result is an error returns the inactive clock failure.
\<close>

definition ctl_or_clock_failure ::
  "('i, 'd, 'y, 'b, 'w) deps \<Rightarrow> 'y + 'a \<Rightarrow> ('i, 'b, 'w, 'e, 'e retry_error, 'a) ctl"
where
  "ctl_or_clock_failure X r =
     (case r of
        Inl error \<Rightarrow> return_err (ctl_inactive_clock_failure X error)
      | Inr a \<Rightarrow> ok a)"

definition ctl_refresh_or_error ::
  "('i, 'd, 'y, 'b, 'w) deps \<Rightarrow> 'i \<Rightarrow> ('i, 'b, 'w, 'e, 'e retry_error, unit) ctl"
where
  "ctl_refresh_or_error X now =
     andthen (ctl_flow (flow_refresh X now)) (ctl_or_clock_failure X)"

definition ctl_refresh_after_control_callback ::
  "('i, 'd, 'y, 'b, 'w) deps \<Rightarrow> ('i, 'w) clock_reader \<Rightarrow> 'w cancellation
     \<Rightarrow> retry_cancellation_phase \<Rightarrow> ('i, 'b, 'w, 'e, 'e retry_error, 'i) ctl"
where
  "ctl_refresh_after_control_callback X clock cancellation phase =
     andthen (ctl_now clock) (\<lambda>now.
     andthen (ctl_refresh_or_error X now) (\<lambda>_.
     andthen (ctl_is_cancelled cancellation) (\<lambda>cancelled.
     if cancelled then return_err (ctl_cancelled X phase) else ok now)))"

definition deadline_reached ::
  "('i, 'd, 'y, 'b, 'w) deps \<Rightarrow> 'i \<Rightarrow> 'i \<Rightarrow> 'y + bool"
where
  "deadline_reached X now deadline =
     map_right (\<lambda>_. since_origin X deadline \<le> since_origin X now)
       (validate_domain X deadline (instant_domain X now))"

text \<open>
  The gates between a sample and the next step, in the order the code tests them: flow
  timeout, cancellation, continuation limit.
\<close>

definition ctl_gates ::
  "('i, 'd, 'y, 'b, 'w) deps \<Rightarrow> 'w cancellation \<Rightarrow> retry_cancellation_phase \<Rightarrow>
     (('i, 'b, 'w) flow_state \<Rightarrow> retry_limit_kind option option)
     \<Rightarrow> ('i, 'b, 'w, 'e, 'e retry_error, unit) ctl"
where
  "ctl_gates X cancellation phase limit_of =
     andthen (ctl_query (flow_timed_out X)) (\<lambda>timed_out.
     if timed_out then return_err (ctl_timed_out X ScopeFlow)
     else
       andthen (ctl_is_cancelled cancellation) (\<lambda>cancelled.
       if cancelled then return_err (ctl_cancelled X phase)
       else
         andthen (ctl_query limit_of) (\<lambda>reached.
         case reached of
           Some limit \<Rightarrow> return_err (ctl_exhausted X limit)
         | None \<Rightarrow> ok ())))"

section \<open>Operations\<close>

definition ctl_check_backoff_ready ::
  "('i, 'd, 'y, 'b, 'w) deps \<Rightarrow> ('i, 'w) clock_reader \<Rightarrow> 'w cancellation \<Rightarrow> 'i
     \<Rightarrow> ('i, 'b, 'w, 'e, 'e retry_error, bool) ctl"
where
  "ctl_check_backoff_ready X clock cancellation due =
     andthen (ctl_now clock) (\<lambda>now.
     andthen (ctl_refresh_or_error X now) (\<lambda>_.
     andthen (ctl_is_cancelled cancellation) (\<lambda>cancelled.
     if cancelled then return_err (ctl_cancelled X PhaseBackoff)
     else ctl_or_clock_failure X (deadline_reached X now due))))"

definition ctl_before_attempt ::
  "('i, 'd, 'y, 'b, 'w) deps \<Rightarrow> ('i, 'w) clock_reader \<Rightarrow> 'w cancellation
     \<Rightarrow> ('i, 'b, 'w, 'e, 'e retry_error, 'i) ctl"
where
  "ctl_before_attempt X clock cancellation =
     andthen (ctl_now clock) (\<lambda>now.
     andthen (ctl_refresh_or_error X now) (\<lambda>_.
     andthen (ctl_gates X cancellation PhaseBeforeAttempt (flow_continuation_limit X)) (\<lambda>_.
     andthen (ctl_query (flow_next_attempt X)) (\<lambda>next.
     andthen (ctl_set (\<lambda>fc. fc\<lparr>fc_current_attempt := Some next,
         fc_current_hard_attempt_timeout := None, fc_next_delay := None,
         fc_retry_after_hint := None\<rparr>)) (\<lambda>_.
     andthen (ctl_snapshot X) (\<lambda>started_context.
     andthen (ctl_call (\<lambda>fc. try_before_attempt (fc_observers fc) started_context)) (\<lambda>observed.
     case observed of
       Inl callback \<Rightarrow>
         return_err (ctl_callback_failed_after_refresh X callback started_context clock)
     | Inr _ \<Rightarrow>
         andthen (ctl_refresh_after_control_callback X clock cancellation PhaseBeforeAttempt)
           (\<lambda>admission_sample.
         andthen (ctl_gates X cancellation PhaseBeforeAttempt (flow_continuation_limit X)) (\<lambda>_.
         ok admission_sample)))))))))"

definition ctl_prepare_timeout ::
  "('i, 'd, 'y, 'b, 'w) deps \<Rightarrow> 'i
     \<Rightarrow> ('i, 'b, 'w, 'e, 'x, 'y + ('i \<times> duration \<times> retry_timeout_scope) option) ctl"
where
  "ctl_prepare_timeout X now =
     andthen (ctl_get fc_attempt_timeout) (\<lambda>attempt_timeout.
     andthen (ctl_query (flow_effective_timeout X attempt_timeout)) (\<lambda>effective.
     case effective of
       None \<Rightarrow> ok (Inr None)
     | Some timeout \<Rightarrow>
         (case eff_scope timeout of
            ScopeAttempt \<Rightarrow>
              ok (map_right (\<lambda>deadline. Some (deadline, eff_duration timeout, eff_scope timeout))
                    (instant_checked_add X now (eff_duration timeout)))
          | ScopeFlow \<Rightarrow>
              andthen (ctl_get (\<lambda>fc. flow_deadline X (fc_state fc))) (\<lambda>r.
              case r of
                Inl error \<Rightarrow> ok (Inl error)
              | Inr d \<Rightarrow>
                  andthen (expect d) (\<lambda>deadline.
                  ok (Inr (Some (deadline, eff_duration timeout, eff_scope timeout))))))))"

definition ctl_prepare_attempt ::
  "('i, 'd, 'y, 'b, 'w) deps \<Rightarrow> 'i
     \<Rightarrow> ('i, 'b, 'w, 'e, 'e retry_error, 'i prepared_attempt_plan) ctl"
where
  "ctl_prepare_attempt X admission_sample =
     andthen (ctl_prepare_timeout X admission_sample) (\<lambda>r.
     andthen (ctl_or_clock_failure X r) (\<lambda>timeout.
     let plan = plan_from_timeout timeout
     in andthen (ctl_set (\<lambda>fc. fc\<lparr>fc_current_hard_attempt_timeout := plan_duration plan\<rparr>)) (\<lambda>_.
        ok plan)))"

text \<open>\<open>state.begin_attempt(now)\<close> returns nothing: its program cannot fail, only panic.\<close>

definition ctl_begin ::
  "('i, 'd, 'y, 'b, 'w) deps \<Rightarrow> 'i \<Rightarrow> ('i, 'b, 'w, 'e, 'e retry_error, unit) ctl"
where
  "ctl_begin X now = andthen (ctl_flow (flow_begin_attempt X now)) (\<lambda>_. ok ())"

definition ctl_commit_attempt ::
  "('i, 'd, 'y, 'b, 'w) deps \<Rightarrow> ('i, 'w) clock_reader \<Rightarrow> 'w cancellation
     \<Rightarrow> ('i, 'b, 'w, 'e, 'e retry_error, unit) ctl"
where
  "ctl_commit_attempt X clock cancellation =
     andthen (ctl_now clock) (\<lambda>now.
     andthen (ctl_refresh_or_error X now) (\<lambda>_.
     andthen (ctl_gates X cancellation PhaseBeforeAttempt (flow_continuation_limit X)) (\<lambda>_.
     ctl_begin X now)))"

definition ctl_commit_prepared_attempt ::
  "('i, 'd, 'y, 'b, 'w) deps \<Rightarrow> 'i prepared_attempt_plan \<Rightarrow> ('i, 'w) clock_reader
     \<Rightarrow> 'w cancellation \<Rightarrow> ('i, 'b, 'w, 'e, 'e retry_error, unit) ctl"
where
  "ctl_commit_prepared_attempt X plan clock cancellation =
     andthen (ctl_now clock) (\<lambda>now.
     andthen (ctl_refresh_or_error X now) (\<lambda>_.
     andthen (case plan_deadline_and_scope plan of
                None \<Rightarrow> ok ()
              | Some (deadline, scope) \<Rightarrow>
                  andthen (ctl_or_clock_failure X (deadline_reached X now deadline)) (\<lambda>reached.
                  if reached then return_err (ctl_timed_out X scope) else ok ())) (\<lambda>_.
     andthen (ctl_gates X cancellation PhaseBeforeAttempt (flow_continuation_limit X)) (\<lambda>_.
     ctl_begin X now))))"

section \<open>Failure, success and terminal records\<close>

text \<open>
  The first half of \<open>record_failure\<close>: the failure is recorded, the attempt is closed, the
  observers and then the rules are asked, with a refresh and a cancellation check after
  each.
\<close>

definition ctl_observe_failure ::
  "('i, 'd, 'y, 'b, 'w) deps \<Rightarrow> 'e attempt_failure \<Rightarrow> ('i, 'w) clock_reader \<Rightarrow> 'w cancellation
     \<Rightarrow> ('i, 'b, 'w, 'e, 'e retry_error, retry_decision) ctl"
where
  "ctl_observe_failure X new_failure clock cancellation =
     andthen (ctl_set (\<lambda>fc. fc\<lparr>fc_last_failure := Some new_failure\<rparr>)) (\<lambda>_.
     andthen (ctl_now clock) (\<lambda>now.
     andthen (ctl_flow (flow_finish_attempt X now)) (\<lambda>r.
     andthen (ctl_or_clock_failure X r) (\<lambda>_.
     andthen (ctl_snapshot X) (\<lambda>failed_context.
     andthen (expect_reads (\<lambda>(fc, w). fc_last_failure fc)) (\<lambda>failure.
     andthen (ctl_call (\<lambda>fc. try_attempt_failed (fc_observers fc) failure failed_context))
       (\<lambda>observed.
     case observed of
       Inl callback \<Rightarrow>
         return_err (ctl_callback_failed_after_refresh X callback failed_context clock)
     | Inr _ \<Rightarrow>
         andthen (ctl_refresh_after_control_callback X clock cancellation PhaseBackoff) (\<lambda>_.
         andthen (ctl_snapshot X) (\<lambda>rule_context.
         andthen (expect_reads (\<lambda>(fc, w). fc_last_failure fc)) (\<lambda>failure.
         andthen (ctl_call (\<lambda>fc. try_decide (fc_rules fc) failure rule_context)) (\<lambda>decided.
         case decided of
           Inl callback \<Rightarrow>
             return_err (ctl_callback_failed_after_refresh X callback rule_context clock)
         | Inr decision \<Rightarrow>
             andthen (ctl_refresh_after_control_callback X clock cancellation PhaseBackoff) (\<lambda>_.
             ok decision))))))))))))"

text \<open>
  The verdict on a decision: the effective retry decision, or the terminal error of the
  default for a timeout, of an abort, of a panic without a rule, or of the fallback.
\<close>

definition ctl_resolve_decision ::
  "('i, 'd, 'y, 'b, 'w) deps \<Rightarrow> retry_decision
     \<Rightarrow> ('i, 'b, 'w, 'e, 'e retry_error, retry_decision) ctl"
where
  "ctl_resolve_decision X decision =
     andthen (expect_reads (\<lambda>(fc, w). fc_last_failure fc)) (\<lambda>failure.
     andthen (ctl_get fc_fallback) (\<lambda>fallback.
     let default_timeout =
           (if decision = UseDefault then failure_timeout_scope failure else None);
         default_panic = (decision = UseDefault \<and> failure_panic failure \<noteq> None)
     in case default_timeout of
          Some scope \<Rightarrow> return_err (ctl_timed_out X scope)
        | None \<Rightarrow>
            if decision = DecisionAbort \<or> default_panic \<or>
               (decision = UseDefault \<and> fallback = FallbackAbort)
            then return_err (ctl_aborted X)
            else ok (if decision = UseDefault then DecisionRetry else decision)))"

text \<open>
  The second half of \<open>record_failure\<close>: select the delay, check the flow against it, tell
  the observers, check again and fix the deadline.
\<close>

definition ctl_schedule_retry ::
  "('i, 'd, 'y, 'b, 'w) deps \<Rightarrow> retry_decision \<Rightarrow> ('i, 'w) clock_reader \<Rightarrow> 'w cancellation
     \<Rightarrow> ('i, 'b, 'w, 'e, 'e retry_error, 'i prepared_backoff_plan) ctl"
where
  "ctl_schedule_retry X decision clock cancellation =
     andthen (ctl_set (\<lambda>fc. fc\<lparr>fc_retry_after_hint := decision_retry_after_hint decision\<rparr>)) (\<lambda>_.
     andthen (ctl_next_backoff X decision) (\<lambda>backoff.
     andthen (ctl_set (\<lambda>fc. fc\<lparr>fc_next_delay := Some (step_effective_delay backoff)\<rparr>)) (\<lambda>_.
     andthen (ctl_now clock) (\<lambda>now.
     andthen (ctl_refresh_or_error X now) (\<lambda>_.
     andthen (ctl_gates X None PhaseBackoff (flow_retry_limit X (step_effective_delay backoff)))
       (\<lambda>_.
     andthen (ctl_snapshot X) (\<lambda>scheduled_context.
     andthen (ctl_call (\<lambda>fc. try_retry_scheduled (fc_observers fc) backoff scheduled_context))
       (\<lambda>observed.
     case observed of
       Inl callback \<Rightarrow>
         return_err (ctl_callback_failed_after_refresh X callback scheduled_context clock)
     | Inr _ \<Rightarrow>
         andthen ctl_clear_current_attempt (\<lambda>_.
         andthen (ctl_refresh_after_control_callback X clock cancellation PhaseBackoff)
           (\<lambda>backoff_now.
         andthen (ctl_gates X cancellation PhaseBackoff
             (flow_retry_limit X (step_effective_delay backoff))) (\<lambda>_.
         andthen (ctl_get (\<lambda>fc. flow_backoff_deadline X backoff_now (step_effective_delay backoff)
             (fc_state fc))) (\<lambda>r.
         andthen (ctl_or_clock_failure X r) (\<lambda>deadline.
         ok (backoff_plan_new deadline (dur_is_zero (step_effective_delay backoff))))))))))))))))"

definition ctl_record_failure ::
  "('i, 'd, 'y, 'b, 'w) deps \<Rightarrow> 'e attempt_failure \<Rightarrow> ('i, 'w) clock_reader \<Rightarrow> 'w cancellation
     \<Rightarrow> ('i, 'b, 'w, 'e, 'e retry_error, 'i prepared_backoff_plan) ctl"
where
  "ctl_record_failure X failure clock cancellation =
     andthen (ctl_observe_failure X failure clock cancellation) (\<lambda>decision.
     andthen (ctl_resolve_decision X decision) (\<lambda>decision.
     ctl_schedule_retry X decision clock cancellation))"

definition ctl_finish_success ::
  "('i, 'd, 'y, 'b, 'w) deps \<Rightarrow> ('i, 'w) clock_reader
     \<Rightarrow> ('i, 'b, 'w, 'e, 'e retry_error, retry_context) ctl"
where
  "ctl_finish_success X clock =
     andthen (ctl_now clock) (\<lambda>now.
     andthen (ctl_flow (flow_finish_attempt X now)) (\<lambda>r.
     andthen (ctl_or_clock_failure X r) (\<lambda>_.
     andthen ctl_clear_current_attempt (\<lambda>_.
     ctl_snapshot X))))"

definition ctl_record_active_infrastructure_failure ::
  "('i, 'd, 'y, 'b, 'w) deps \<Rightarrow> retry_infrastructure_failure \<Rightarrow> 'i
     \<Rightarrow> ('i, 'b, 'w, 'e, 'x, 'e retry_error) ctl"
where
  "ctl_record_active_infrastructure_failure X failure now =
     andthen (ctl_flow (flow_finish_for_infrastructure X now)) (\<lambda>r.
     andthen (ctl_snapshot X) (\<lambda>context.
     case r of
       Inr _ \<Rightarrow> ctl_infrastructure failure context
     | Inl error \<Rightarrow> ctl_infrastructure (InfraClock (time_error_text X error)) context))"

definition ctl_record_inactive_infrastructure_failure ::
  "('i, 'd, 'y, 'b, 'w) deps \<Rightarrow> retry_infrastructure_failure \<Rightarrow> 'i
     \<Rightarrow> ('i, 'b, 'w, 'e, 'x, 'e retry_error) ctl"
where
  "ctl_record_inactive_infrastructure_failure X failure now =
     andthen ctl_clear_current_attempt (\<lambda>_.
     andthen (ctl_flow (flow_finish_for_infrastructure X now)) (\<lambda>r.
     andthen (ctl_snapshot X) (\<lambda>context.
     case r of
       Inr _ \<Rightarrow> ctl_infrastructure failure context
     | Inl error \<Rightarrow> ctl_infrastructure (InfraClock (time_error_text X error)) context)))"

definition ctl_record_attempt_cancellation ::
  "('i, 'd, 'y, 'b, 'w) deps \<Rightarrow> ('i, 'w) clock_reader
     \<Rightarrow> ('i, 'b, 'w, 'e, 'x, 'e retry_error) ctl"
where
  "ctl_record_attempt_cancellation X clock =
     andthen (ctl_now clock) (\<lambda>now.
     andthen (ctl_flow (flow_finish_attempt X now)) (\<lambda>r.
     case r of
       Inl error \<Rightarrow> ctl_inactive_clock_failure X error
     | Inr _ \<Rightarrow>
         andthen (ctl_snapshot X) (ctl_cancelled_with_context PhaseAttempt)))"

definition ctl_record_backoff_cancellation ::
  "('i, 'd, 'y, 'b, 'w) deps \<Rightarrow> ('i, 'w) clock_reader
     \<Rightarrow> ('i, 'b, 'w, 'e, 'x, 'e retry_error) ctl"
where
  "ctl_record_backoff_cancellation X clock =
     andthen (ctl_now clock) (\<lambda>now.
     andthen (ctl_flow (flow_refresh X now)) (\<lambda>r.
     case r of
       Inl error \<Rightarrow> ctl_inactive_clock_failure X error
     | Inr _ \<Rightarrow>
         andthen (ctl_snapshot X) (ctl_cancelled_with_context PhaseBackoff)))"

end
