(* ===== verification/Controller_Laws.thy ===== *)
theory Controller_Laws
  imports Controller
begin

text \<open>
  What every operation of the controller keeps and reports.  \<open>ctl_ok K n b lf\<close> is the state
  between operations: the budget's account is coherent, the configuration is that of \<open>K\<close>,
  \<open>n\<close> attempts are admitted, one is running iff \<open>b\<close>, and the last failure is \<open>lf\<close>.  \<open>ctl_ends\<close> is what holds of
  every terminal error and of the state it leaves.
\<close>

section \<open>Preconditions of the accessors\<close>

lemma wp_ctl_now [wp_rules, simp]:
  "wp (ctl_now clock) Q E = (\<lambda>(fc, w). Q (fst (clock w)) (fc, snd (clock w)))"
  by (simp add: wp_def ctl_now_def fun_eq_iff case_prod_beta)

lemma wp_ctl_set [wp_rules, simp]: "wp (ctl_set f) Q E = (\<lambda>(fc, w). Q () (f fc, w))"
  by (simp add: ctl_set_def fun_eq_iff)

lemma wp_ctl_get [wp_rules, simp]: "wp (ctl_get f) Q E = (\<lambda>(fc, w). Q (f fc) (fc, w))"
  by (simp add: ctl_get_def fun_eq_iff)

lemma wp_ctl_query [wp_rules, simp]:
  "wp (ctl_query f) Q E =
     (\<lambda>(fc, w). case f (fc_state fc) of None \<Rightarrow> False | Some a \<Rightarrow> Q a (fc, w))"
  by (simp add: ctl_query_def fun_eq_iff)

lemma wp_ctl_flow [wp_rules, simp]:
  "wp (ctl_flow m) Q E =
     (\<lambda>(fc, w). wp m (\<lambda>a fs. Q (Inr a) (fc\<lparr>fc_state := fs\<rparr>, w))
        (\<lambda>e fs. Q (Inl e) (fc\<lparr>fc_state := fs\<rparr>, w)) (fc_state fc))"
  by (auto simp: wp_def ctl_flow_def fun_eq_iff split: option.split sum.split)

lemma wp_ctl_call [wp_rules, simp]:
  "wp (ctl_call f) Q E = (\<lambda>(fc, w). Q (fst (f fc w)) (fc, snd (f fc w)))"
  by (simp add: wp_def ctl_call_def fun_eq_iff case_prod_beta)

lemma wp_ctl_next_backoff [wp_rules, simp]:
  "wp (ctl_next_backoff X decision) Q E =
     (\<lambda>(fc, w). case flow_next_backoff X decision (fc_state fc) w of
        (step, fs, w') \<Rightarrow> Q step (fc\<lparr>fc_state := fs\<rparr>, w'))"
  by (simp add: wp_def ctl_next_backoff_def fun_eq_iff case_prod_beta Let_def)

lemma wp_ctl_is_cancelled:
  "(\<And>c w'. Q c (fc, w')) \<Longrightarrow> wp (ctl_is_cancelled cancellation) Q E (fc, w)"
  by (simp add: ctl_is_cancelled_def split: option.split)

section \<open>The invariant and the terminal postcondition\<close>

text \<open>Two controllers with one configuration: what no operation changes.\<close>

definition same_conf ::
  "('i, 'b, 'w, 'e) flow_controller \<Rightarrow> ('i, 'b, 'w, 'e) flow_controller \<Rightarrow> bool"
where
  "same_conf K fc \<longleftrightarrow>
     fc_rules fc = fc_rules K \<and> fc_observers fc = fc_observers K \<and>
     fc_fallback fc = fc_fallback K \<and> fc_attempt_timeout fc = fc_attempt_timeout K \<and>
     fs_frame (fc_state K) (fc_state fc)"

definition ctl_max :: "('i, 'b, 'w, 'e) flow_controller \<Rightarrow> nat" where
  "ctl_max fc = fs_max (fc_state fc)"

definition ctl_ok ::
  "('i, 'd, 'y, 'b, 'w) deps \<Rightarrow> ('i, 'b, 'w, 'e) flow_controller \<Rightarrow> nat \<Rightarrow> bool \<Rightarrow> 'e attempt_failure option
     \<Rightarrow> ('i, 'b, 'w, 'e) flow_controller \<times> 'w \<Rightarrow> bool"
where
  "ctl_ok X K n b lf = (\<lambda>(fc, w).
     fs_inv X (fc_state fc) \<and> same_conf K fc \<and> fs_attempts X (fc_state fc) = n \<and>
     fs_active (fc_state fc) = b \<and> fc_last_failure fc = lf)"

definition ctx_ok :: "nat \<Rightarrow> nat \<Rightarrow> retry_context \<Rightarrow> bool" where
  "ctx_ok M n c \<longleftrightarrow>
     unat (ctx_attempts c) = n \<and> unat (ctx_max_attempts c) = M \<and>
     ctx_last_attempt_elapsed c \<le> ctx_operation_elapsed c \<and>
     ctx_operation_elapsed c \<le> ctx_total_elapsed c"

definition ctl_ends ::
  "('i, 'd, 'y, 'b, 'w) deps \<Rightarrow> ('i, 'b, 'w, 'e) flow_controller \<Rightarrow> nat \<Rightarrow> 'e attempt_failure option \<Rightarrow> 'e retry_error
     \<Rightarrow> ('i, 'b, 'w, 'e) flow_controller \<times> 'w \<Rightarrow> bool"
where
  "ctl_ends X K n lf e s \<longleftrightarrow>
     ctx_ok (ctl_max K) n (err_context e) \<and> err_last_failure e = lf \<and>
     err_completion_callback_failures e = [] \<and> (\<exists>b. ctl_ok X K n b None s)"

lemma ctx_ok_decorate [simp]: "ctx_ok M n (ctl_decorate fc c) = ctx_ok M n c"
  by (simp add: ctx_ok_def ctl_decorate_def Let_def split: option.split)

lemma same_conf_refl [simp]: "same_conf K K"
  by (simp add: same_conf_def)

lemma same_conf_max: "same_conf K fc \<Longrightarrow> fs_max (fc_state fc) = ctl_max K"
  by (simp add: same_conf_def ctl_max_def fs_frame_max)

lemma ctl_ok_world: "ctl_ok X K n b lf (fc, w) \<Longrightarrow> ctl_ok X K n b lf (fc, w')"
  by (simp add: ctl_ok_def)

context deps_laws
begin

lemma ctl_ok_new:
  "fc = ctl_new X t config random attempt_timeout flow_timeout \<Longrightarrow> ctl_ok X fc 0 False None (fc, w)"
  by (simp add: ctl_ok_def) (simp add: ctl_new_def)

lemma ctl_max_new [simp]:
  "ctl_max (ctl_new X t config random attempt_timeout flow_timeout) =
     unat (nz_get (lim_max_attempts (pol_limits (cfg_policy config))))"
  by (simp add: ctl_max_def fs_max_def ctl_new_def flow_new_def)

lemma ctl_ok_le: "ctl_ok X K n b lf s \<Longrightarrow> n \<le> ctl_max K"
  using fs_attempts_le same_conf_max by (fastforce simp: ctl_ok_def split: prod.splits)

lemma ctl_snapshot_wp:
  assumes "ctl_ok X K n b lf (fc, w)"
  shows "wp (ctl_snapshot X)
    (\<lambda>c s'. s' = (fc, w) \<and> ctx_ok (ctl_max K) n c \<and> ctx_current_attempt c = fc_current_attempt fc) E (fc, w)"
proof -
  have inv: "fs_inv X (fc_state fc)" using assms by (simp add: ctl_ok_def)
  then obtain c where c: "flow_context X (fc_current_attempt fc) (fc_state fc) = Some c"
    using fs_reads_some(5) by blast
  then have "ctx_ok (ctl_max K) n c \<and> ctx_current_attempt c = fc_current_attempt fc"
    using assms fs_context_facts [OF inv c] same_conf_max [of K fc]
    by (simp add: ctx_ok_def ctl_ok_def)
  then show ?thesis
    using c by (simp add: ctl_snapshot_def) (simp add: ctl_decorate_def Let_def split: option.split)
qed

lemma ctl_take_wp:
  assumes "ctl_ok X K n b lf (fc, w)"
  shows "wp ctl_take_last_failure (\<lambda>f s'. f = lf \<and> s' = (fc\<lparr>fc_last_failure := None\<rparr>, w)) E (fc, w)"
  using assms by (simp add: ctl_take_last_failure_def ctl_ok_def)

lemma ctl_ok_taken:
  "ctl_ok X K n b lf (fc, w) \<Longrightarrow> ctl_ok X K n b None (fc\<lparr>fc_last_failure := None\<rparr>, w)"
  by (simp add: ctl_ok_def same_conf_def)

lemma ctl_ok_set_irrelevant [simp]:
  "ctl_ok X K n b lf (fc\<lparr>fc_current_attempt := x\<rparr>, w) = ctl_ok X K n b lf (fc, w)"
  "ctl_ok X K n b lf (fc\<lparr>fc_current_hard_attempt_timeout := y\<rparr>, w) = ctl_ok X K n b lf (fc, w)"
  "ctl_ok X K n b lf (fc\<lparr>fc_next_delay := z\<rparr>, w) = ctl_ok X K n b lf (fc, w)"
  "ctl_ok X K n b lf (fc\<lparr>fc_retry_after_hint := z\<rparr>, w) = ctl_ok X K n b lf (fc, w)"
  by (simp_all add: ctl_ok_def same_conf_def)

text \<open>The constructors of terminal errors; none of them fails or panics.\<close>

lemma ctl_with_context_wp:
  assumes "ctl_ok X K n b lf (fc, w)" and "ctx_ok (ctl_max K) n c"
  shows "wp (ctl_cancelled_with_context phase c)
      (\<lambda>e s. ctl_ends X K n lf e s \<and> err_reason e = ReasonCancelled phase) E (fc, w)"
    and "wp (ctl_callback_failed callback c)
      (\<lambda>e s. ctl_ends X K n lf e s \<and> err_reason e = ReasonCallbackFailed callback) E (fc, w)"
    and "wp (ctl_infrastructure failure c)
      (\<lambda>e s. ctl_ends X K n lf e s \<and> err_reason e = ReasonInfrastructure failure) E (fc, w)"
  using assms ctl_ok_taken [OF assms(1)]
  by (auto simp: ctl_cancelled_with_context_def ctl_callback_failed_def ctl_infrastructure_def
      ctl_ends_def intro!: wp_seq [OF ctl_take_wp [OF assms(1)]] simp del: wp_andthen)

lemma ctl_clear_wp:
  assumes "ctl_ok X K n b lf (fc, w)"
  shows "wp ctl_clear_current_attempt
    (\<lambda>_ s'. \<exists>fc'. s' = (fc', w) \<and> ctl_ok X K n b lf (fc', w) \<and> fc_state fc' = fc_state fc) E (fc, w)"
  using assms by (auto simp: ctl_clear_current_attempt_def ctl_ok_def same_conf_def)

lemma ctl_take_snapshot_wp:
  assumes "ctl_ok X K n b lf (fc, w)"
    and "\<And>context s'. ctx_ok (ctl_max K) n context \<Longrightarrow> ctl_ok X K n b None s' \<Longrightarrow> Q (mk lf context) s'"
  shows "wp (andthen ctl_take_last_failure (\<lambda>f. andthen (ctl_snapshot X) (\<lambda>c. ok (mk f c))))
    Q E (fc, w)"
proof (rule wp_seq [OF ctl_take_wp [OF assms(1)]])
  fix f s' assume f: "f = lf \<and> s' = (fc\<lparr>fc_last_failure := None\<rparr>, w)"
  show "wp (andthen (ctl_snapshot X) (\<lambda>c. ok (mk f c))) Q E s'"
    using f assms(2) ctl_ok_taken [OF assms(1)]
    by (auto intro!: wp_mono [OF ctl_snapshot_wp [OF ctl_ok_taken [OF assms(1)]]])
qed

lemma ctl_exhausted_wp:
  assumes "ctl_ok X K n b lf (fc, w)"
  shows "wp (ctl_exhausted X k)
    (\<lambda>e s. ctl_ends X K n lf e s \<and> err_reason e = ReasonExhausted k) E (fc, w)"
  unfolding ctl_exhausted_def
  by (rule wp_seq [OF ctl_clear_wp [OF assms]])
    (auto simp: ctl_ends_def simp del: wp_andthen intro!: ctl_take_snapshot_wp)

lemma ctl_timed_out_wp:
  assumes "ctl_ok X K n b lf (fc, w)"
  shows "wp (ctl_timed_out X k)
    (\<lambda>e s. ctl_ends X K n lf e s \<and> err_reason e = ReasonTimedOut k) E (fc, w)"
  unfolding ctl_timed_out_def
  by (rule wp_seq [OF ctl_clear_wp [OF assms]])
    (auto simp: ctl_ends_def simp del: wp_andthen intro!: ctl_take_snapshot_wp)

lemma ctl_aborted_wp:
  assumes "ctl_ok X K n b (Some f) (fc, w)"
  shows "wp (ctl_aborted X)
    (\<lambda>e s. ctl_ends X K n (Some f) e s \<and> err_reason e = ReasonAborted) E (fc, w)"
  unfolding ctl_aborted_def
  using ctl_ok_taken [OF assms]
  by (intro wp_seq [OF ctl_take_wp [OF assms]])
    (auto simp: ctl_ends_def intro!: wp_mono [OF ctl_clear_wp] wp_mono [OF ctl_snapshot_wp])

lemma ctl_cancelled_wp:
  assumes "ctl_ok X K n b lf (fc, w)"
  shows "wp (ctl_cancelled X phase)
    (\<lambda>e s. ctl_ends X K n lf e s \<and> err_reason e = ReasonCancelled phase) E (fc, w)"
  unfolding ctl_cancelled_def
  by (rule wp_seq [OF ctl_clear_wp [OF assms]])
    (auto intro!: wp_mono [OF ctl_snapshot_wp] ctl_with_context_wp)

lemma ctl_inactive_clock_failure_wp:
  assumes "ctl_ok X K n b lf (fc, w)"
  shows "wp (ctl_inactive_clock_failure X err)
    (\<lambda>e s. ctl_ends X K n lf e s \<and>
       err_reason e = ReasonInfrastructure (InfraClock (time_error_text X err))) E (fc, w)"
  unfolding ctl_inactive_clock_failure_def
  by (rule wp_seq [OF ctl_clear_wp [OF assms]])
    (auto intro!: wp_mono [OF ctl_snapshot_wp] ctl_with_context_wp)

end

section \<open>Refreshes and gates\<close>

text \<open>What a step leaves when it only moves the sample and the world.\<close>

definition ctl_sampled ::
  "('i, 'd, 'y, 'b, 'w) deps \<Rightarrow> ('i, 'b, 'w, 'e) flow_controller \<Rightarrow> nat \<Rightarrow> bool
     \<Rightarrow> 'e attempt_failure option \<Rightarrow> 'i \<Rightarrow> ('i, 'b, 'w, 'e) flow_controller \<times> 'w \<Rightarrow> bool"
where
  "ctl_sampled X K n b lf now s \<longleftrightarrow>
     ctl_ok X K n b lf s \<and> bs_sampled_at (fs_budget (fc_state (fst s))) = now"

context deps_laws
begin

lemma ctl_or_clock_failure_wp:
  assumes "ctl_ok X K n b lf (fc, w)" and "\<And>a. r = Inr a \<Longrightarrow> Q a (fc, w)"
  shows "wp (ctl_or_clock_failure X r) Q (ctl_ends X K n lf) (fc, w)"
  using assms
  by (auto simp: ctl_or_clock_failure_def split: sum.split
      intro!: wp_mono [OF ctl_inactive_clock_failure_wp [OF assms(1)]])

lemma ctl_ok_state:
  assumes "ctl_ok X K n b lf (fc, w)" and "fs_inv X fs" and "fs_frame (fc_state fc) fs"
  shows "ctl_ok X K (fs_attempts X fs) (fs_active fs) lf (fc\<lparr>fc_state := fs\<rparr>, w')"
  using assms by (auto simp: ctl_ok_def same_conf_def intro: fs_frame_trans)

lemma ctl_refresh_wp:
  assumes "ctl_ok X K n b lf (fc, w)"
  shows "wp (flow_refresh X now)
    (\<lambda>_ fs. ctl_sampled X K n b lf now (fc\<lparr>fc_state := fs\<rparr>, w) \<and>
       accepts_sample X now (fs_budget (fc_state fc)))
    (\<lambda>_ fs. fs = fc_state fc) (fc_state fc)"
proof -
  have inv: "fs_inv X (fc_state fc)" using assms by (simp add: ctl_ok_def)
  show ?thesis
    by (rule wp_mono [OF fs_refresh [OF inv]])
      (use assms ctl_ok_state [OF assms, of _ w] in \<open>auto simp: ctl_sampled_def ctl_ok_def\<close>)
qed

lemma ctl_refresh_or_error_wp:
  assumes "ctl_ok X K n b lf (fc, w)"
  shows "wp (ctl_refresh_or_error X now)
    (\<lambda>_ s. ctl_sampled X K n b lf now s \<and> snd s = w \<and>
       fst s = fc\<lparr>fc_state := fc_state (fst s)\<rparr> \<and> accepts_sample X now (fs_budget (fc_state fc)))
    (ctl_ends X K n lf) (fc, w)"
  using assms unfolding ctl_refresh_or_error_def
  by (auto simp: ctl_or_clock_failure_def
      intro!: wp_mono [OF ctl_refresh_wp [OF assms]]
        wp_mono [OF ctl_inactive_clock_failure_wp [OF assms]])

lemma ctl_callback_failed_wp:
  assumes "ctl_ok X K n b lf (fc, w)" and "ctx_ok (ctl_max K) n context"
  shows "wp (ctl_callback_failed_after_refresh X callback context clock)
    (\<lambda>e s. ctl_ends X K n lf e s \<and> err_reason e = ReasonCallbackFailed callback) E (fc, w)"
proof -
  have ok: "ctl_ok X K n b lf (fc, snd (clock w))" by (rule ctl_ok_world [OF assms(1)])
  show ?thesis
    unfolding ctl_callback_failed_after_refresh_def
    using ok assms(2)
    by (auto simp: ctl_sampled_def intro!: wp_mono [OF ctl_refresh_wp [OF ok]]
        wp_mono [OF ctl_snapshot_wp] ctl_with_context_wp)
qed

lemma ctl_is_cancelled_wp:
  assumes "ctl_ok X K n b lf s" and "\<And>w'. wp m Q (ctl_ends X K n lf) (fst s, w')"
  shows "wp (andthen (ctl_is_cancelled cancellation)
      (\<lambda>c. if c then return_err (ctl_cancelled X phase) else m)) Q (ctl_ends X K n lf) s"
proof (cases s)
  case (Pair fc w)
  have "wp (ctl_cancelled X phase) (ctl_ends X K n lf) (ctl_ends X K n lf) (fc, w')" for w'
    by (rule wp_mono [OF ctl_cancelled_wp [OF ctl_ok_world [OF assms(1) [unfolded Pair]]]]) auto
  then show ?thesis
    using assms(2) by (auto simp: Pair intro!: wp_ctl_is_cancelled)
qed

lemma ctl_refresh_after_wp:
  assumes "ctl_ok X K n b lf (fc, w)"
  shows "wp (ctl_refresh_after_control_callback X clock cancellation phase)
    (\<lambda>now s. ctl_sampled X K n b lf now s \<and> fst s = fc\<lparr>fc_state := fc_state (fst s)\<rparr>)
    (ctl_ends X K n lf) (fc, w)"
proof -
  have ok: "ctl_ok X K n b lf (fc, snd (clock w))" by (rule ctl_ok_world [OF assms])
  have "wp (andthen (ctl_refresh_or_error X now) (\<lambda>_.
      andthen (ctl_is_cancelled cancellation)
        (\<lambda>c. if c then return_err (ctl_cancelled X phase) else prelude_ok now)))
    (\<lambda>now s. ctl_sampled X K n b lf now s \<and> fst s = fc\<lparr>fc_state := fc_state (fst s)\<rparr>)
    (ctl_ends X K n lf) (fc, snd (clock w))" if "prelude_ok = ok" for now prelude_ok
    by (rule wp_seq [OF ctl_refresh_or_error_wp [OF ok]], rule ctl_is_cancelled_wp)
      (auto simp: that ctl_sampled_def intro: ctl_ok_world)
  then show ?thesis
    by (simp add: ctl_refresh_after_control_callback_def del: wp_andthen)
      (simp only: wp_andthen wp_ctl_now case_prod_conv)
qed

text \<open>
  The gates let a step pass only when neither the flow timeout nor a limit is reached, and
  then change nothing but the world.
\<close>

lemma ctl_gates_wp:
  assumes "ctl_ok X K n b lf s" and "\<exists>r. limit_of (fc_state (fst s)) = Some r"
  shows "wp (ctl_gates X cancellation phase limit_of)
    (\<lambda>_ s'. fst s' = fst s \<and> ctl_ok X K n b lf s' \<and>
       flow_timed_out X (fc_state (fst s)) = Some False \<and> limit_of (fc_state (fst s)) = Some None)
    (ctl_ends X K n lf) s"
proof (cases s)
  case (Pair fc w)
  have ok: "ctl_ok X K n b lf (fc, w')" for w'
    by (rule ctl_ok_world [OF assms(1) [unfolded Pair]])
  then obtain t where t: "flow_timed_out X (fc_state fc) = Some t"
    using fs_reads_some(1) by (auto simp: ctl_ok_def)
  obtain r where r: "limit_of (fc_state fc) = Some r" using assms(2) by (auto simp: Pair)
  show ?thesis
  proof (cases t)
    case True
    then show ?thesis
      using t by (auto simp: Pair ctl_gates_def simp del: wp_return_err
          simp add: wp_return_err intro!: wp_mono [OF ctl_timed_out_wp [OF ok]])
  next
    case False
    then have t': "flow_timed_out X (fc_state fc) = Some False" using t by simp
    let ?Q = "\<lambda>_ s'. fst s' = fc \<and> ctl_ok X K n b lf s' \<and>
        flow_timed_out X (fc_state fc) = Some False \<and> limit_of (fc_state fc) = Some None"
    have inner: "wp (andthen (ctl_query limit_of) (\<lambda>reached. case reached of
          Some limit \<Rightarrow> return_err (ctl_exhausted X limit) | None \<Rightarrow> Prelude.ok ()))
        ?Q (ctl_ends X K n lf) (fc, w')" for w'
      using t' r ok by (cases r) (auto intro!: wp_mono [OF ctl_exhausted_wp [OF ok]])
    have "wp (andthen (ctl_is_cancelled cancellation) (\<lambda>cancelled.
          if cancelled then return_err (ctl_cancelled X phase)
          else andthen (ctl_query limit_of) (\<lambda>reached. case reached of
            Some limit \<Rightarrow> return_err (ctl_exhausted X limit) | None \<Rightarrow> Prelude.ok ())))
        ?Q (ctl_ends X K n lf) (fc, w)"
      by (rule ctl_is_cancelled_wp [OF ok]) (simp only: fst_conv inner)
    then show ?thesis
      unfolding Pair ctl_gates_def fst_conv
      by (subst wp_andthen) (simp only: wp_ctl_query case_prod_conv t' option.case if_False)
  qed
qed

end

section \<open>Attempts\<close>

text \<open>Nanoseconds from the flow's start to its last sample, and the flow timeout's verdict.\<close>

definition flow_elapsed :: "('i, 'd, 'x, 'b, 'w) deps \<Rightarrow> ('i, 'b, 'w) flow_state \<Rightarrow> nat" where
  "flow_elapsed X fs =
     nanos_at X (bs_sampled_at (fs_budget fs)) - nanos_at X (bs_started_at (fs_budget fs))"

definition within_flow :: "('i, 'd, 'x, 'b, 'w) deps \<Rightarrow> ('i, 'b, 'w) flow_state \<Rightarrow> bool" where
  "within_flow X fs \<longleftrightarrow>
     (case fs_flow_timeout fs of None \<Rightarrow> True | Some limit \<Rightarrow> flow_elapsed X fs < as_nanos limit)"

context deps_laws
begin

lemma flow_timed_out_iff:
  assumes "fs_inv X fs"
  shows "flow_timed_out X fs = Some (\<not> within_flow X fs)"
proof -
  have "bs_inv X (fs_budget fs)" using assms by (simp add: fs_inv_def)
  then obtain snap where "bs_snapshot X (fs_budget fs) = Some snap"
      "as_nanos (snap_total_elapsed snap) = flow_elapsed X fs"
    using inv_snapshot unfolding flow_elapsed_def by blast
  then show ?thesis
    by (auto simp: flow_timed_out_def within_flow_def less_eq_duration_def split: option.split)
qed

lemma ctl_begin_wp:
  assumes "ctl_sampled X K n False lf now (fc, w)" and "n < ctl_max K"
    and "within_flow X (fc_state fc)"
  shows "wp (ctl_begin X now)
    (\<lambda>_ s. ctl_ok X K (Suc n) True lf s \<and> within_flow X (fc_state (fst s)) \<and>
       fc_current_attempt (fst s) = fc_current_attempt fc \<and>
       bs_sampled_at (fs_budget (fc_state (fst s))) = now)
    (ctl_ends X K n lf) (fc, w)"
proof -
  have ok: "ctl_ok X K n False lf (fc, w)" using assms(1) by (simp add: ctl_sampled_def)
  have "wp (flow_begin_attempt X now)
    (\<lambda>_ fs'. fs_inv X fs' \<and> fs_frame (fc_state fc) fs' \<and>
       fs_attempts X fs' = Suc (fs_attempts X (fc_state fc)) \<and>
       fs_active fs' \<and> bs_sampled_at (fs_budget fs') = now \<and>
       fs_backoff fs' = fs_backoff (fc_state fc)) (\<lambda>_ _. False) (fc_state fc)"
    using assms ok same_conf_max [of K fc]
    by (intro fs_begin) (auto simp: ctl_ok_def ctl_sampled_def)
  then show ?thesis
    unfolding ctl_begin_def using assms(1,3) ctl_ok_state [OF ok, of _ w] ok
    by (auto simp: ctl_ok_def ctl_sampled_def within_flow_def flow_elapsed_def fs_frame_def
        same_conf_def elim!: wp_mono split: option.splits)
qed

lemma ctl_query_limit_some:
  "ctl_ok X K n b lf s \<Longrightarrow> \<exists>r. flow_continuation_limit X (fc_state (fst s)) = Some r"
  "ctl_ok X K n b lf s \<Longrightarrow> \<exists>r. flow_retry_limit X d (fc_state (fst s)) = Some r"
  using fs_reads_some(2,3) by (auto simp: ctl_ok_def split: prod.splits)

text \<open>The gates before an admission leave room for one more attempt.\<close>

lemma ctl_admission_gates_wp:
  assumes "ctl_ok X K n b lf s"
  shows "wp (ctl_gates X cancellation PhaseBeforeAttempt (flow_continuation_limit X))
    (\<lambda>_ s'. fst s' = fst s \<and> ctl_ok X K n b lf s' \<and> within_flow X (fc_state (fst s)) \<and>
       n < ctl_max K)
    (ctl_ends X K n lf) s"
proof (rule wp_mono [OF ctl_gates_wp
      [where limit_of = "flow_continuation_limit X", OF assms ctl_query_limit_some(1) [OF assms]]])
  fix a s'
  assume *: "fst s' = fst s \<and> ctl_ok X K n b lf s' \<and>
      flow_timed_out X (fc_state (fst s)) = Some False \<and>
      flow_continuation_limit X (fc_state (fst s)) = Some None"
  have inv: "fs_inv X (fc_state (fst s))" "same_conf K (fst s)"
      "fs_attempts X (fc_state (fst s)) = n"
    using assms by (auto simp: ctl_ok_def split: prod.splits)
  then show "fst s' = fst s \<and> ctl_ok X K n b lf s' \<and> within_flow X (fc_state (fst s)) \<and>
      n < ctl_max K"
    using * flow_timed_out_iff [OF inv(1)] fs_continuation_room [OF inv(1)] same_conf_max [OF inv(2)]
    by simp
qed simp

lemma ctl_admit_wp:
  assumes "ctl_sampled X K n False lf now s"
  shows "wp (andthen (ctl_gates X cancellation PhaseBeforeAttempt (flow_continuation_limit X))
      (\<lambda>_. ctl_begin X now))
    (\<lambda>_ s'. ctl_ok X K (Suc n) True lf s' \<and> n < ctl_max K \<and> within_flow X (fc_state (fst s')) \<and>
       bs_sampled_at (fs_budget (fc_state (fst s'))) = now)
    (ctl_ends X K n lf) s"
proof -
  have ok: "ctl_ok X K n False lf s" using assms by (simp add: ctl_sampled_def)
  show ?thesis
  proof (rule wp_seq [OF ctl_admission_gates_wp [OF ok]])
    fix a s' assume "fst s' = fst s \<and> ctl_ok X K n False lf s' \<and>
      within_flow X (fc_state (fst s)) \<and> n < ctl_max K"
    then show "wp (ctl_begin X now) (\<lambda>_ s'. ctl_ok X K (Suc n) True lf s' \<and> n < ctl_max K \<and>
        within_flow X (fc_state (fst s')) \<and> bs_sampled_at (fs_budget (fc_state (fst s'))) = now)
        (ctl_ends X K n lf) s'"
      using assms by (cases s') (auto simp: ctl_sampled_def intro!: wp_mono [OF ctl_begin_wp])
  qed
qed

lemma ctl_sample_wp:
  assumes "ctl_ok X K n b lf s"
    and "\<And>now s'. ctl_sampled X K n b lf now s' \<Longrightarrow> fst s' = (fst s)\<lparr>fc_state := fc_state (fst s')\<rparr>
      \<Longrightarrow> accepts_sample X now (fs_budget (fc_state (fst s))) \<Longrightarrow> wp (f now) Q (ctl_ends X K n lf) s'"
  shows "wp (andthen (ctl_now clock) (\<lambda>now. andthen (ctl_refresh_or_error X now) (\<lambda>_. f now)))
    Q (ctl_ends X K n lf) s"
proof (cases s)
  case (Pair fc w)
  have ok: "ctl_ok X K n b lf (fc, snd (clock w))"
    by (rule ctl_ok_world [OF assms(1) [unfolded Pair]])
  have "wp (andthen (ctl_refresh_or_error X (fst (clock w))) (\<lambda>_. f (fst (clock w))))
      Q (ctl_ends X K n lf) (fc, snd (clock w))"
    by (rule wp_seq [OF ctl_refresh_or_error_wp [OF ok]]) (use assms(2) Pair in auto)
  then show ?thesis by (simp add: Pair)
qed

lemma ctl_commit_attempt_wp:
  assumes "ctl_ok X K n False lf s"
  shows "wp (ctl_commit_attempt X clock cancellation)
    (\<lambda>_ s'. ctl_ok X K (Suc n) True lf s' \<and> n < ctl_max K \<and> within_flow X (fc_state (fst s')))
    (ctl_ends X K n lf) s"
  unfolding ctl_commit_attempt_def
  by (rule ctl_sample_wp [OF assms], rule wp_mono [OF ctl_admit_wp], assumption) simp_all

text \<open>
  The commit of a prepared plan; the sample it commits at is not before the previous one, and
  before the plan's deadline.
\<close>

lemma ctl_commit_deadline_wp:
  assumes "ctl_ok X K n False lf s"
  shows "wp (ctl_commit_prepared_attempt X plan clock cancellation)
    (\<lambda>_ s'. ctl_ok X K (Suc n) True lf s' \<and> n < ctl_max K \<and> within_flow X (fc_state (fst s')) \<and>
       nanos_at X (bs_sampled_at (fs_budget (fc_state (fst s)))) \<le>
         nanos_at X (bs_sampled_at (fs_budget (fc_state (fst s')))) \<and>
       (\<forall>deadline. plan_deadline plan = Some deadline \<longrightarrow>
          nanos_at X (bs_sampled_at (fs_budget (fc_state (fst s')))) < nanos_at X deadline))
    (ctl_ends X K n lf) s"
  unfolding ctl_commit_prepared_attempt_def
proof (rule ctl_sample_wp [OF assms], rule wp_seq)
  fix now s' assume s': "ctl_sampled X K n False lf now s'"
    and later: "accepts_sample X now (fs_budget (fc_state (fst s)))"
  obtain fc w where p: "s' = (fc, w)" by (cases s')
  have ok: "ctl_ok X K n False lf (fc, w)" using s' by (simp add: ctl_sampled_def p)
  let ?early = "\<forall>deadline. plan_deadline plan = Some deadline \<longrightarrow> nanos_at X now < nanos_at X deadline"
  show "wp (case plan_deadline_and_scope plan of None \<Rightarrow> Prelude.ok ()
      | Some (deadline, scope) \<Rightarrow>
          andthen (ctl_or_clock_failure X (deadline_reached X now deadline)) (\<lambda>reached.
          if reached then return_err (ctl_timed_out X scope) else Prelude.ok ()))
      (\<lambda>_ t. t = s' \<and> ?early) (ctl_ends X K n lf) s'"
  proof (cases "plan_timeout plan")
    case None
    then show ?thesis by (simp add: plan_deadline_and_scope_def plan_deadline_def)
  next
    case (Some timeout)
    have early: "deadline_reached X now (pt_deadline timeout) = Inr False \<Longrightarrow> ?early"
      using Some by (auto simp: plan_deadline_def deadline_reached_def map_right_def nanos_at_def
          less_eq_duration_def split: sum.splits)
    have decide: "wp (if reached then return_err (ctl_timed_out X scope) else Prelude.ok ())
        (\<lambda>_ t. t = (fc, w) \<and> ?early) (ctl_ends X K n lf) (fc, w)"
      if "deadline_reached X now (pt_deadline timeout) = Inr reached" for reached scope
      using that early by (cases reached) (auto intro!: wp_mono [OF ctl_timed_out_wp [OF ok]])
    show ?thesis
      using Some unfolding p plan_deadline_and_scope_def
      by (simp del: wp_if, intro ctl_or_clock_failure_wp [OF ok] decide)
  qed
  show "wp (andthen (ctl_gates X cancellation PhaseBeforeAttempt (flow_continuation_limit X))
      (\<lambda>_. ctl_begin X now))
    (\<lambda>_ s'. ctl_ok X K (Suc n) True lf s' \<and> n < ctl_max K \<and> within_flow X (fc_state (fst s')) \<and>
       nanos_at X (bs_sampled_at (fs_budget (fc_state (fst s)))) \<le>
         nanos_at X (bs_sampled_at (fs_budget (fc_state (fst s')))) \<and>
       (\<forall>deadline. plan_deadline plan = Some deadline \<longrightarrow>
          nanos_at X (bs_sampled_at (fs_budget (fc_state (fst s')))) < nanos_at X deadline))
    (ctl_ends X K n lf) t" if "t = s' \<and> ?early" for t
  proof -
    have t: "ctl_sampled X K n False lf now t" using that s' by simp
    show ?thesis
      by (rule wp_mono [OF ctl_admit_wp [OF t]]) (use that later in \<open>simp_all add: accepts_sample_def\<close>)
  qed
qed

lemma ctl_commit_prepared_attempt_wp:
  assumes "ctl_ok X K n False lf s"
  shows "wp (ctl_commit_prepared_attempt X plan clock cancellation)
    (\<lambda>_ s'. ctl_ok X K (Suc n) True lf s' \<and> n < ctl_max K \<and> within_flow X (fc_state (fst s')))
    (ctl_ends X K n lf) s"
  by (rule wp_mono [OF ctl_commit_deadline_wp [OF assms]]) simp_all

lemma flow_next_attempt_ordinal:
  assumes "fs_attempts X fs = n" and "n < fs_max fs"
  shows "\<exists>k. flow_next_attempt X fs = Some k \<and> unat (nz_get k) = Suc n"
proof -
  obtain k where k: "flow_next_attempt X fs = Some k" using flow_next_attempt_some by blast
  have "Suc n < 2 ^ 32"
    using assms(2) unat_u32_bound [of "nz_get (lim_max_attempts (pol_limits (fs_policy fs)))"]
    by (simp add: fs_max_def)
  then show ?thesis
    using k assms(1)
    by (auto simp: flow_next_attempt_def nz_new_Some_iff unat_u32_saturating_add fs_attempts_def)
qed

lemma ctl_announce_wp:
  assumes "ctl_ok X K n b lf (fc, w)"
  shows "wp (andthen (ctl_snapshot X) (\<lambda>started_context.
      andthen (ctl_call (\<lambda>fc. try_before_attempt (fc_observers fc) started_context)) (\<lambda>observed.
      case observed of
        Inl callback \<Rightarrow>
          return_err (ctl_callback_failed_after_refresh X callback started_context clock)
      | Inr _ \<Rightarrow>
          andthen (ctl_refresh_after_control_callback X clock cancellation PhaseBeforeAttempt)
            (\<lambda>admission_sample.
          andthen (ctl_gates X cancellation PhaseBeforeAttempt (flow_continuation_limit X)) (\<lambda>_.
          Prelude.ok admission_sample)))))
    (\<lambda>now s'. ctl_sampled X K n b lf now s' \<and> n < ctl_max K \<and> within_flow X (fc_state (fst s')) \<and>
       fc_current_attempt (fst s') = fc_current_attempt fc)
    (ctl_ends X K n lf) (fc, w)"
proof (rule wp_seq [OF ctl_snapshot_wp [OF assms]])
  fix c s' assume c: "s' = (fc, w) \<and> ctx_ok (ctl_max K) n c \<and>
      ctx_current_attempt c = fc_current_attempt fc"
  define w' where "w' = snd (try_before_attempt (fc_observers fc) c w)"
  have ok: "ctl_ok X K n b lf (fc, w')" by (rule ctl_ok_world [OF assms])
  have failed: "wp (ctl_callback_failed_after_refresh X callback c clock)
      (ctl_ends X K n lf) (ctl_ends X K n lf) (fc, w')" for callback
    using c by (intro wp_mono [OF ctl_callback_failed_wp [OF ok]]) auto
  have passed: "wp (andthen (ctl_refresh_after_control_callback X clock cancellation PhaseBeforeAttempt)
        (\<lambda>admission_sample.
        andthen (ctl_gates X cancellation PhaseBeforeAttempt (flow_continuation_limit X)) (\<lambda>_.
        Prelude.ok admission_sample)))
      (\<lambda>now s'. ctl_sampled X K n b lf now s' \<and> n < ctl_max K \<and>
         within_flow X (fc_state (fst s')) \<and> fc_current_attempt (fst s') = fc_current_attempt fc)
      (ctl_ends X K n lf) (fc, w')"
  proof (rule wp_seq [OF ctl_refresh_after_wp [OF ok]])
    fix now t assume t: "ctl_sampled X K n b lf now t \<and> fst t = fc\<lparr>fc_state := fc_state (fst t)\<rparr>"
    then have okt: "ctl_ok X K n b lf t" by (simp add: ctl_sampled_def)
    have "fc_current_attempt (fst t) = fc_current_attempt (fc\<lparr>fc_state := fc_state (fst t)\<rparr>)"
      by (rule arg_cong [OF conjunct2 [OF t]])
    then have cur: "fc_current_attempt (fst t) = fc_current_attempt fc" by simp
    show "wp (andthen (ctl_gates X cancellation PhaseBeforeAttempt (flow_continuation_limit X))
        (\<lambda>_. Prelude.ok now))
      (\<lambda>now s'. ctl_sampled X K n b lf now s' \<and> n < ctl_max K \<and>
         within_flow X (fc_state (fst s')) \<and> fc_current_attempt (fst s') = fc_current_attempt fc)
      (ctl_ends X K n lf) t"
      using t cur by (intro wp_seq [OF ctl_admission_gates_wp [OF okt]]) (auto simp: ctl_sampled_def)
  qed
  have "wp (case r of Inl callback \<Rightarrow> return_err (ctl_callback_failed_after_refresh X callback c clock)
      | Inr _ \<Rightarrow> andthen (ctl_refresh_after_control_callback X clock cancellation PhaseBeforeAttempt)
        (\<lambda>admission_sample.
        andthen (ctl_gates X cancellation PhaseBeforeAttempt (flow_continuation_limit X)) (\<lambda>_.
        Prelude.ok admission_sample)))
      (\<lambda>now s'. ctl_sampled X K n b lf now s' \<and> n < ctl_max K \<and>
         within_flow X (fc_state (fst s')) \<and> fc_current_attempt (fst s') = fc_current_attempt fc)
      (ctl_ends X K n lf) (fc, w')" for r
    using failed passed by (cases r) (simp_all del: wp_andthen)
  then show "wp (andthen (ctl_call (\<lambda>fc. try_before_attempt (fc_observers fc) c)) (\<lambda>observed.
      case observed of
        Inl callback \<Rightarrow> return_err (ctl_callback_failed_after_refresh X callback c clock)
      | Inr _ \<Rightarrow>
          andthen (ctl_refresh_after_control_callback X clock cancellation PhaseBeforeAttempt)
            (\<lambda>admission_sample.
          andthen (ctl_gates X cancellation PhaseBeforeAttempt (flow_continuation_limit X)) (\<lambda>_.
          Prelude.ok admission_sample))))
    (\<lambda>now s'. ctl_sampled X K n b lf now s' \<and> n < ctl_max K \<and> within_flow X (fc_state (fst s')) \<and>
       fc_current_attempt (fst s') = fc_current_attempt fc)
    (ctl_ends X K n lf) s'"
    using c by (subst wp_andthen) (simp only: wp_ctl_call case_prod_conv w'_def)
qed

lemma ctl_before_attempt_wp:
  assumes "ctl_ok X K n b lf s"
  shows "wp (ctl_before_attempt X clock cancellation)
    (\<lambda>now s'. ctl_sampled X K n b lf now s' \<and> n < ctl_max K \<and> within_flow X (fc_state (fst s')) \<and>
       (\<exists>k. fc_current_attempt (fst s') = Some k \<and> unat (nz_get k) = Suc n))
    (ctl_ends X K n lf) s"
  unfolding ctl_before_attempt_def
proof (rule ctl_sample_wp [OF assms], rule wp_seq)
  fix now s' assume "ctl_sampled X K n b lf now s'"
  then have "ctl_ok X K n b lf s'" by (simp add: ctl_sampled_def)
  from ctl_admission_gates_wp [OF this]
  show "wp (ctl_gates X cancellation PhaseBeforeAttempt (flow_continuation_limit X))
    (\<lambda>_ t. ctl_ok X K n b lf t \<and> n < ctl_max K) (ctl_ends X K n lf) s'"
    by (rule wp_mono) simp_all
next
  fix a t assume t: "ctl_ok X K n b lf t \<and> n < ctl_max K"
  obtain fc w where p: "t = (fc, w)" by (cases t)
  have facts: "fs_attempts X (fc_state fc) = n" "n < fs_max (fc_state fc)"
    using t same_conf_max [of K fc] by (simp_all add: p ctl_ok_def)
  obtain k where k: "flow_next_attempt X (fc_state fc) = Some k" "unat (nz_get k) = Suc n"
    using flow_next_attempt_ordinal [OF facts] by blast
  let ?fc = "fc\<lparr>fc_current_attempt := Some k, fc_current_hard_attempt_timeout := None,
      fc_next_delay := None, fc_retry_after_hint := None\<rparr>"
  have "ctl_ok X K n b lf (?fc, w)" using t by (simp add: p)
  from wp_mono [OF ctl_announce_wp [OF this]] k
  show "wp (andthen (ctl_query (flow_next_attempt X)) (\<lambda>next.
     andthen (ctl_set (\<lambda>fc. fc\<lparr>fc_current_attempt := Some next,
         fc_current_hard_attempt_timeout := None, fc_next_delay := None,
         fc_retry_after_hint := None\<rparr>)) (\<lambda>_.
     andthen (ctl_snapshot X) (\<lambda>started_context.
     andthen (ctl_call (\<lambda>fc. try_before_attempt (fc_observers fc) started_context)) (\<lambda>observed.
     case observed of
       Inl callback \<Rightarrow>
         return_err (ctl_callback_failed_after_refresh X callback started_context clock)
     | Inr _ \<Rightarrow>
         andthen (ctl_refresh_after_control_callback X clock cancellation PhaseBeforeAttempt)
           (\<lambda>admission_sample.
         andthen (ctl_gates X cancellation PhaseBeforeAttempt (flow_continuation_limit X)) (\<lambda>_.
         Prelude.ok admission_sample)))))))
    (\<lambda>now s'. ctl_sampled X K n b lf now s' \<and> n < ctl_max K \<and> within_flow X (fc_state (fst s')) \<and>
       (\<exists>k. fc_current_attempt (fst s') = Some k \<and> unat (nz_get k) = Suc n))
    (ctl_ends X K n lf) t"
    unfolding p wp_andthen [of "ctl_query _"] wp_andthen [of "ctl_set _"] wp_ctl_query wp_ctl_set
    by (simp del: wp_andthen)
qed

end

section \<open>Completion, failure and terminal records\<close>

context deps_laws
begin

lemma ctl_finish_wp:
  assumes "ctl_ok X K n True lf (fc, w)"
  shows "wp (flow_finish_attempt X now)
    (\<lambda>_ fs. ctl_sampled X K n False lf now (fc\<lparr>fc_state := fs\<rparr>, w))
    (\<lambda>_ fs. fs = fc_state fc) (fc_state fc)"
proof -
  have inv: "fs_inv X (fc_state fc)" "fs_active (fc_state fc)"
    using assms by (simp_all add: ctl_ok_def)
  show ?thesis
    by (rule wp_mono [OF fs_finish [OF inv]])
      (use assms ctl_ok_state [OF assms, of _ w] in \<open>auto simp: ctl_sampled_def ctl_ok_def\<close>)
qed

lemma ctl_finish_or_error_wp:
  assumes "ctl_ok X K n True lf s"
    and "\<And>now s'. ctl_sampled X K n False lf now s' \<Longrightarrow> wp m Q (ctl_ends X K n lf) s'"
  shows "wp (andthen (ctl_now clock) (\<lambda>now. andthen (ctl_flow (flow_finish_attempt X now)) (\<lambda>r.
      andthen (ctl_or_clock_failure X r) (\<lambda>_. m)))) Q (ctl_ends X K n lf) s"
proof (cases s)
  case (Pair fc w)
  have ok: "ctl_ok X K n True lf (fc, snd (clock w))"
    by (rule ctl_ok_world [OF assms(1) [unfolded Pair]])
  show ?thesis
    by (auto simp: Pair ctl_or_clock_failure_def
        intro!: wp_mono [OF ctl_finish_wp [OF ok]]
          wp_mono [OF ctl_inactive_clock_failure_wp [OF ok]] assms(2))
qed

lemma ctl_finish_success_wp:
  assumes "ctl_ok X K n True lf s"
  shows "wp (ctl_finish_success X clock)
    (\<lambda>c s'. ctl_ok X K n False lf s' \<and> ctx_ok (ctl_max K) n c \<and> ctx_current_attempt c = None)
    (ctl_ends X K n lf) s"
  unfolding ctl_finish_success_def
proof (rule ctl_finish_or_error_wp [OF assms])
  fix now s' assume s': "ctl_sampled X K n False lf now s'"
  obtain fc w where p: "s' = (fc, w)" by (cases s')
  have cleared: "ctl_ok X K n False lf (fc\<lparr>fc_current_attempt := None,
      fc_current_hard_attempt_timeout := None\<rparr>, w)"
    using s' by (simp add: p ctl_sampled_def)
  then show "wp (andthen ctl_clear_current_attempt (\<lambda>_. ctl_snapshot X))
    (\<lambda>c s'. ctl_ok X K n False lf s' \<and> ctx_ok (ctl_max K) n c \<and> ctx_current_attempt c = None)
    (ctl_ends X K n lf) s'"
    by (auto simp: p ctl_clear_current_attempt_def
        intro!: wp_mono [OF ctl_snapshot_wp [OF cleared]])
qed

lemma ctl_infrastructure_records_wp:
  assumes "ctl_ok X K n b lf s"
  shows "wp (ctl_record_active_infrastructure_failure X failure now)
      (\<lambda>e s'. ctl_ends X K n lf e s' \<and> (\<exists>f. err_reason e = ReasonInfrastructure f)) E s"
    and "wp (ctl_record_inactive_infrastructure_failure X failure now)
      (\<lambda>e s'. ctl_ends X K n lf e s' \<and> (\<exists>f. err_reason e = ReasonInfrastructure f)) E s"
proof -
  have main: "wp (ctl_record_active_infrastructure_failure X failure now)
      (\<lambda>e s'. ctl_ends X K n lf e s' \<and> (\<exists>f. err_reason e = ReasonInfrastructure f)) E (fc, w)"
    if ok: "ctl_ok X K n b lf (fc, w)" for fc w
  proof -
    have inv: "fs_inv X (fc_state fc)" using ok by (simp add: ctl_ok_def)
    have finish: "wp (flow_finish_for_infrastructure X now)
        (\<lambda>_ fs. \<exists>b. ctl_ok X K n b lf (fc\<lparr>fc_state := fs\<rparr>, w))
        (\<lambda>_ fs. \<exists>b. ctl_ok X K n b lf (fc\<lparr>fc_state := fs\<rparr>, w)) (fc_state fc)"
      using ok
      by (intro wp_mono [OF fs_finish_for_infrastructure [OF inv]])
        (use ok ctl_ok_state [OF ok, of _ w] in \<open>auto simp: ctl_ok_def\<close>)
    have record_it: "wp (andthen (ctl_snapshot X) (\<lambda>context. ctl_infrastructure f context))
        (\<lambda>e s'. ctl_ends X K n lf e s' \<and> (\<exists>f. err_reason e = ReasonInfrastructure f)) E (fc', w)"
      if "ctl_ok X K n b' lf (fc', w)" for fc' b' f
      by (rule wp_seq [OF ctl_snapshot_wp [OF that]])
        (use that in \<open>auto intro!: wp_mono [OF ctl_with_context_wp(3)]\<close>)
    show ?thesis
      using record_it unfolding ctl_record_active_infrastructure_failure_def
      by (auto intro!: wp_mono [OF finish])
  qed
  obtain fc w where p: "s = (fc, w)" by (cases s)
  show "wp (ctl_record_active_infrastructure_failure X failure now)
      (\<lambda>e s'. ctl_ends X K n lf e s' \<and> (\<exists>f. err_reason e = ReasonInfrastructure f)) E s"
    using main assms by (simp add: p)
  have "ctl_ok X K n b lf (fc\<lparr>fc_current_attempt := None,
      fc_current_hard_attempt_timeout := None\<rparr>, w)"
    using assms by (simp add: p)
  from main [OF this, unfolded ctl_record_active_infrastructure_failure_def]
  show "wp (ctl_record_inactive_infrastructure_failure X failure now)
      (\<lambda>e s'. ctl_ends X K n lf e s' \<and> (\<exists>f. err_reason e = ReasonInfrastructure f)) E s"
    by (simp add: p ctl_record_inactive_infrastructure_failure_def ctl_clear_current_attempt_def)
qed

lemma ctl_record_attempt_cancellation_wp:
  assumes "ctl_ok X K n True lf s"
  shows "wp (ctl_record_attempt_cancellation X clock) (ctl_ends X K n lf) E s"
proof (cases s)
  case (Pair fc w)
  have ok: "ctl_ok X K n True lf (fc, snd (clock w))"
    by (rule ctl_ok_world [OF assms [unfolded Pair]])
  show ?thesis
    unfolding ctl_record_attempt_cancellation_def
    by (auto simp: Pair ctl_sampled_def intro!: wp_mono [OF ctl_finish_wp [OF ok]]
        wp_mono [OF ctl_inactive_clock_failure_wp [OF ok]] wp_mono [OF ctl_snapshot_wp]
        wp_mono [OF ctl_with_context_wp(1)])
qed

lemma ctl_record_backoff_cancellation_wp:
  assumes "ctl_ok X K n b lf s"
  shows "wp (ctl_record_backoff_cancellation X clock) (ctl_ends X K n lf) E s"
proof (cases s)
  case (Pair fc w)
  have ok: "ctl_ok X K n b lf (fc, snd (clock w))"
    by (rule ctl_ok_world [OF assms [unfolded Pair]])
  show ?thesis
    unfolding ctl_record_backoff_cancellation_def
    by (auto simp: Pair ctl_sampled_def intro!: wp_mono [OF ctl_refresh_wp [OF ok]]
        wp_mono [OF ctl_inactive_clock_failure_wp [OF ok]] wp_mono [OF ctl_snapshot_wp]
        wp_mono [OF ctl_with_context_wp(1)])
qed

lemma ctl_check_backoff_ready_wp:
  assumes "ctl_ok X K n b lf s"
  shows "wp (ctl_check_backoff_ready X clock cancellation due)
    (\<lambda>ready s'. ctl_ok X K n b lf s' \<and>
       (ready \<longleftrightarrow> nanos_at X due \<le> nanos_at X (bs_sampled_at (fs_budget (fc_state (fst s')))))
       \<and> instant_domain X due = instant_domain X (bs_sampled_at (fs_budget (fc_state (fst s')))))
    (ctl_ends X K n lf) s"
  unfolding ctl_check_backoff_ready_def
proof (rule ctl_sample_wp [OF assms], rule ctl_is_cancelled_wp)
  fix now s' assume s': "ctl_sampled X K n b lf now s'"
  show "ctl_ok X K n b lf s'" using s' by (simp add: ctl_sampled_def)
  fix w'
  have ok: "ctl_ok X K n b lf (fst s', w')"
    using s' ctl_ok_world [of X K n b lf "fst s'" "snd s'" w'] by (simp add: ctl_sampled_def)
  show "wp (ctl_or_clock_failure X (deadline_reached X now due))
    (\<lambda>ready s'. ctl_ok X K n b lf s' \<and>
       (ready \<longleftrightarrow> nanos_at X due \<le> nanos_at X (bs_sampled_at (fs_budget (fc_state (fst s')))))
       \<and> instant_domain X due = instant_domain X (bs_sampled_at (fs_budget (fc_state (fst s')))))
    (ctl_ends X K n lf) (fst s', w')"
  proof (rule ctl_or_clock_failure_wp [OF ok])
    fix ready assume "deadline_reached X now due = Inr ready"
    then show "ctl_ok X K n b lf (fst s', w') \<and>
       (ready \<longleftrightarrow> nanos_at X due \<le> nanos_at X (bs_sampled_at (fs_budget (fc_state (fst (fst s', w'))))))
       \<and> instant_domain X due =
         instant_domain X (bs_sampled_at (fs_budget (fc_state (fst (fst s', w')))))"
      using ok s' validate_iff [of due "instant_domain X now"]
      by (cases "validate_domain X due (instant_domain X now)")
        (auto simp: deadline_reached_def ctl_sampled_def nanos_at_def less_eq_duration_def)
  qed
qed

lemma ctl_prepare_attempt_wp:
  assumes "ctl_ok X K n b lf s"
  shows "wp (ctl_prepare_attempt X now)
    (\<lambda>plan s'. ctl_ok X K n b lf s' \<and>
       fc_current_hard_attempt_timeout (fst s') = plan_duration plan)
    (ctl_ends X K n lf) s"
proof (cases s)
  case (Pair fc w)
  have ok: "ctl_ok X K n b lf (fc, w)" using assms by (simp add: Pair)
  have inv: "fs_inv X (fc_state fc)" using ok by (simp add: ctl_ok_def)
  obtain r where r: "flow_effective_timeout X (fc_attempt_timeout fc) (fc_state fc) = Some r"
    using fs_reads_some(4) [OF inv] by blast
  have flow: "fs_flow_timeout (fc_state fc) \<noteq> None" if "r = Some t" "eff_scope t = ScopeFlow" for t
    using r that
    by (auto simp: flow_effective_timeout_def flow_remaining_def effective_timeout_select_def
        split: option.splits if_splits)
  have "wp (ctl_prepare_timeout X now) (\<lambda>_ s'. s' = (fc, w)) (ctl_ends X K n lf) (fc, w)"
  proof (cases r)
    case None
    then show ?thesis using r by (simp add: ctl_prepare_timeout_def)
  next
    case (Some t)
    show ?thesis
    proof (cases "eff_scope t")
      case ScopeAttempt
      then show ?thesis using r Some by (simp add: ctl_prepare_timeout_def)
    next
      case ScopeFlow
      then obtain limit where "fs_flow_timeout (fc_state fc) = Some limit"
        using flow [OF Some] by blast
      then show ?thesis
        using r Some ScopeFlow
        by (simp add: ctl_prepare_timeout_def flow_deadline_def map_right_def split: sum.split)
    qed
  qed
  then show ?thesis
    unfolding ctl_prepare_attempt_def Pair
    by (rule wp_seq) (use ok in \<open>auto simp: Let_def intro!: ctl_or_clock_failure_wp [OF ok]\<close>)
qed


text \<open>Observing and deciding, with the failure recorded and the attempt closed.\<close>

lemma ctl_control_callback_wp:
  assumes "ctl_ok X K n b lf (fc, w)" and "ctx_ok (ctl_max K) n c"
    and "\<And>a t. r = Inr a \<Longrightarrow> ctl_ok X K n b lf t \<Longrightarrow> wp (f a) Q (ctl_ends X K n lf) t"
  shows "wp (case r of
      Inl callback \<Rightarrow> return_err (ctl_callback_failed_after_refresh X callback c clock)
    | Inr a \<Rightarrow> andthen (ctl_refresh_after_control_callback X clock cancellation phase)
        (\<lambda>_. f a)) Q (ctl_ends X K n lf) (fc, w)"
proof (cases r)
  case (Inl callback)
  then show ?thesis
    by (simp add: wp_only [OF ctl_callback_failed_wp [OF assms(1,2)]])
next
  case (Inr a)
  have "wp (andthen (ctl_refresh_after_control_callback X clock cancellation phase) (\<lambda>_. f a))
      Q (ctl_ends X K n lf) (fc, w)"
    by (rule wp_seq [OF ctl_refresh_after_wp [OF assms(1)]])
      (use assms(3) Inr in \<open>auto simp: ctl_sampled_def\<close>)
  then show ?thesis using Inr by (simp del: wp_andthen)
qed

lemma ctl_ask_rules_wp:
  assumes "ctl_ok X K n b (Some failure) s"
  shows "wp (andthen (ctl_snapshot X) (\<lambda>rule_context.
      andthen (expect_reads (\<lambda>(fc, w). fc_last_failure fc)) (\<lambda>failure.
      andthen (ctl_call (\<lambda>fc. try_decide (fc_rules fc) failure rule_context)) (\<lambda>decided.
      case decided of
        Inl callback \<Rightarrow>
          return_err (ctl_callback_failed_after_refresh X callback rule_context clock)
      | Inr decision \<Rightarrow>
          andthen (ctl_refresh_after_control_callback X clock cancellation PhaseBackoff) (\<lambda>_.
          Prelude.ok decision)))))
    (\<lambda>_ s'. ctl_ok X K n b (Some failure) s') (ctl_ends X K n (Some failure)) s"
proof (cases s)
  case (Pair fc w)
  have ok: "ctl_ok X K n b (Some failure) (fc, w)" using assms by (simp add: Pair)
  have lf: "fc_last_failure fc = Some failure" using ok by (simp add: ctl_ok_def)
  show ?thesis
    unfolding Pair
  proof (rule wp_seq [OF ctl_snapshot_wp [OF ok]])
    fix c s' assume c: "s' = (fc, w) \<and> ctx_ok (ctl_max K) n c \<and>
        ctx_current_attempt c = fc_current_attempt fc"
    have "wp (case r of
        Inl callback \<Rightarrow> return_err (ctl_callback_failed_after_refresh X callback c clock)
      | Inr decision \<Rightarrow>
          andthen (ctl_refresh_after_control_callback X clock cancellation PhaseBackoff) (\<lambda>_.
          Prelude.ok decision))
      (\<lambda>_ s'. ctl_ok X K n b (Some failure) s') (ctl_ends X K n (Some failure)) (fc, w')" for r w'
      by (rule ctl_control_callback_wp [OF ctl_ok_world [OF ok]]) (use c in auto)
    then show "wp (andthen (expect_reads (\<lambda>(fc, w). fc_last_failure fc)) (\<lambda>failure.
      andthen (ctl_call (\<lambda>fc. try_decide (fc_rules fc) failure c)) (\<lambda>decided.
      case decided of
        Inl callback \<Rightarrow> return_err (ctl_callback_failed_after_refresh X callback c clock)
      | Inr decision \<Rightarrow>
          andthen (ctl_refresh_after_control_callback X clock cancellation PhaseBackoff) (\<lambda>_.
          Prelude.ok decision))))
      (\<lambda>_ s'. ctl_ok X K n b (Some failure) s') (ctl_ends X K n (Some failure)) s'"
      unfolding wp_andthen [of "expect_reads _"] wp_andthen [of "ctl_call _"] wp_expect_reads
        wp_ctl_call
      using c lf by (simp del: wp_andthen)
  qed
qed

lemma ctl_observe_failure_wp:
  assumes "ctl_ok X K n True lf s"
  shows "wp (ctl_observe_failure X failure clock cancellation)
    (\<lambda>_ s'. ctl_ok X K n False (Some failure) s') (ctl_ends X K n (Some failure)) s"
proof -
  let ?rules = "andthen (ctl_snapshot X) (\<lambda>rule_context.
      andthen (expect_reads (\<lambda>(fc, w). fc_last_failure fc)) (\<lambda>failure.
      andthen (ctl_call (\<lambda>fc. try_decide (fc_rules fc) failure rule_context)) (\<lambda>decided.
      case decided of
        Inl callback \<Rightarrow>
          return_err (ctl_callback_failed_after_refresh X callback rule_context clock)
      | Inr decision \<Rightarrow>
          andthen (ctl_refresh_after_control_callback X clock cancellation PhaseBackoff) (\<lambda>_.
          Prelude.ok decision))))"
  let ?Q = "\<lambda>_. ctl_ok X K n False (Some failure)" and ?E = "ctl_ends X K n (Some failure)"
  obtain fc w where p: "s = (fc, w)" by (cases s)
  have ok: "ctl_ok X K n True (Some failure) (fc\<lparr>fc_last_failure := Some failure\<rparr>, w)"
    using assms by (simp add: p ctl_ok_def same_conf_def)
  have notify: "wp (andthen (ctl_snapshot X) (\<lambda>failed_context.
      andthen (expect_reads (\<lambda>(fc, w). fc_last_failure fc)) (\<lambda>failure.
      andthen (ctl_call (\<lambda>fc. try_attempt_failed (fc_observers fc) failure failed_context))
        (\<lambda>observed. case observed of
          Inl callback \<Rightarrow>
            return_err (ctl_callback_failed_after_refresh X callback failed_context clock)
        | Inr _ \<Rightarrow>
            andthen (ctl_refresh_after_control_callback X clock cancellation PhaseBackoff)
              (\<lambda>_. ?rules))))) ?Q ?E t"
    if t: "ctl_sampled X K n False (Some failure) now t" for now t
  proof (cases t)
    case (Pair tc tw)
    have okt: "ctl_ok X K n False (Some failure) (tc, tw)"
      using t by (simp add: ctl_sampled_def Pair)
    then have lf: "fc_last_failure tc = Some failure" by (simp add: ctl_ok_def)
    show ?thesis
      unfolding Pair
    proof (rule wp_seq [OF ctl_snapshot_wp [OF okt]])
      fix c s' assume c: "s' = (tc, tw) \<and> ctx_ok (ctl_max K) n c \<and>
          ctx_current_attempt c = fc_current_attempt tc"
      have "wp (case r of
          Inl callback \<Rightarrow> return_err (ctl_callback_failed_after_refresh X callback c clock)
        | Inr _ \<Rightarrow>
            andthen (ctl_refresh_after_control_callback X clock cancellation PhaseBackoff)
              (\<lambda>_. ?rules)) ?Q ?E (tc, w')" for r :: "retry_callback_failure + unit" and w'
        by (rule ctl_control_callback_wp [OF ctl_ok_world [OF okt]])
          (use c in \<open>auto simp del: wp_andthen intro!: ctl_ask_rules_wp\<close>)
      then show "wp (andthen (expect_reads (\<lambda>(fc, w). fc_last_failure fc)) (\<lambda>failure.
        andthen (ctl_call (\<lambda>fc. try_attempt_failed (fc_observers fc) failure c)) (\<lambda>observed.
        case observed of
          Inl callback \<Rightarrow> return_err (ctl_callback_failed_after_refresh X callback c clock)
        | Inr _ \<Rightarrow>
            andthen (ctl_refresh_after_control_callback X clock cancellation PhaseBackoff)
              (\<lambda>_. ?rules)))) ?Q ?E s'"
        unfolding wp_andthen [of "expect_reads _"] wp_andthen [of "ctl_call _"] wp_expect_reads
          wp_ctl_call
        using c lf by (simp del: wp_andthen)
    qed
  qed
  show ?thesis
    unfolding ctl_observe_failure_def p
    by (subst wp_andthen, subst wp_ctl_set)
      (simp del: wp_andthen, rule ctl_finish_or_error_wp [OF ok], rule notify)
qed

text \<open>The verdict on a decision.\<close>

lemma ctl_resolve_decision_wp:
  assumes "ctl_ok X K n b (Some failure) s"
  shows "wp (ctl_resolve_decision X decision)
    (\<lambda>d s'. s' = s \<and>
       (if decision = UseDefault
        then d = DecisionRetry \<and> failure_as_error failure \<noteq> None \<and> fc_fallback K = FallbackRetry
        else d = decision \<and> decision \<noteq> DecisionAbort))
    (\<lambda>e s'. ctl_ends X K n (Some failure) e s' \<and>
       (case decision of
          UseDefault \<Rightarrow>
            (case failure of
               FailTimedOut scope \<Rightarrow> err_reason e = ReasonTimedOut scope
             | FailPanicked p \<Rightarrow> err_reason e = ReasonAborted
             | FailError x \<Rightarrow> err_reason e = ReasonAborted \<and> fc_fallback K = FallbackAbort)
        | DecisionAbort \<Rightarrow> err_reason e = ReasonAborted
        | _ \<Rightarrow> False)) s"
proof (cases s)
  case (Pair fc w)
  have ok: "ctl_ok X K n b (Some failure) (fc, w)" using assms by (simp add: Pair)
  have lf: "fc_last_failure fc = Some failure" and fb: "fc_fallback fc = fc_fallback K"
    using ok by (simp_all add: ctl_ok_def same_conf_def)
  show ?thesis
    using lf fb unfolding Pair ctl_resolve_decision_def
    by (cases decision; cases failure; cases "fc_fallback K")
      (auto simp: Let_def intro!: wp_only [OF ctl_timed_out_wp [OF ok]]
        wp_only [OF ctl_aborted_wp [OF ok]])
qed


lemma fs_retry_room:
  assumes "fs_inv X fs" and "flow_retry_limit X d fs = Some None"
  shows "fs_attempts X fs < fs_max fs"
  using assms inv_retry_limit(2) [of "fs_budget fs" d] inv_remaining [of "fs_budget fs"]
  by (simp add: fs_inv_def flow_retry_limit_def fs_attempts_def fs_max_def)

lemma ctl_retry_gates_wp:
  assumes "ctl_ok X K n b lf s"
  shows "wp (ctl_gates X cancellation PhaseBackoff (flow_retry_limit X d))
    (\<lambda>_ s'. fst s' = fst s \<and> ctl_ok X K n b lf s' \<and> within_flow X (fc_state (fst s)) \<and>
       n < ctl_max K \<and> flow_retry_limit X d (fc_state (fst s)) = Some None)
    (ctl_ends X K n lf) s"
proof (rule wp_mono [OF ctl_gates_wp
      [where limit_of = "flow_retry_limit X d", OF assms ctl_query_limit_some(2) [OF assms]]])
  fix a s'
  assume *: "fst s' = fst s \<and> ctl_ok X K n b lf s' \<and>
      flow_timed_out X (fc_state (fst s)) = Some False \<and>
      flow_retry_limit X d (fc_state (fst s)) = Some None"
  have inv: "fs_inv X (fc_state (fst s))" "same_conf K (fst s)"
      "fs_attempts X (fc_state (fst s)) = n"
    using assms by (auto simp: ctl_ok_def split: prod.splits)
  then show "fst s' = fst s \<and> ctl_ok X K n b lf s' \<and> within_flow X (fc_state (fst s)) \<and>
      n < ctl_max K \<and> flow_retry_limit X d (fc_state (fst s)) = Some None"
    using * flow_timed_out_iff [OF inv(1)] fs_retry_room [OF inv(1), of d] same_conf_max [OF inv(2)]
    by simp
qed simp

end

text \<open>A prepared backoff: what holds of the plan and of the state it was made in.\<close>

definition backoff_prepared ::
  "('i, 'd, 'x, 'b, 'w) deps \<Rightarrow> duration \<Rightarrow> 'i prepared_backoff_plan
     \<Rightarrow> ('i, 'b, 'w) flow_state \<Rightarrow> bool"
where
  "backoff_prepared X delay plan fs \<longleftrightarrow>
     within_flow X fs \<and> flow_retry_limit X delay fs = Some None \<and>
     flow_backoff_deadline X (bs_sampled_at (fs_budget fs)) delay fs = Inr (bop_deadline plan) \<and>
     bop_immediate plan = (delay = 0)"

context deps_laws
begin

lemma ctl_fix_deadline_wp:
  assumes "ctl_ok X K n b lf (fc, w)"
  shows "wp (andthen (ctl_refresh_after_control_callback X clock cancellation PhaseBackoff)
       (\<lambda>backoff_now.
     andthen (ctl_gates X cancellation PhaseBackoff (flow_retry_limit X d)) (\<lambda>_.
     andthen (ctl_get (\<lambda>fc. flow_backoff_deadline X backoff_now d (fc_state fc))) (\<lambda>r.
     andthen (ctl_or_clock_failure X r) (\<lambda>deadline.
     Prelude.ok (backoff_plan_new deadline (dur_is_zero d)))))))
    (\<lambda>plan s. ctl_ok X K n b lf s \<and> n < ctl_max K \<and> backoff_prepared X d plan (fc_state (fst s)) \<and>
       fc_next_delay (fst s) = fc_next_delay fc)
    (ctl_ends X K n lf) (fc, w)"
proof (rule wp_seq [OF ctl_refresh_after_wp [OF assms]])
  fix now t
  assume t: "ctl_sampled X K n b lf now t \<and> fst t = fc\<lparr>fc_state := fc_state (fst t)\<rparr>"
  then have okt: "ctl_ok X K n b lf t" and now: "bs_sampled_at (fs_budget (fc_state (fst t))) = now"
    by (simp_all add: ctl_sampled_def)
  have "fc_next_delay (fst t) = fc_next_delay (fc\<lparr>fc_state := fc_state (fst t)\<rparr>)"
    by (rule arg_cong [OF conjunct2 [OF t]])
  then have next_delay: "fc_next_delay (fst t) = fc_next_delay fc" by simp
  show "wp (andthen (ctl_gates X cancellation PhaseBackoff (flow_retry_limit X d)) (\<lambda>_.
     andthen (ctl_get (\<lambda>fc. flow_backoff_deadline X now d (fc_state fc))) (\<lambda>r.
     andthen (ctl_or_clock_failure X r) (\<lambda>deadline.
     Prelude.ok (backoff_plan_new deadline (dur_is_zero d))))))
    (\<lambda>plan s. ctl_ok X K n b lf s \<and> n < ctl_max K \<and> backoff_prepared X d plan (fc_state (fst s)) \<and>
       fc_next_delay (fst s) = fc_next_delay fc)
    (ctl_ends X K n lf) t"
  proof (rule wp_seq [OF ctl_retry_gates_wp [OF okt]])
    fix a u
    assume u: "fst u = fst t \<and> ctl_ok X K n b lf u \<and> within_flow X (fc_state (fst t)) \<and>
        n < ctl_max K \<and> flow_retry_limit X d (fc_state (fst t)) = Some None"
    then have "ctl_ok X K n b lf (fst t, snd u)" by (cases u) simp
    then show "wp (andthen (ctl_get (\<lambda>fc. flow_backoff_deadline X now d (fc_state fc))) (\<lambda>r.
       andthen (ctl_or_clock_failure X r) (\<lambda>deadline.
       Prelude.ok (backoff_plan_new deadline (dur_is_zero d)))))
      (\<lambda>plan s. ctl_ok X K n b lf s \<and> n < ctl_max K \<and> backoff_prepared X d plan (fc_state (fst s))
         \<and> fc_next_delay (fst s) = fc_next_delay fc)
      (ctl_ends X K n lf) u"
      using u now next_delay
      by (cases u) (auto simp: backoff_prepared_def backoff_plan_new_def
          intro!: ctl_or_clock_failure_wp)
  qed
qed

lemma ctl_schedule_retry_wp:
  assumes "ctl_ok X K n b lf s"
  shows "wp (ctl_schedule_retry X decision clock cancellation)
    (\<lambda>plan s'. ctl_ok X K n b lf s' \<and> n < ctl_max K \<and>
       (\<exists>delay. fc_next_delay (fst s') = Some delay \<and>
          backoff_prepared X delay plan (fc_state (fst s'))))
    (ctl_ends X K n lf) s"
proof -
  obtain fc w where p: "s = (fc, w)" by (cases s)
  let ?fc1 = "fc\<lparr>fc_retry_after_hint := decision_retry_after_hint decision\<rparr>"
  obtain step fs w1 where nb: "flow_next_backoff X decision (fc_state fc) w = (step, fs, w1)"
    by (metis prod_cases3)
  let ?d = "step_effective_delay step"
  let ?fc2 = "?fc1\<lparr>fc_state := fs, fc_next_delay := Some ?d\<rparr>"
  have "fs_budget fs = fs_budget (fc_state fc) \<and> fs_policy fs = fs_policy (fc_state fc) \<and>
      fs_flow_timeout fs = fs_flow_timeout (fc_state fc)"
    using nb by (auto simp: flow_next_backoff_def Let_def case_prod_beta)
  then have ok2: "ctl_ok X K n b lf (?fc2, w1)"
    using assms
    by (simp add: p ctl_ok_def same_conf_def fs_frame_def fs_inv_def fs_attempts_def fs_active_def)
  let ?Q = "\<lambda>plan s'. ctl_ok X K n b lf s' \<and> n < ctl_max K \<and>
       (\<exists>delay. fc_next_delay (fst s') = Some delay \<and>
          backoff_prepared X delay plan (fc_state (fst s')))"
  let ?fix = "andthen ctl_clear_current_attempt (\<lambda>_.
     andthen (ctl_refresh_after_control_callback X clock cancellation PhaseBackoff)
       (\<lambda>backoff_now.
     andthen (ctl_gates X cancellation PhaseBackoff (flow_retry_limit X ?d)) (\<lambda>_.
     andthen (ctl_get (\<lambda>fc. flow_backoff_deadline X backoff_now ?d (fc_state fc))) (\<lambda>r.
     andthen (ctl_or_clock_failure X r) (\<lambda>deadline.
     Prelude.ok (backoff_plan_new deadline (dur_is_zero ?d)))))))"
  have fix_wp: "wp ?fix ?Q (ctl_ends X K n lf) (tc, tw)"
    if "ctl_ok X K n b lf (tc, tw)" "fc_next_delay tc = Some ?d" for tc tw
  proof -
    have "ctl_ok X K n b lf (tc\<lparr>fc_current_attempt := None,
        fc_current_hard_attempt_timeout := None\<rparr>, tw)"
      using that by simp
    from ctl_fix_deadline_wp [OF this, of clock cancellation ?d] that(2) show ?thesis
      unfolding ctl_clear_current_attempt_def
      by (subst wp_andthen, subst wp_ctl_set) (auto simp del: wp_andthen elim!: wp_mono)
  qed
  have announce: "wp (andthen (ctl_snapshot X) (\<lambda>scheduled_context.
     andthen (ctl_call (\<lambda>fc. try_retry_scheduled (fc_observers fc) step scheduled_context))
       (\<lambda>observed. case observed of
       Inl callback \<Rightarrow>
         return_err (ctl_callback_failed_after_refresh X callback scheduled_context clock)
     | Inr _ \<Rightarrow> ?fix))) ?Q (ctl_ends X K n lf) (tc, tw)"
    if ok: "ctl_ok X K n b lf (tc, tw)" and nd: "fc_next_delay tc = Some ?d" for tc tw
  proof (rule wp_seq [OF ctl_snapshot_wp [OF ok]])
    fix c s' assume c: "s' = (tc, tw) \<and> ctx_ok (ctl_max K) n c \<and>
        ctx_current_attempt c = fc_current_attempt tc"
    have "wp (case r of
        Inl callback \<Rightarrow> return_err (ctl_callback_failed_after_refresh X callback c clock)
      | Inr _ \<Rightarrow> ?fix) ?Q (ctl_ends X K n lf) (tc, w')" for r :: "retry_callback_failure + unit" and w'
    proof (cases r)
      case (Inl callback)
      then show ?thesis
        using c by (simp add: wp_only [OF ctl_callback_failed_wp [OF ctl_ok_world [OF ok]]])
    next
      case (Inr u)
      then show ?thesis
        using fix_wp [OF ctl_ok_world [OF ok] nd] by (simp del: wp_andthen)
    qed
    then show "wp (andthen (ctl_call (\<lambda>fc. try_retry_scheduled (fc_observers fc) step c))
       (\<lambda>observed. case observed of
         Inl callback \<Rightarrow> return_err (ctl_callback_failed_after_refresh X callback c clock)
       | Inr _ \<Rightarrow> ?fix)) ?Q (ctl_ends X K n lf) s'"
      unfolding wp_andthen [of "ctl_call _"] wp_ctl_call using c by (simp del: wp_andthen)
  qed
  have sample: "wp (andthen (ctl_now clock) (\<lambda>now. andthen (ctl_refresh_or_error X now) (\<lambda>_.
     andthen (ctl_gates X None PhaseBackoff (flow_retry_limit X ?d)) (\<lambda>_.
     andthen (ctl_snapshot X) (\<lambda>scheduled_context.
     andthen (ctl_call (\<lambda>fc. try_retry_scheduled (fc_observers fc) step scheduled_context))
       (\<lambda>observed. case observed of
       Inl callback \<Rightarrow>
         return_err (ctl_callback_failed_after_refresh X callback scheduled_context clock)
     | Inr _ \<Rightarrow> ?fix)))))) ?Q (ctl_ends X K n lf) (?fc2, w1)"
  proof (rule ctl_sample_wp [OF ok2], rule wp_seq [OF ctl_retry_gates_wp])
    fix now t assume t: "ctl_sampled X K n b lf now t"
      "fst t = (fst (?fc2, w1))\<lparr>fc_state := fc_state (fst t)\<rparr>"
    show "ctl_ok X K n b lf t" using t(1) by (simp add: ctl_sampled_def)
    fix a u assume u: "fst u = fst t \<and> ctl_ok X K n b lf u \<and> within_flow X (fc_state (fst t)) \<and>
        n < ctl_max K \<and> flow_retry_limit X ?d (fc_state (fst t)) = Some None"
    have "fc_next_delay (fst t) = fc_next_delay ((fst (?fc2, w1))\<lparr>fc_state := fc_state (fst t)\<rparr>)"
      by (rule arg_cong [OF t(2)])
    then have nd: "fc_next_delay (fst u) = Some ?d" using u by simp
    have oku: "ctl_ok X K n b lf (fst u, snd u)"
      using conjunct1 [OF conjunct2 [OF u]] by (simp only: prod.collapse)
    show "wp (andthen (ctl_snapshot X) (\<lambda>scheduled_context.
     andthen (ctl_call (\<lambda>fc. try_retry_scheduled (fc_observers fc) step scheduled_context))
       (\<lambda>observed. case observed of
       Inl callback \<Rightarrow>
         return_err (ctl_callback_failed_after_refresh X callback scheduled_context clock)
     | Inr _ \<Rightarrow> ?fix))) ?Q (ctl_ends X K n lf) u"
      using announce [OF oku nd] by (simp only: prod.collapse)
  qed
  have nb1: "flow_next_backoff X decision (fc_state ?fc1) w = (step, fs, w1)"
    using nb by simp
  show ?thesis
    unfolding p ctl_schedule_retry_def wp_andthen [of "ctl_set _"] wp_ctl_set
      wp_andthen [of "ctl_next_backoff _ _"] wp_ctl_next_backoff
    by (simp only: case_prod_conv nb1) (rule sample)
qed

lemma ctl_record_failure_wp:
  assumes "ctl_ok X K n True lf s"
  shows "wp (ctl_record_failure X failure clock cancellation)
    (\<lambda>plan s'. ctl_ok X K n False (Some failure) s' \<and> n < ctl_max K \<and>
       (\<exists>delay. fc_next_delay (fst s') = Some delay \<and>
          backoff_prepared X delay plan (fc_state (fst s'))))
    (ctl_ends X K n (Some failure)) s"
  unfolding ctl_record_failure_def
proof (rule wp_seq [OF ctl_observe_failure_wp [OF assms]], rule wp_seq)
  fix decision t assume t: "ctl_ok X K n False (Some failure) t"
  show "wp (ctl_resolve_decision X decision) (\<lambda>_ s'. s' = t) (ctl_ends X K n (Some failure)) t"
    by (rule wp_mono [OF ctl_resolve_decision_wp [OF t]]) simp_all
  show "wp (ctl_schedule_retry X d clock cancellation)
    (\<lambda>plan s'. ctl_ok X K n False (Some failure) s' \<and> n < ctl_max K \<and>
       (\<exists>delay. fc_next_delay (fst s') = Some delay \<and>
          backoff_prepared X delay plan (fc_state (fst s'))))
    (ctl_ends X K n (Some failure)) u" if "u = t" for d u
    using that t by (simp add: ctl_schedule_retry_wp)
qed

text \<open>A controller with an attempt running exists wherever one is allowed.\<close>

lemma ctl_ok_activate:
  assumes "ctl_ok X K n False lf (fc, w)" and "n < ctl_max K"
  shows "\<exists>fs. ctl_ok X K (Suc n) True lf (fc\<lparr>fc_state := fs\<rparr>, w)"
proof -
  have st: "fs_inv X (fc_state fc)" "\<not> fs_active (fc_state fc)" "fs_attempts X (fc_state fc) = n"
      "same_conf K fc"
    using assms(1) by (auto simp: ctl_ok_def)
  then have "wp (flow_begin_attempt X (bs_sampled_at (fs_budget (fc_state fc))))
    (\<lambda>_ fs'. fs_inv X fs' \<and> fs_frame (fc_state fc) fs' \<and>
       fs_attempts X fs' = Suc (fs_attempts X (fc_state fc)) \<and> fs_active fs' \<and>
       bs_sampled_at (fs_budget fs') = bs_sampled_at (fs_budget (fc_state fc)) \<and>
       fs_backoff fs' = fs_backoff (fc_state fc)) (\<lambda>_ _. False) (fc_state fc)"
    using assms(2) same_conf_max [OF st(4)] by (intro fs_begin) simp_all
  then obtain fs where "fs_inv X fs" "fs_frame (fc_state fc) fs" "fs_attempts X fs = Suc n" "fs_active fs"
    using st(3) by (auto dest!: wp_returns)
  then have "ctl_ok X K (Suc n) True lf (fc\<lparr>fc_state := fs\<rparr>, w)"
    using assms(1) by (auto simp: ctl_ok_def same_conf_def intro: fs_frame_trans)
  then show ?thesis by blast
qed

end

section \<open>Properties\<close>

text \<open>
  C6. Admission is safe: from an idle controller with \<open>n\<close> attempts admitted, committing an
  attempt (plainly or from a prepared plan) never panics; if it succeeds there was room for
  one more, exactly one more is counted, it is running, and the flow timeout has not been
  reached; if it is refused, the count is unchanged and the terminal error reports it
  together with the last failure.
\<close>

theorem commit_admits_within_limits:
  assumes "deps_laws X" and "ctl_ok X K n False lf s"
  shows "wp (ctl_commit_attempt X clock cancellation)
      (\<lambda>_ s'. ctl_ok X K (Suc n) True lf s' \<and> n < ctl_max K \<and> within_flow X (fc_state (fst s')))
      (ctl_ends X K n lf) s \<and>
    wp (ctl_commit_prepared_attempt X plan clock cancellation)
      (\<lambda>_ s'. ctl_ok X K (Suc n) True lf s' \<and> n < ctl_max K \<and> within_flow X (fc_state (fst s')))
      (ctl_ends X K n lf) s"
  using deps_laws.ctl_commit_attempt_wp [OF assms]
    deps_laws.ctl_commit_prepared_attempt_wp [OF assms] by simp

text \<open>A controller over the manual clock, three attempts, no callbacks.\<close>

definition sample_config :: "(string, nat) retry_config" where
  "sample_config =
     config_new (policy_new sample_limits (backoff_fixed (of_nanos 5))) FallbackRetry [] []"

definition sample_controller :: "(nat \<times> duration, u32 \<times> u32, nat, string) flow_controller" where
  "sample_controller =
     ctl_new tick_deps (0, of_nanos 3) sample_config None (Some (of_nanos 7)) (Some (of_nanos 40))"

lemma sample_controller_ok: "ctl_ok tick_deps sample_controller 0 False None (sample_controller, w)"
  unfolding sample_controller_def by (rule manual.ctl_ok_new) simp

lemma commit_admits_within_limits_witness:
  "wp (ctl_commit_attempt tick_deps ticking_clock None)
     (\<lambda>_ s'. ctl_ok tick_deps sample_controller (Suc 0) True None s' \<and>
        0 < ctl_max sample_controller \<and> within_flow tick_deps (fc_state (fst s')))
     (ctl_ends tick_deps sample_controller 0 None) (sample_controller, 4)"
  using commit_admits_within_limits [OF manual.deps_laws_axioms sample_controller_ok,
      of ticking_clock None 4] by simp



text \<open>
  C8. A recorded failure either ends the flow or prepares one backoff.  It never panics and
  never changes the count.  A prepared backoff means that an attempt is left, that the
  elapsed time plus the delay is inside every limit and the flow timeout not reached, and
  that the deadline is the one of that delay.  A terminal error carries the very failure
  that was recorded.
\<close>

theorem record_failure_ends_or_prepares:
  assumes "deps_laws X" and "ctl_ok X K n True lf s"
  shows "wp (ctl_record_failure X failure clock cancellation)
    (\<lambda>plan s'. ctl_ok X K n False (Some failure) s' \<and> n < ctl_max K \<and>
       (\<exists>delay. fc_next_delay (fst s') = Some delay \<and>
          backoff_prepared X delay plan (fc_state (fst s'))))
    (ctl_ends X K n (Some failure)) s"
  by (rule deps_laws.ctl_record_failure_wp [OF assms])

lemma record_failure_ends_or_prepares_witness:
  "\<exists>s. ctl_ok tick_deps sample_controller 1 True None s \<and>
    wp (ctl_record_failure tick_deps (FailError ''refused'') ticking_clock None)
      (\<lambda>plan s'. ctl_ok tick_deps sample_controller 1 False (Some (FailError ''refused'')) s' \<and>
         1 < ctl_max sample_controller \<and>
         (\<exists>delay. fc_next_delay (fst s') = Some delay \<and>
            backoff_prepared tick_deps delay plan (fc_state (fst s'))))
      (ctl_ends tick_deps sample_controller 1 (Some (FailError ''refused''))) s"
proof -
  have "ctl_max sample_controller = 2"
    by (simp add: sample_controller_def manual.ctl_max_new sample_config_def config_new_def policy_new_def
        sample_limits_def admission_limits_new_def)
  then have "0 < ctl_max sample_controller" by simp
  from manual.ctl_ok_activate [OF sample_controller_ok [of 9] this]
  obtain fs where "ctl_ok tick_deps sample_controller 1 True None (sample_controller\<lparr>fc_state := fs\<rparr>, 9)"
    by auto
  then show ?thesis
    using record_failure_ends_or_prepares [OF manual.deps_laws_axioms] by blast
qed

text \<open>What a rule's decision means for a failure; \<open>Inl\<close> is the reason the flow ends with.\<close>

fun failure_verdict ::
  "retry_fallback \<Rightarrow> 'e attempt_failure \<Rightarrow> retry_decision \<Rightarrow> retry_error_reason + retry_decision"
where
  "failure_verdict fallback (FailTimedOut scope) UseDefault = Inl (ReasonTimedOut scope)"
| "failure_verdict fallback (FailPanicked p) UseDefault = Inl ReasonAborted"
| "failure_verdict FallbackAbort (FailError error) UseDefault = Inl ReasonAborted"
| "failure_verdict FallbackRetry (FailError error) UseDefault = Inr DecisionRetry"
| "failure_verdict fallback failure DecisionAbort = Inl ReasonAborted"
| "failure_verdict fallback failure decision = Inr decision"

text \<open>
  C17. The verdict on a failed attempt is the one of the table \<open>failure_verdict\<close>.  Without a rule's
  decision a timeout ends the flow as timed out in its own scope, a panic as aborted, and
  an application error follows the configured fallback; a rule may retry any of them, also a
  panic or a timeout, or abort.  A retry changes nothing of the flow; an ending flow reports
  the failure and the reason of the table.
\<close>

theorem failure_verdict_exact:
  assumes "deps_laws X" and "ctl_ok X K n b (Some failure) s"
  shows "wp (ctl_resolve_decision X decision)
    (\<lambda>d s'. s' = s \<and> failure_verdict (fc_fallback K) failure decision = Inr d)
    (\<lambda>e s'. ctl_ends X K n (Some failure) e s' \<and>
       failure_verdict (fc_fallback K) failure decision = Inl (err_reason e)) s"
  by (rule wp_mono [OF deps_laws.ctl_resolve_decision_wp [OF assms]])
    (cases "fc_fallback K"; cases failure; cases decision; auto split: if_splits)+

lemma failure_verdict_exact_witness:
  "wp (ctl_resolve_decision tick_deps UseDefault)
    (\<lambda>d s'. s' = (sample_controller\<lparr>fc_last_failure := Some (FailTimedOut ScopeAttempt)\<rparr>, 9) \<and>
       failure_verdict (fc_fallback sample_controller) (FailTimedOut ScopeAttempt :: string attempt_failure) UseDefault = Inr d)
    (\<lambda>e s'. ctl_ends tick_deps sample_controller 0 (Some (FailTimedOut ScopeAttempt)) e s' \<and>
       failure_verdict (fc_fallback sample_controller) (FailTimedOut ScopeAttempt :: string attempt_failure) UseDefault
         = Inl (err_reason e))
    (sample_controller\<lparr>fc_last_failure := Some (FailTimedOut ScopeAttempt)\<rparr>, 9)"
proof (rule failure_verdict_exact [OF manual.deps_laws_axioms])
  show "ctl_ok tick_deps sample_controller 0 False (Some (FailTimedOut ScopeAttempt))
      (sample_controller\<lparr>fc_last_failure := Some (FailTimedOut ScopeAttempt)\<rparr>, 9)"
    using sample_controller_ok [of 9] by (simp add: ctl_ok_def same_conf_def)
qed

end
