(* ===== verification/Runtime.thy ===== *)
theory Runtime
  imports Retry_Cancellation
begin

text \<open>
  What the executors wait on, and the wait of the blocking ones
  (src/src/executor/internal/blocking/blocking_backoff.rs).

  A timer is \<open>qubit_clock\<close>'s: a clock, the registration of a deadline, the poll of the
  future it gives.  A token is used through its flag and its future; \<open>shared_token\<close> is the
  one of \<open>Retry_Cancellation\<close>, with other threads acting between any two uses.
\<close>

section \<open>Timers and tokens\<close>

record ('i, 'x, 'f, 'w) timer =
  timer_clock :: "('i, 'w) clock_reader"
  timer_at :: "'i \<Rightarrow> 'w \<Rightarrow> ('x + 'f) \<times> 'w"
  timer_poll :: "'f \<Rightarrow> 'w \<Rightarrow> ('x + unit) option \<times> 'f \<times> 'w"

record ('c, 'w) token =
  token_is_cancelled :: "'w \<Rightarrow> bool \<times> 'w"
  token_cancelled :: 'c
  token_poll :: "'c \<Rightarrow> 'w \<Rightarrow> (bool \<times> 'c \<times> 'w) option"
  token_drop :: "'c \<Rightarrow> 'w \<Rightarrow> 'w option"

text \<open>
  \<open>env\<close> is what other threads do to the world before an access; the state lives in the world
  at \<open>get\<close> and \<open>put\<close>, and \<open>waker\<close> is the waker of the polling task.
\<close>

definition shared_token ::
  "('w \<Rightarrow> 'k cancellation_state) \<Rightarrow> ('k cancellation_state \<Rightarrow> 'w \<Rightarrow> 'w) \<Rightarrow> 'k \<Rightarrow> ('w \<Rightarrow> 'w)
     \<Rightarrow> (cancelled_future, 'w) token"
where
  "shared_token get put waker env = \<lparr>
     token_is_cancelled = (\<lambda>w. let w' = env w in (cs_cancelled (get w'), w')),
     token_cancelled = cancelled_new,
     token_poll = (\<lambda>future w. let w' = env w in
       case (cancelled_poll waker (get w', future) :: ((unit + bool) \<times> _) option) of
         Some (Inr ready, st, future') \<Rightarrow> Some (ready, future', put st w')
       | _ \<Rightarrow> None),
     token_drop = (\<lambda>future w. let w' = env w in
       case (cancelled_drop (get w', future) :: ((unit + unit) \<times> _) option) of
         Some (Inr _, st, _) \<Rightarrow> Some (put st w')
       | _ \<Rightarrow> None) \<rparr>"

definition opt_is_cancelled :: "('c, 'w) token option \<Rightarrow> 'w \<Rightarrow> bool \<times> 'w" where
  "opt_is_cancelled cancellation w =
     (case cancellation of None \<Rightarrow> (False, w) | Some tok \<Rightarrow> token_is_cancelled tok w)"

section \<open>The blocking wait\<close>

datatype 'x blocking_backoff_outcome =
    BackoffElapsed
  | BackoffCancelled
  | BackoffTimerFailed 'x

text \<open>Steps of the world alone, and the polls of the two futures a wait holds.\<close>

definition world_step :: "('w \<Rightarrow> 'a \<times> 'w) \<Rightarrow> ('w, 'y, 'a) prog" where
  "world_step f = (\<lambda>w. let (a, w') = f w in Some (Inr a, w'))"

definition poll_cancellation ::
  "('c, 'w) token option \<Rightarrow> ('f \<times> 'c option \<times> 'w, 'y, bool) prog"
where
  "poll_cancellation cancellation = (\<lambda>(f, c, w).
     case (cancellation, c) of
       (Some tok, Some future) \<Rightarrow>
         (case token_poll tok future w of
            None \<Rightarrow> None
          | Some (ready, future', w') \<Rightarrow> Some (Inr ready, f, Some future', w'))
     | _ \<Rightarrow> Some (Inr False, f, c, w))"

definition poll_timer ::
  "('i, 'x, 'f, 'w) timer \<Rightarrow> ('f \<times> 'c \<times> 'w, 'y, ('x + unit) option) prog"
where
  "poll_timer T = (\<lambda>(f, c, w). let (r, f', w') = timer_poll T f w in Some (Inr r, f', c, w'))"

text \<open>
  \<open>park\<close> is \<open>receiver.recv()\<close>: it blocks until a waker fires, and gives back nothing when
  none ever does.  It cannot fail, the waker that holds the sender outlives the loop.
\<close>

definition park_thread :: "('w \<Rightarrow> 'w option) \<Rightarrow> ('f \<times> 'c \<times> 'w, 'y, unit) prog" where
  "park_thread park = (\<lambda>(f, c, w). case park w of None \<Rightarrow> None | Some w' \<Rightarrow> Some (Inr (), f, c, w'))"

definition wait_timer ::
  "('i, 'x, 'f, 'w) timer \<Rightarrow> ('w \<Rightarrow> 'w option)
     \<Rightarrow> ('f \<times> 'c option \<times> 'w, 'y, 'x blocking_backoff_outcome option) prog"
where
  "wait_timer T park =
     andthen (poll_timer T) (\<lambda>r.
     case r of
       Some (Inr _) \<Rightarrow> ok (Some BackoffElapsed)
     | Some (Inl e) \<Rightarrow> ok (Some (BackoffTimerFailed e))
     | None \<Rightarrow> andthen (park_thread park) (\<lambda>_. ok None))"

definition wait_pass ::
  "('i, 'x, 'f, 'w) timer \<Rightarrow> ('w \<Rightarrow> 'w option) \<Rightarrow> ('c, 'w) token option
     \<Rightarrow> ('f \<times> 'c option \<times> 'w, 'y, 'x blocking_backoff_outcome option) prog"
where
  "wait_pass T park cancellation =
     andthen (poll_cancellation cancellation) (\<lambda>cancelled.
     if cancelled then ok (Some BackoffCancelled) else wait_timer T park)"

definition drop_cancellation ::
  "('c, 'w) token option \<Rightarrow> 'c option \<Rightarrow> 'w \<Rightarrow> 'w option"
where
  "drop_cancellation cancellation c w =
     (case (cancellation, c) of
        (Some tok, Some future) \<Rightarrow> token_drop tok future w
      | _ \<Rightarrow> Some w)"

text \<open>The futures live inside the wait, and are dropped when it returns.\<close>

definition with_futures ::
  "('c, 'w) token option \<Rightarrow> 'f \<Rightarrow> ('f \<times> 'c option \<times> 'w, 'y, 'a) prog \<Rightarrow> ('w, 'y, 'a) prog"
where
  "with_futures cancellation f m = (\<lambda>w.
     case m (f, map_option token_cancelled cancellation, w) of
       None \<Rightarrow> None
     | Some (r, _, c, w') \<Rightarrow>
         (case drop_cancellation cancellation c w' of
            None \<Rightarrow> None
          | Some w'' \<Rightarrow> Some (r, w'')))"

definition wait_for_backoff ::
  "('i, 'x, 'f, 'w) timer \<Rightarrow> ('w \<Rightarrow> 'w option) \<Rightarrow> 'i \<Rightarrow> bool \<Rightarrow> ('c, 'w) token option
     \<Rightarrow> ('w, 'y, 'x blocking_backoff_outcome) prog"
where
  "wait_for_backoff T park deadline immediate cancellation =
     andthen (world_step (opt_is_cancelled cancellation)) (\<lambda>cancelled.
     if cancelled then ok BackoffCancelled
     else if immediate then ok BackoffElapsed
     else
       andthen (world_step (timer_at T deadline)) (\<lambda>r.
       case r of
         Inr future \<Rightarrow>
           with_futures cancellation future (loops (wait_pass T park cancellation))
       | Inl e \<Rightarrow>
           andthen (world_step (opt_is_cancelled cancellation)) (\<lambda>cancelled.
           if cancelled then ok BackoffCancelled else ok (BackoffTimerFailed e))))"

section \<open>Preconditions\<close>

lemma wp_world_step [wp_rules, simp]:
  "wp (world_step f) Q E = (\<lambda>w. Q (fst (f w)) (snd (f w)))"
  by (simp add: wp_def world_step_def fun_eq_iff case_prod_beta)

lemma wp_poll_timer [wp_rules, simp]:
  "wp (poll_timer T) Q E = (\<lambda>(f, c, w). case timer_poll T f w of (r, f', w') \<Rightarrow> Q r (f', c, w'))"
  by (simp add: wp_def poll_timer_def fun_eq_iff case_prod_beta)

lemma wp_park_thread [wp_rules, simp]:
  "wp (park_thread park) Q E =
     (\<lambda>(f, c, w). case park w of None \<Rightarrow> False | Some w' \<Rightarrow> Q () (f, c, w'))"
  by (auto simp: wp_def park_thread_def fun_eq_iff split: option.split)

lemma wp_poll_cancellation [wp_rules]:
  "wp (poll_cancellation cancellation) Q E = (\<lambda>(f, c, w). case (cancellation, c) of
     (Some tok, Some future) \<Rightarrow>
       (case token_poll tok future w of None \<Rightarrow> False
        | Some (r, future', w') \<Rightarrow> Q r (f, Some future', w'))
   | _ \<Rightarrow> Q False (f, c, w))"
  by (auto simp: wp_def poll_cancellation_def fun_eq_iff split: option.split)

lemma wp_with_futures:
  "wp (with_futures cancellation f m) Q E w =
     wp m (\<lambda>a (f', c, w'). \<exists>w''. drop_cancellation cancellation c w' = Some w'' \<and> Q a w'')
       (\<lambda>e (f', c, w'). \<exists>w''. drop_cancellation cancellation c w' = Some w'' \<and> E e w'')
       (f, map_option token_cancelled cancellation, w)"
  by (auto simp: wp_def with_futures_def split: option.split sum.split)

section \<open>Laws\<close>

text \<open>
  What a token promises, with \<open>cancelled\<close> the fact that the request has been made: the flag
  and the future tell the truth, and a request is never taken back.
\<close>

locale token_laws =
  fixes tok :: "('c, 'w) token" and cancelled :: "'w \<Rightarrow> bool"
  assumes flag_exact: "token_is_cancelled tok w = (b, w') \<Longrightarrow> b = cancelled w'"
    and flag_keeps: "cancelled w \<Longrightarrow> cancelled (snd (token_is_cancelled tok w))"
    and poll_exact: "\<exists>r c' w'. token_poll tok c w = Some (r, c', w') \<and> r = cancelled w' \<and>
        (cancelled w \<longrightarrow> cancelled w')"
    and drop_keeps: "\<exists>w'. token_drop tok c w = Some w' \<and> (cancelled w \<longrightarrow> cancelled w')"
begin

lemma flag_after: "fst (token_is_cancelled tok w) = cancelled (snd (token_is_cancelled tok w))"
  using flag_exact [of w] by (metis prod.collapse)

lemma cancelled_seen: "cancelled w \<Longrightarrow> fst (token_is_cancelled tok w)"
  using flag_after flag_keeps by simp

end

text \<open>
  What a timer promises to a thread that parks after a pending poll: it is woken, and only
  finitely often before the future is ready.  \<open>pend\<close> bounds the polls still to come,
  \<open>target\<close> is the deadline a future was made for and \<open>due\<close> that the clock has reached one:
  a future is not ready before.
\<close>

locale timer_laws =
  fixes T :: "('i, 'x, 'f, 'w) timer" and park :: "'w \<Rightarrow> 'w option" and pend :: "'f \<Rightarrow> 'w \<Rightarrow> nat"
    and target :: "'f \<Rightarrow> 'i" and due :: "'i \<Rightarrow> 'w \<Rightarrow> bool"
  assumes at_target: "timer_at T deadline w = (Inr f, w') \<Longrightarrow> target f = deadline"
    and poll_target: "timer_poll T f w = (r, f', w') \<Longrightarrow> target f' = target f"
    and ready_due: "timer_poll T f w = (Some (Inr ()), f', w') \<Longrightarrow> due (target f) w'"
    and pending_wakes: "timer_poll T f w = (None, f', w') \<Longrightarrow>
      \<exists>w''. park w' = Some w'' \<and> pend f' w'' < pend f w"

locale wait_laws = timer_laws T park pend target due
  for T :: "('i, 'x, 'f, 'w) timer" and park pend target due +
  fixes cancellation :: "('c, 'w) token option" and cancelled :: "'w \<Rightarrow> bool"
  assumes token: "cancellation = Some tok \<Longrightarrow> token_laws tok cancelled"
    and token_no_delay: "cancellation = Some tok \<Longrightarrow> token_poll tok c w = Some (r, c', w') \<Longrightarrow>
      pend f w' \<le> pend f w"
    and drop_due: "cancellation = Some tok \<Longrightarrow> token_drop tok c w = Some w' \<Longrightarrow> due d w \<Longrightarrow> due d w'"
begin

lemma flag_wp:
  assumes "\<And>b w'. (b \<longrightarrow> cancellation \<noteq> None \<and> cancelled w') \<Longrightarrow>
      (cancellation \<noteq> None \<and> cancelled w \<longrightarrow> b) \<Longrightarrow> Q b w'"
  shows "wp (world_step (opt_is_cancelled cancellation)) Q E w"
proof (cases cancellation)
  case None
  then show ?thesis using assms [of False w] by (simp add: opt_is_cancelled_def)
next
  case (Some tok)
  then have laws: "token_laws tok cancelled" by (rule token)
  show ?thesis
    using Some assms token_laws.flag_after [OF laws] token_laws.cancelled_seen [OF laws]
    by (simp add: opt_is_cancelled_def)
qed

lemma wait_timer_wp:
  assumes "pend f w1 \<le> m" and "c = None \<longleftrightarrow> cancellation = None"
  shows "wp (wait_timer T park)
    (\<lambda>r (f', c', w'). (c' = None \<longleftrightarrow> cancellation = None) \<and>
       target f' = target f \<and>
       (case r of None \<Rightarrow> pend f' w' < m
        | Some r \<Rightarrow> (r = BackoffCancelled \<longrightarrow> cancellation \<noteq> None \<and> cancelled w') \<and>
            (r = BackoffElapsed \<longrightarrow> due (target f) w')))
    (\<lambda>_ _. False) (f, c, w1)"
  using assms pending_wakes [of f w1] poll_target [of f w1] ready_due [of f w1]
  by (auto simp: wait_timer_def split: prod.split option.split sum.split intro: less_le_trans)

lemma wait_pass_wp:
  assumes "c = None \<longleftrightarrow> cancellation = None"
  shows "wp (wait_pass T park cancellation)
    (\<lambda>r (f', c', w'). (c' = None \<longleftrightarrow> cancellation = None) \<and>
       target f' = target f \<and>
       (case r of None \<Rightarrow> pend f' w' < pend f w
        | Some r \<Rightarrow> (r = BackoffCancelled \<longrightarrow> cancellation \<noteq> None \<and> cancelled w') \<and>
            (r = BackoffElapsed \<longrightarrow> due (target f) w')))
    (\<lambda>_ _. False) (f, c, w)" (is "wp _ ?Q ?E _")
proof (cases cancellation)
  case None
  then show ?thesis
    using assms wait_timer_wp [of f w "pend f w" c] by (simp add: wait_pass_def wp_poll_cancellation)
next
  case (Some tok)
  then obtain fut where c: "c = Some fut" using assms by auto
  obtain r fut' w1 where poll: "token_poll tok fut w = Some (r, fut', w1)" "r = cancelled w1"
    using token_laws.poll_exact [OF token [OF Some], of fut w] by blast
  have "wp (wait_timer T park) ?Q ?E (f, Some fut', w1)"
    by (rule wait_timer_wp) (simp_all add: token_no_delay [OF Some poll(1)] Some)
  moreover have "?Q (Some BackoffCancelled) (f, Some fut', w1)" if "cancelled w1"
    using that Some by simp
  ultimately show ?thesis
    using poll by (simp only: wait_pass_def wp_andthen wp_poll_cancellation Some c prod.case option.case) simp
qed

lemma dropped:
  assumes "c = None \<longleftrightarrow> cancellation = None"
  shows "\<exists>w'. drop_cancellation cancellation c w = Some w' \<and>
    (cancellation \<noteq> None \<and> cancelled w \<longrightarrow> cancelled w') \<and> (\<forall>d. due d w \<longrightarrow> due d w')"
proof (cases cancellation)
  case None
  then show ?thesis using assms by (simp add: drop_cancellation_def)
next
  case (Some tok)
  then obtain fut where c: "c = Some fut" using assms by auto
  obtain w' where "token_drop tok fut w = Some w'" "cancelled w \<longrightarrow> cancelled w'"
    using token_laws.drop_keeps [OF token [OF Some]] by blast
  then show ?thesis using Some c drop_due [OF Some] by (auto simp: drop_cancellation_def)
qed

lemma wait_loop_wp:
  "wp (with_futures cancellation f (loops (wait_pass T park cancellation)))
    (\<lambda>r w'. (r = BackoffCancelled \<longrightarrow> cancellation \<noteq> None \<and> cancelled w') \<and>
       (r = BackoffElapsed \<longrightarrow> due (target f) w')) (\<lambda>_ _. False) w1"
  unfolding wp_with_futures
proof (rule wp_mono)
  show "wp (loops (wait_pass T park cancellation))
    (\<lambda>r (f', c', w'). (c' = None \<longleftrightarrow> cancellation = None) \<and>
       (r = BackoffCancelled \<longrightarrow> cancellation \<noteq> None \<and> cancelled w') \<and>
       (r = BackoffElapsed \<longrightarrow> due (target f) w')) (\<lambda>_ _. False)
    (f, map_option token_cancelled cancellation, w1)"
    by (rule wp_loops [where I = "\<lambda>(f', c, w). (c = None \<longleftrightarrow> cancellation = None) \<and> target f' = target f"
          and m = "\<lambda>(f, c, w). pend f w"])
      (auto intro!: wp_only [OF wait_pass_wp] split: option.splits)
next
  fix r and s' :: "'f \<times> 'c option \<times> 'w"
  assume r: "(\<lambda>(f', c', w'). (c' = None \<longleftrightarrow> cancellation = None) \<and>
       (r = BackoffCancelled \<longrightarrow> cancellation \<noteq> None \<and> cancelled w') \<and>
       (r = BackoffElapsed \<longrightarrow> due (target f) w')) s'"
  obtain f' c' w' where s': "s' = (f', c', w')" by (cases s')
  show "(\<lambda>(f', c, w'). \<exists>w''. drop_cancellation cancellation c w' = Some w'' \<and>
      (r = BackoffCancelled \<longrightarrow> cancellation \<noteq> None \<and> cancelled w'') \<and>
      (r = BackoffElapsed \<longrightarrow> due (target f) w'')) s'"
    using r s' dropped [of c' w'] by auto
qed simp

lemma wait_for_backoff_wp:
  "wp (wait_for_backoff T park deadline immediate cancellation)
    (\<lambda>r w'. (r = BackoffCancelled \<longrightarrow> cancellation \<noteq> None \<and> cancelled w') \<and>
       (cancellation \<noteq> None \<and> cancelled w \<longrightarrow> r = BackoffCancelled) \<and>
       (r = BackoffElapsed \<and> \<not> immediate \<longrightarrow> due deadline w')) (\<lambda>_ _. False) w"
    (is "wp _ ?Q _ _")
proof -
  show ?thesis
    unfolding wait_for_backoff_def wp_andthen
  proof (rule flag_wp)
    fix b w'
    assume b: "b \<longrightarrow> cancellation \<noteq> None \<and> cancelled w'" "cancellation \<noteq> None \<and> cancelled w \<longrightarrow> b"
    show "wp (if b then ok BackoffCancelled
       else if immediate then ok BackoffElapsed
       else andthen (world_step (timer_at T deadline)) (\<lambda>r.
         case r of
           Inr future \<Rightarrow> with_futures cancellation future (loops (wait_pass T park cancellation))
         | Inl e \<Rightarrow> andthen (world_step (opt_is_cancelled cancellation)) (\<lambda>cancelled.
             if cancelled then ok BackoffCancelled else ok (BackoffTimerFailed e))))
      ?Q (\<lambda>_ _. False) w'"
    proof (cases "b \<or> immediate")
      case True
      then show ?thesis using b by auto
    next
      case False
      then have entry: "\<not> (cancellation \<noteq> None \<and> cancelled w)" using b(2) by blast
      show ?thesis
      proof (cases "fst (timer_at T deadline w')")
        case (Inl e)
        have "wp (andthen (world_step (opt_is_cancelled cancellation)) (\<lambda>cancelled.
             if cancelled then ok BackoffCancelled else ok (BackoffTimerFailed e)))
          ?Q (\<lambda>_ _. False)
          (snd (timer_at T deadline w'))"
          unfolding wp_andthen by (rule flag_wp) (use entry in auto)
        then show ?thesis using False Inl by (simp del: wp_andthen add: wp_andthen [of "world_step (timer_at T deadline)"])
      next
        case (Inr future)
        have "wp (with_futures cancellation future (loops (wait_pass T park cancellation)))
          ?Q (\<lambda>_ _. False)
          (snd (timer_at T deadline w'))"
          by (rule wp_only [OF wait_loop_wp]) (use entry at_target [of deadline w'] Inr in \<open>auto simp: prod_eq_iff\<close>)
        then show ?thesis using False Inr by simp
      qed
    qed
  qed
qed

end

end
