(* ===== verification/Runtime_Sim.thy ===== *)
theory Runtime_Sim
  imports Runtime
begin

text \<open>
  The token of \<open>Retry_Cancellation\<close> keeps the token laws in every world it lives in, and a
  small simulated world in which all of a run's environment is concrete: a clock that
  ticks at every reading, a timer on that clock, a thread that sleeps one tick at a time,
  and another thread that cancels at a given time.  The laws of the waits hold there, and
  the closed witnesses run in it.
\<close>

section \<open>The shared token keeps the token laws\<close>

lemma cancelled_poll_total:
  fixes st :: "'k cancellation_state"
  assumes "length (wr_wakers (cs_waiters st)) < 2 ^ 64"
  shows "\<exists>st' future'. (cancelled_poll waker (st, future) :: ((unit + bool) \<times> _) option) =
      Some (Inr (cs_cancelled st), st', future') \<and> cs_cancelled st' = cs_cancelled st"
proof -
  have "wp (registry_register None waker :: ('k waker_registry, unit, _) prog) (\<lambda>_ _. True) (\<lambda>_ _. False)
      (cs_waiters st)"
    by (rule wp_only [OF registry_room [OF assms]]) simp
  then obtain i replaced r' where "(registry_register None waker :: ('k waker_registry, unit, _) prog)
      (cs_waiters st) = Some (Inr (i, replaced), r')"
    by (auto dest!: wp_returns)
  then show ?thesis
    by (cases "cf_registration_id future")
      (auto simp: cancelled_poll_def cs_register_def cs_locked_def registry_register_def
        registry_unregister_def prog_defs)
qed

lemma cancelled_drop_total:
  "\<exists>st' future'. (cancelled_drop (st, future) :: ((unit + unit) \<times> _) option) =
      Some (Inr (), st', future') \<and> cs_cancelled st' = cs_cancelled st"
  by (auto simp: cancelled_drop_def cs_unregister_def cs_locked_def registry_unregister_def prog_defs
      split: option.split)

lemma shared_token_laws:
  fixes get :: "'w \<Rightarrow> 'k cancellation_state"
  assumes put: "\<And>st w. cs_cancelled (get (put st w)) = cs_cancelled st"
    and env: "\<And>w. cs_cancelled (get w) \<Longrightarrow> cs_cancelled (get (env w))"
    and room: "\<And>w. length (wr_wakers (cs_waiters (get w))) < 2 ^ 64"
  shows "token_laws (shared_token get put waker env) (\<lambda>w. cs_cancelled (get w))"
proof
  fix c w
  obtain st' future' where "(cancelled_poll waker (get (env w), c) :: ((unit + bool) \<times> _) option) =
      Some (Inr (cs_cancelled (get (env w))), st', future')"
      "cs_cancelled st' = cs_cancelled (get (env w))"
    using cancelled_poll_total [OF room] by blast
  then show "\<exists>r c' w'. token_poll (shared_token get put waker env) c w = Some (r, c', w') \<and>
      r = cs_cancelled (get w') \<and> (cs_cancelled (get w) \<longrightarrow> cs_cancelled (get w'))"
    using put env by (auto simp: shared_token_def Let_def)
next
  fix c w
  obtain st' future' where "(cancelled_drop (get (env w), c) :: ((unit + unit) \<times> _) option) =
      Some (Inr (), st', future')" "cs_cancelled st' = cs_cancelled (get (env w))"
    using cancelled_drop_total by blast
  then show "\<exists>w'. token_drop (shared_token get put waker env) c w = Some w' \<and>
      (cs_cancelled (get w) \<longrightarrow> cs_cancelled (get w'))"
    using put env by (auto simp: shared_token_def Let_def)
qed (auto simp: shared_token_def Let_def env)

section \<open>A simulated world\<close>

record sim_world =
  sim_time :: nat
  sim_state :: "nat cancellation_state"
  sim_calls :: nat

definition sim_clock :: "(nat \<times> duration, sim_world) clock_reader" where
  "sim_clock w = ((0, of_nanos (sim_time w)), w\<lparr>sim_time := Suc (sim_time w)\<rparr>)"

definition sim_timer :: "(nat \<times> duration, string, nat \<times> duration, sim_world) timer" where
  "sim_timer = \<lparr>timer_clock = sim_clock,
     timer_at = (\<lambda>deadline w. (Inr deadline, w)),
     timer_poll = (\<lambda>f w. (if as_nanos (snd f) \<le> sim_time w then Some (Inr ()) else None, f, w))\<rparr>"

definition sim_park :: "sim_world \<Rightarrow> sim_world option" where
  "sim_park w = Some (w\<lparr>sim_time := Suc (sim_time w)\<rparr>)"

definition sim_pend :: "nat \<times> duration \<Rightarrow> sim_world \<Rightarrow> nat" where
  "sim_pend f w = as_nanos (snd f) - sim_time w"

definition sim_due :: "nat \<times> duration \<Rightarrow> sim_world \<Rightarrow> bool" where
  "sim_due d w \<longleftrightarrow> as_nanos (snd d) \<le> sim_time w"

text \<open>The registry of a world is bounded by its memory.\<close>

definition sim_get :: "sim_world \<Rightarrow> nat cancellation_state" where
  "sim_get w = (if length (wr_wakers (cs_waiters (sim_state w))) < 2 ^ 64 then sim_state w
     else (sim_state w)\<lparr>cs_waiters := registry_default\<rparr>)"

definition sim_put :: "nat cancellation_state \<Rightarrow> sim_world \<Rightarrow> sim_world" where
  "sim_put st w = w\<lparr>sim_state := st\<rparr>"

text \<open>Another thread calls \<open>cancel\<close> at time \<open>k\<close>.\<close>

definition sim_env :: "nat \<Rightarrow> sim_world \<Rightarrow> sim_world" where
  "sim_env k w =
     (if k \<le> sim_time w then
        (case cs_cancel id (\<lambda>waker w. (None, w)) (sim_get w, ()) of
           None \<Rightarrow> w
         | Some (_, st, _) \<Rightarrow> sim_put st w)
      else w)"

definition sim_token :: "nat \<Rightarrow> (cancelled_future, sim_world) token" where
  "sim_token k = shared_token sim_get sim_put 0 (sim_env k)"

definition sim_cancelled :: "sim_world \<Rightarrow> bool" where
  "sim_cancelled w = cs_cancelled (sim_get w)"

definition sim_start :: sim_world where
  "sim_start = \<lparr>sim_time = 3, sim_state = cancellation_state_default, sim_calls = 0\<rparr>"

lemma sim_put_flag: "cs_cancelled (sim_get (sim_put st w)) = cs_cancelled st"
  by (simp add: sim_get_def sim_put_def)

lemma sim_get_room: "length (wr_wakers (cs_waiters (sim_get w))) < 18446744073709551616"
  by (simp add: sim_get_def registry_default_def)

lemma sim_time_put [simp]: "sim_time (sim_put st w) = sim_time w"
  by (simp add: sim_put_def)

lemma sim_time_env [simp]: "sim_time (sim_env k w) = sim_time w"
  by (simp add: sim_env_def split: option.split prod.split)

lemma sim_env_flag: "cs_cancelled (sim_get w) \<Longrightarrow> cs_cancelled (sim_get (sim_env k w))"
  by (auto simp: sim_env_def sim_put_flag cs_cancel_def cs_locked_def registry_take_all_def prog_defs
      split: option.split prod.split)

interpretation sim_tok: token_laws "sim_token k" sim_cancelled for k
  unfolding sim_token_def sim_cancelled_def [abs_def]
  by (rule shared_token_laws)
    (simp_all add: sim_put_flag sim_env_flag sim_get_room)

lemma sim_poll_time:
  "token_poll (sim_token k) c w = Some (r, c', w') \<Longrightarrow> sim_time w' = sim_time w"
  by (auto simp: sim_token_def shared_token_def Let_def split: option.splits sum.splits prod.splits)

lemma sim_drop_time: "token_drop (sim_token k) c w = Some w' \<Longrightarrow> sim_time w' = sim_time w"
  by (auto simp: sim_token_def shared_token_def Let_def split: option.splits sum.splits prod.splits)

interpretation sim_timer: timer_laws sim_timer sim_park sim_pend id sim_due
  by standard (auto simp: sim_timer_def sim_park_def sim_pend_def sim_due_def split: if_splits)

interpretation sim_wait: wait_laws sim_timer sim_park sim_pend id sim_due "Some (sim_token k)"
    sim_cancelled for k
  by (intro wait_laws.intro wait_laws_axioms.intro sim_timer.timer_laws_axioms)
    (auto simp: sim_tok.token_laws_axioms sim_pend_def sim_due_def
      dest: sim_poll_time sim_drop_time)

interpretation sim_free_wait: wait_laws sim_timer sim_park sim_pend id sim_due
    "None :: (unit, _) token option" sim_cancelled
  by (intro wait_laws.intro wait_laws_axioms.intro sim_timer.timer_laws_axioms) auto

section \<open>Properties\<close>

text \<open>
  C21. A blocking backoff wait returns: it is cut short only when cancellation has been
  requested, it is always cut short when that was so on entry, and otherwise a wait that
  is not immediate ends no earlier than the deadline or with the timer's error.
\<close>

theorem blocking_wait_returns:
  assumes "wait_laws T park pend target due cancellation cancelled"
  shows "wp (wait_for_backoff T park deadline immediate cancellation)
    (\<lambda>r w'. (r = BackoffCancelled \<longrightarrow> cancellation \<noteq> None \<and> cancelled w') \<and>
       (cancellation \<noteq> None \<and> cancelled w \<longrightarrow> r = BackoffCancelled) \<and>
       (r = BackoffElapsed \<and> \<not> immediate \<longrightarrow> due deadline w')) (\<lambda>_ _. False) w"
  by (rule wait_laws.wait_for_backoff_wp [OF assms])

lemma blocking_wait_returns_witness:
  "wp (wait_for_backoff sim_timer sim_park (0, of_nanos 30) False (Some (sim_token 20)))
    (\<lambda>r w'. (r = BackoffCancelled \<longrightarrow> sim_cancelled w') \<and>
       (r = BackoffElapsed \<longrightarrow> sim_due (0, of_nanos 30) w')) (\<lambda>_ _. False) sim_start"
  by (rule wp_only [OF blocking_wait_returns [OF sim_wait.wait_laws_axioms]]) simp

end
