(* ===== verification/Rounds.thy ===== *)
theory Rounds
  imports Controller_Laws Runtime_Sim
begin

text \<open>
  What the three executors share: a flow is a loop of rounds (one attempt each), and a round
  either ends the flow or leaves an idle controller with one attempt more.  The locale
  \<open>rounds\<close> states that contract; its lemma is that the loop ends, in at most as many rounds
  as attempts are allowed.  Each executor interprets it on its own round.
\<close>

section \<open>Loops of rounds\<close>

locale rounds =
  fixes round_of :: "('s, 'e, 'a option) prog" and idle :: "nat \<Rightarrow> 's \<Rightarrow> bool" and cap :: nat
    and Q :: "'a \<Rightarrow> 's \<Rightarrow> bool" and E :: "'e \<Rightarrow> 's \<Rightarrow> bool"
  assumes round_law: "idle n s \<Longrightarrow>
      wp round_of (\<lambda>r s'. case r of None \<Rightarrow> idle (Suc n) s' | Some a \<Rightarrow> Q a s') E s"
    and idle_cap: "idle n s \<Longrightarrow> n \<le> cap"
begin

lemma rounds_end: "idle n s \<Longrightarrow> wp (loops round_of) Q E s"
proof (induction "cap - n" arbitrary: n s rule: less_induct)
  case less
  have "wp round_of (\<lambda>r s'. case r of None \<Rightarrow> wp (loops round_of) Q E s' | Some a \<Rightarrow> Q a s') E s"
  proof (rule wp_mono [OF round_law [OF less.prems]])
    fix r s'
    assume r: "case r of None \<Rightarrow> idle (Suc n) s' | Some a \<Rightarrow> Q a s'"
    show "case r of None \<Rightarrow> wp (loops round_of) Q E s' | Some a \<Rightarrow> Q a s'"
    proof (cases r)
      case None
      then have "idle (Suc n) s'" using r by simp
      moreover from idle_cap [OF this] have "cap - Suc n < cap - n" by simp
      ultimately show ?thesis using None less.hyps by simp
    qed (use r in simp)
  qed
  then show ?case by (rule wp_loops_unfold)
qed

end

section \<open>Steps of a round\<close>

text \<open>
  A flow ends early with a terminal error, or because the caller's operation (synchronous,
  or a future being polled) unwinds, which no facade but the worker one catches.
\<close>

datatype 'a stop = StopError 'a | StopUnwind

definition checked :: "('s, 'e, 'a) prog \<Rightarrow> ('s, 'e stop, 'a) prog" where
  "checked = map_err StopError"

text \<open>A step of the world alone inside a flow.\<close>

definition ctl_world :: "('w, 'y, 'a) prog \<Rightarrow> ('s \<times> 'w, 'y, 'a) prog" where
  "ctl_world m = (\<lambda>(fc, w). case m w of None \<Rightarrow> None | Some (r, w') \<Rightarrow> Some (r, fc, w'))"

text \<open>The caller's operation: no result is an unwinding.\<close>

definition ctl_operation :: "('w \<Rightarrow> 'a option \<times> 'w) \<Rightarrow> ('s \<times> 'w, 'e stop, 'a) prog" where
  "ctl_operation op = (\<lambda>(fc, w). case op w of
       (None, w') \<Rightarrow> Some (Inl StopUnwind, fc, w')
     | (Some a, w') \<Rightarrow> Some (Inr a, fc, w'))"

abbreviation flag_of :: "('c, 'w) token option \<Rightarrow> 'w cancellation" where
  "flag_of cancellation \<equiv> map_option token_is_cancelled cancellation"

text \<open>A timer's error, reported while no attempt is active or while one is.\<close>

definition ctl_timer_failed ::
  "('i, 'd, 'x, 'b, 'w) deps \<Rightarrow> ('i, 'x, 'f, 'w) timer \<Rightarrow> 'x
     \<Rightarrow> ('i, 'b, 'w, 'e, 'e retry_error, 'a) ctl"
where
  "ctl_timer_failed X T error =
     andthen (ctl_now (timer_clock T)) (\<lambda>now.
     return_err (ctl_record_inactive_infrastructure_failure X (InfraTimer (time_error_text X error)) now))"

definition ctl_timer_failed_active ::
  "('i, 'd, 'x, 'b, 'w) deps \<Rightarrow> ('i, 'x, 'f, 'w) timer \<Rightarrow> 'x
     \<Rightarrow> ('i, 'b, 'w, 'e, 'e retry_error, 'a) ctl"
where
  "ctl_timer_failed_active X T error =
     andthen (ctl_now (timer_clock T)) (\<lambda>now.
     return_err (ctl_record_active_infrastructure_failure X (InfraTimer (time_error_text X error)) now))"

text \<open>The timer of a hard deadline, registered before the attempt counts.\<close>

definition register_timeout ::
  "('i, 'x, 'f, 'w) timer \<Rightarrow> 'i option \<Rightarrow> 'w \<Rightarrow> ('x + 'f option) \<times> 'w"
where
  "register_timeout T deadline w =
     (case deadline of
        None \<Rightarrow> (Inr None, w)
      | Some d \<Rightarrow> (case timer_at T d w of (r, w') \<Rightarrow> (map_right Some r, w')))"

text \<open>A failed attempt of a blocking facade: the decision, then the wait.\<close>

definition finish_failed_attempt ::
  "('i, 'd, 'x, 'b, 'w) deps \<Rightarrow> ('i, 'x, 'f, 'w) timer \<Rightarrow> ('w \<Rightarrow> 'w option)
     \<Rightarrow> ('c, 'w) token option \<Rightarrow> 'e attempt_failure
     \<Rightarrow> ('i, 'b, 'w, 'e, 'e retry_error, unit) ctl"
where
  "finish_failed_attempt X T park cancellation failure =
     andthen (ctl_record_failure X failure (timer_clock T) (flag_of cancellation)) (\<lambda>directive.
     andthen (ctl_world (wait_for_backoff T park (bop_deadline directive) (bop_immediate directive)
         cancellation)) (\<lambda>outcome.
     case outcome of
       BackoffElapsed \<Rightarrow> ok ()
     | BackoffCancelled \<Rightarrow> return_err (ctl_record_backoff_cancellation X (timer_clock T))
     | BackoffTimerFailed error \<Rightarrow> ctl_timer_failed X T error))"

lemma wp_checked [wp_rules, simp]: "wp (checked m) Q E = wp m Q (\<lambda>e. E (StopError e))"
  by (simp add: checked_def)

lemma wp_ctl_world [wp_rules, simp]:
  "wp (ctl_world m) Q E = (\<lambda>(fc, w). wp m (\<lambda>a w'. Q a (fc, w')) (\<lambda>e w'. E e (fc, w')) w)"
  by (auto simp: wp_def ctl_world_def fun_eq_iff split: option.split sum.split)

lemma wp_ctl_operation [wp_rules, simp]:
  "wp (ctl_operation op) Q E = (\<lambda>(fc, w). case op w of
     (None, w') \<Rightarrow> E StopUnwind (fc, w') | (Some a, w') \<Rightarrow> Q a (fc, w'))"
  by (auto simp: wp_def ctl_operation_def fun_eq_iff split: option.split prod.split)

section \<open>The idle flow and its end\<close>

text \<open>Between rounds: as many failures as attempts, the last one remembered.\<close>

definition flow_idle ::
  "('i, 'd, 'y, 'b, 'w) deps \<Rightarrow> ('i, 'b, 'w, 'e) flow_controller \<Rightarrow> nat
     \<Rightarrow> ('i, 'b, 'w, 'e) flow_controller \<times> 'w \<Rightarrow> bool"
where
  "flow_idle X K n s \<longleftrightarrow> (\<exists>lf. ctl_ok X K n False lf s \<and> (lf = None \<longleftrightarrow> n = 0))"

text \<open>
  What every result of a flow of at most \<open>M\<close> attempts satisfies: a coherent account, and a
  failure only when something was attempted.
\<close>

definition success_ok :: "nat \<Rightarrow> 't retry_success \<Rightarrow> bool" where
  "success_ok M success \<longleftrightarrow>
     (\<exists>n. 0 < n \<and> n \<le> M \<and> ctx_ok M n (suc_context success)) \<and>
     ctx_current_attempt (suc_context success) = None"

definition error_ok :: "nat \<Rightarrow> 'e retry_error \<Rightarrow> bool" where
  "error_ok M e \<longleftrightarrow>
     (\<exists>n. n \<le> M \<and> ctx_ok M n (err_context e) \<and> (err_last_failure e \<noteq> None \<longrightarrow> 0 < n))"

primrec stop_ok :: "nat \<Rightarrow> 'e retry_error stop \<Rightarrow> bool" where
  "stop_ok M (StopError e) = error_ok M e"
| "stop_ok M StopUnwind = True"

definition result_ok :: "nat \<Rightarrow> ('t, 'e) retry_result \<Rightarrow> bool" where
  "result_ok M r = (case r of Inl e \<Rightarrow> error_ok M e | Inr s \<Rightarrow> success_ok M s)"

definition config_cap :: "('e, 'w) retry_config \<Rightarrow> nat" where
  "config_cap config = unat (nz_get (lim_max_attempts (pol_limits (cfg_policy config))))"

text \<open>A round either ends with a success, or leaves the flow idle with one attempt more.\<close>

definition round_post ::
  "('i, 'd, 'y, 'b, 'w) deps \<Rightarrow> ('i, 'b, 'w, 'e) flow_controller \<Rightarrow> nat \<Rightarrow> 't retry_success option
     \<Rightarrow> ('i, 'b, 'w, 'e) flow_controller \<times> 'w \<Rightarrow> bool"
where
  "round_post X K n r s = (case r of
     None \<Rightarrow> flow_idle X K (Suc n) s | Some a \<Rightarrow> success_ok (ctl_max K) a)"

abbreviation round_stop ::
  "('i, 'b, 'w, 'e) flow_controller \<Rightarrow> 'e retry_error stop
     \<Rightarrow> ('i, 'b, 'w, 'e) flow_controller \<times> 'w \<Rightarrow> bool"
where
  "round_stop K \<equiv> (\<lambda>e s. stop_ok (ctl_max K) e)"

text \<open>The return of a success, as every facade writes it.\<close>

definition ctl_succeed ::
  "('i, 'd, 'x, 'b, 'w) deps \<Rightarrow> ('i, 'w) clock_reader \<Rightarrow> 't
     \<Rightarrow> ('i, 'b, 'w, 'e, 'e retry_error stop, 't retry_success option) ctl"
where
  "ctl_succeed X clock v =
     andthen (checked (ctl_finish_success X clock)) (\<lambda>context.
     ok (Some (retry_success_new v context)))"

context deps_laws
begin

lemma ctl_ends_error_ok:
  assumes "ctl_ends X K n lf e s" and "lf \<noteq> None \<longrightarrow> 0 < n"
  shows "error_ok (ctl_max K) e"
proof -
  have "n \<le> ctl_max K" using assms(1) by (auto simp: ctl_ends_def dest: ctl_ok_le)
  then show ?thesis using assms by (auto simp: error_ok_def ctl_ends_def)
qed

lemma flow_idle_cap: "flow_idle X K n s \<Longrightarrow> n \<le> ctl_max K"
  by (auto simp: flow_idle_def dest: ctl_ok_le)

lemma flow_idle_new:
  "fc = ctl_new X t config random attempt_timeout flow_timeout \<Longrightarrow> flow_idle X fc 0 (fc, w)"
  unfolding flow_idle_def using ctl_ok_new by blast

lemma ctl_attempts_wp:
  assumes "ctl_ok X K n b lf s"
  shows "wp (ctl_attempts X) (\<lambda>k s'. unat k = n \<and> s' = s) E s"
proof (cases s)
  case (Pair fc w)
  have inv: "fs_inv X (fc_state fc)" using assms Pair by (simp add: ctl_ok_def)
  then obtain c where c: "flow_context X None (fc_state fc) = Some c"
    using fs_reads_some(5) by blast
  then show ?thesis
    using fs_context_facts [OF inv c] assms Pair by (simp add: ctl_attempts_def ctl_ok_def)
qed

lemma ctl_timer_failed_wp:
  assumes "ctl_ok X K n b lf s"
  shows "wp (ctl_timer_failed X T error) Q (ctl_ends X K n lf) s"
    and "wp (ctl_timer_failed_active X T error) Q (ctl_ends X K n lf) s"
  using assms unfolding ctl_timer_failed_def ctl_timer_failed_active_def
  by (auto split: prod.split intro!: wp_mono [OF ctl_infrastructure_records_wp(1)]
      wp_mono [OF ctl_infrastructure_records_wp(2)] intro: ctl_ok_world)

lemma finish_failed_attempt_wp:
  assumes "wait_laws T park pend target due cancellation cancelled" and "ctl_ok X K n True lf s"
  shows "wp (finish_failed_attempt X T park cancellation failure)
    (\<lambda>_ s'. ctl_ok X K n False (Some failure) s' \<and> n < ctl_max K)
    (ctl_ends X K n (Some failure)) s"
  unfolding finish_failed_attempt_def
proof (rule wp_seq [OF ctl_record_failure_wp [OF assms(2)]])
  fix directive s'
  assume "ctl_ok X K n False (Some failure) s' \<and> n < ctl_max K \<and>
    (\<exists>delay. fc_next_delay (fst s') = Some delay \<and> backoff_prepared X delay directive (fc_state (fst s')))"
  then have s': "ctl_ok X K n False (Some failure) (fst s', w)" "n < ctl_max K" for w
    by (cases s', auto intro: ctl_ok_world)
  show "wp (andthen (ctl_world (wait_for_backoff T park (bop_deadline directive)
         (bop_immediate directive) cancellation)) (\<lambda>outcome.
       case outcome of
         BackoffElapsed \<Rightarrow> ok ()
       | BackoffCancelled \<Rightarrow> return_err (ctl_record_backoff_cancellation X (timer_clock T))
       | BackoffTimerFailed error \<Rightarrow> ctl_timer_failed X T error))
     (\<lambda>_ s'. ctl_ok X K n False (Some failure) s' \<and> n < ctl_max K)
     (ctl_ends X K n (Some failure)) s'"
  proof (cases s')
    case (Pair fc w)
    have "wp (case outcome of
         BackoffElapsed \<Rightarrow> ok ()
       | BackoffCancelled \<Rightarrow> return_err (ctl_record_backoff_cancellation X (timer_clock T))
       | BackoffTimerFailed error \<Rightarrow> ctl_timer_failed X T error)
      (\<lambda>_ s'. ctl_ok X K n False (Some failure) s' \<and> n < ctl_max K)
      (ctl_ends X K n (Some failure)) (fc, w')" for outcome w'
      using s'(1) [of w'] s'(2) Pair
      by (cases outcome) (simp_all add: ctl_record_backoff_cancellation_wp ctl_timer_failed_wp(1))
    then show ?thesis
      using Pair by (simp, intro wp_only [OF wait_laws.wait_for_backoff_wp [OF assms(1)]]) simp
  qed
qed

text \<open>Refusals before the attempt counts, and what ends the flow after it does.\<close>

lemma refused_stop:
  "ctl_ends X K n lf e s \<Longrightarrow> (lf = None \<longleftrightarrow> n = 0) \<Longrightarrow> round_stop K (StopError e) t"
  using ctl_ends_error_ok [of K n lf e s] by auto

lemma ended_stop: "ctl_ends X K (Suc n) lf e s \<Longrightarrow> round_stop K (StopError e) t"
  using ctl_ends_error_ok [of K "Suc n" lf e s] by auto

lemma ctl_succeed_wp:
  assumes "ctl_ok X K (Suc n) True lf s"
  shows "wp (ctl_succeed X clock v) (round_post X K n) (round_stop K) s"
  unfolding ctl_succeed_def wp_andthen wp_checked
  by (rule wp_mono [OF ctl_finish_success_wp [OF assms]])
    (use ctl_ok_le [OF assms] ended_stop in
      \<open>auto simp: round_post_def success_ok_def retry_success_new_def simp del: stop_ok.simps\<close>)

lemma round_retry_wp:
  assumes "wait_laws T park pend target due cancellation cancelled"
    and "ctl_ok X K (Suc n) True lf s"
  shows "wp (andthen (checked (finish_failed_attempt X T park cancellation failure)) (\<lambda>_. ok None))
    (round_post X K n) (round_stop K) s"
  unfolding wp_andthen wp_checked
  by (rule wp_mono [OF finish_failed_attempt_wp [OF assms]])
    (use ended_stop in \<open>auto simp: round_post_def flow_idle_def simp del: stop_ok.simps\<close>)

end

section \<open>Flows\<close>

text \<open>The timer a facade uses, and the frame around its loop.\<close>

definition chosen_timer ::
  "('i, 'x, 'f, 'w) timer \<Rightarrow> ('i, 'x, 'f, 'w) timer option \<Rightarrow> ('i, 'x, 'f, 'w) timer"
where
  "chosen_timer default_timer configured =
     (case configured of Some T \<Rightarrow> T | None \<Rightarrow> default_timer)"

definition run_flow ::
  "('i, 'd, 'x, 'b, 'w) deps \<Rightarrow> ('i, 'x, 'f, 'w) timer \<Rightarrow> ('e, 'w) retry_config
     \<Rightarrow> 'w random_source option \<Rightarrow> duration option \<Rightarrow> duration option
     \<Rightarrow> ('i, 'b, 'w, 'e, 'e retry_error stop, 't retry_success option) ctl
     \<Rightarrow> ('w, 'e retry_error stop, 't retry_success) prog"
where
  "run_flow X T config random attempt_timeout flow_timeout body = (\<lambda>w.
     let (now, w') = timer_clock T w;
         controller = ctl_new X now config random attempt_timeout flow_timeout
     in (case loops body (controller, w') of
           None \<Rightarrow> None
         | Some (result, _, w'') \<Rightarrow> Some (result, w'')))"

text \<open>\<open>config.complete(..)\<close> runs for a result, not for an unwinding.\<close>

definition complete_run ::
  "('e, 'w) retry_config \<Rightarrow> ('w, 'e retry_error stop, 't retry_success) prog
     \<Rightarrow> ('w, unit, ('t, 'e) retry_result) prog"
where
  "complete_run config m = (\<lambda>w. case m w of
       None \<Rightarrow> None
     | Some (r, w') \<Rightarrow>
         (case r of
            Inl StopUnwind \<Rightarrow> Some (Inl (), w')
          | Inl (StopError e) \<Rightarrow> (case config_complete config (Inl e) w' of (r, w'') \<Rightarrow> Some (Inr r, w''))
          | Inr s \<Rightarrow> (case config_complete config (Inr s) w' of (r, w'') \<Rightarrow> Some (Inr r, w''))))"

text \<open>What completion keeps of a result, a run keeps of what its loop ends with.\<close>

lemma complete_run_keeps:
  assumes keep: "\<And>r w r' w'. config_complete config r w = (r', w') \<Longrightarrow> P r w \<Longrightarrow> P r' w'"
    and "wp m (\<lambda>s. P (Inr s)) (\<lambda>e w. case e of StopError error \<Rightarrow> P (Inl error) w | StopUnwind \<Rightarrow> U w) w"
  shows "wp (complete_run config m) P (\<lambda>_. U) w"
  using assms(2)
  by (auto simp: wp_def complete_run_def split: option.splits sum.splits stop.splits prod.splits
      dest!: keep)

lemma config_complete_ok:
  "result_ok M (fst (config_complete config r w)) = result_ok M r"
  by (auto simp: config_complete_def result_ok_def success_ok_def error_ok_def
      success_set_completion_callback_failures_def error_set_completion_callback_failures_def
      split: sum.split prod.split)

lemma complete_run_wp:
  assumes "wp m (\<lambda>s w'. success_ok M s) (\<lambda>e w'. stop_ok M e) w"
  shows "wp (complete_run config m) (\<lambda>r w'. result_ok M r) (\<lambda>_ _. True) w"
proof (rule complete_run_keeps)
  show "result_ok M r'" if "config_complete config r w = (r', w')" "result_ok M r" for r w r' w'
    using that config_complete_ok [of M config r w] by simp
qed (rule wp_mono [OF assms], auto simp: result_ok_def split: stop.split)

text \<open>A flow whose loop ends from every idle state ends with a coherent result.\<close>

lemma run_flow_wp:
  assumes "deps_laws X"
    and loop: "\<And>K s. flow_idle X K 0 s \<Longrightarrow>
      wp (loops body) (\<lambda>a _. success_ok (ctl_max K) a) (round_stop K) s"
  shows "wp (complete_run config (run_flow X T config random attempt_timeout flow_timeout body))
    (\<lambda>r w'. result_ok (config_cap config) r) (\<lambda>_ _. True) w"
proof (rule complete_run_wp)
  obtain now w' where now: "timer_clock T w = (now, w')" by fastforce
  define fc where "fc = ctl_new X now config random attempt_timeout flow_timeout"
  have cap: "ctl_max fc = config_cap config"
    by (simp add: fc_def config_cap_def deps_laws.ctl_max_new [OF assms(1)])
  from loop [OF deps_laws.flow_idle_new [OF assms(1) fc_def, of w']]
  show "wp (run_flow X T config random attempt_timeout flow_timeout body)
      (\<lambda>s w'. success_ok (config_cap config) s) (\<lambda>e w'. stop_ok (config_cap config) e) w"
    unfolding cap
    by (auto simp: wp_def run_flow_def now fc_def [symmetric] split: option.splits sum.splits)
qed

end
