(* ===== verification/Sync_Retry.thy ===== *)
theory Sync_Retry
  imports Rounds
begin

text \<open>
  The synchronous facade (src/src/executor/retry.rs): the caller's thread runs the
  operation and sleeps between the attempts.  A panic of the operation is not caught and
  leaves \<open>run\<close> without completion callbacks.
\<close>

section \<open>The facade\<close>

record ('e, 'i, 'x, 'f, 'c, 'w) retry =
  rt_config :: "('e, 'w) retry_config"
  rt_cancellation_token :: "('c, 'w) token option"
  rt_timer :: "('i, 'x, 'f, 'w) timer option"
  rt_random_source :: "'w random_source option"

definition retry_new :: "('e, 'w) retry_config \<Rightarrow> ('e, 'i, 'x, 'f, 'c, 'w) retry" where
  "retry_new config =
     \<lparr>rt_config = config, rt_cancellation_token = None, rt_timer = None, rt_random_source = None\<rparr>"

definition retry_set_cancellation_token ::
  "('c, 'w) token \<Rightarrow> ('e, 'i, 'x, 'f, 'c, 'w) retry \<Rightarrow> ('e, 'i, 'x, 'f, 'c, 'w) retry"
where
  "retry_set_cancellation_token tok r = r\<lparr>rt_cancellation_token := Some tok\<rparr>"

definition retry_set_timer ::
  "('i, 'x, 'f, 'w) timer \<Rightarrow> ('e, 'i, 'x, 'f, 'c, 'w) retry \<Rightarrow> ('e, 'i, 'x, 'f, 'c, 'w) retry"
where
  "retry_set_timer T r = r\<lparr>rt_timer := Some T\<rparr>"

definition retry_set_random_source ::
  "'w random_source \<Rightarrow> ('e, 'i, 'x, 'f, 'c, 'w) retry \<Rightarrow> ('e, 'i, 'x, 'f, 'c, 'w) retry"
where
  "retry_set_random_source random r = r\<lparr>rt_random_source := Some random\<rparr>"

section \<open>Runs\<close>

text \<open>The body of the loop; \<open>Some\<close> is the return of a success.\<close>

definition sync_round ::
  "('i, 'd, 'x, 'b, 'w) deps \<Rightarrow> ('i, 'x, 'f, 'w) timer \<Rightarrow> ('w \<Rightarrow> 'w option)
     \<Rightarrow> ('c, 'w) token option \<Rightarrow> ('w \<Rightarrow> ('e + 't) option \<times> 'w)
     \<Rightarrow> ('i, 'b, 'w, 'e, 'e retry_error stop, 't retry_success option) ctl"
where
  "sync_round X T park cancellation operation =
     andthen (checked (ctl_before_attempt X (timer_clock T) (flag_of cancellation))) (\<lambda>_.
     andthen (checked (ctl_commit_attempt X (timer_clock T) (flag_of cancellation))) (\<lambda>_.
     andthen (ctl_operation operation) (\<lambda>result.
     case result of
       Inr v \<Rightarrow> ctl_succeed X (timer_clock T) v
     | Inl error \<Rightarrow>
         andthen (checked (finish_failed_attempt X T park cancellation (FailError error))) (\<lambda>_.
         ok None))))"

text \<open>\<open>std_timer\<close> is the timer used when none was configured.\<close>

definition retry_run_inner ::
  "('i, 'd, 'x, 'b, 'w) deps \<Rightarrow> ('i, 'x, 'f, 'w) timer \<Rightarrow> ('w \<Rightarrow> 'w option)
     \<Rightarrow> ('e, 'i, 'x, 'f, 'c, 'w) retry \<Rightarrow> ('w \<Rightarrow> ('e + 't) option \<times> 'w)
     \<Rightarrow> ('w, 'e retry_error stop, 't retry_success) prog"
where
  "retry_run_inner X std_timer park r operation =
     (let T = chosen_timer std_timer (rt_timer r)
      in run_flow X T (rt_config r) (rt_random_source r) None None
           (sync_round X T park (rt_cancellation_token r) operation))"

definition retry_run ::
  "('i, 'd, 'x, 'b, 'w) deps \<Rightarrow> ('i, 'x, 'f, 'w) timer \<Rightarrow> ('w \<Rightarrow> 'w option)
     \<Rightarrow> ('e, 'i, 'x, 'f, 'c, 'w) retry \<Rightarrow> ('w \<Rightarrow> ('e + 't) option \<times> 'w)
     \<Rightarrow> ('w, unit, ('t, 'e) retry_result) prog"
where
  "retry_run X std_timer park r operation =
     complete_run (rt_config r) (retry_run_inner X std_timer park r operation)"

section \<open>Runs end\<close>

locale sync_flow = deps_laws X + wait_laws T park pend target due cancellation cancelled
  for X :: "('i, 'd, 'x, 'b, 'w) deps" and T :: "('i, 'x, 'f, 'w) timer" and park pend target due
    and cancellation :: "('c, 'w) token option" and cancelled +
  fixes operation :: "'w \<Rightarrow> ('e + 't) option \<times> 'w"
begin

lemma sync_round_wp:
  assumes "flow_idle X K n s"
  shows "wp (sync_round X T park cancellation operation) (round_post X K n) (round_stop K) s"
proof -
  obtain lf where ok: "ctl_ok X K n False lf s" and lf: "lf = None \<longleftrightarrow> n = 0"
    using assms by (auto simp: flow_idle_def)
  have operate: "wp (andthen (ctl_operation operation) (\<lambda>result.
       case result of
         Inr v \<Rightarrow> ctl_succeed X (timer_clock T) v
       | Inl error \<Rightarrow>
           andthen (checked (finish_failed_attempt X T park cancellation (FailError error))) (\<lambda>_. ok None)))
      (round_post X K n) (round_stop K) t"
    if t: "ctl_ok X K (Suc n) True lf t" for t
  proof (cases t)
    case (Pair fc w)
    have "ctl_ok X K (Suc n) True lf (fc, w')" for w'
      using t Pair ctl_ok_world [of X K "Suc n" True lf fc w w'] by simp
    then show ?thesis
      unfolding Pair wp_andthen [of "ctl_operation operation"] wp_ctl_operation
      by (auto split: prod.split option.split sum.split intro: ctl_succeed_wp
          round_retry_wp [OF wait_laws_axioms] simp del: wp_andthen)
  qed
  have commit: "wp (checked (ctl_commit_attempt X (timer_clock T) (flag_of cancellation)))
      (\<lambda>_. ctl_ok X K (Suc n) True lf) (round_stop K) t" if t: "ctl_ok X K n False lf t" for t
    unfolding wp_checked
    by (rule wp_mono [OF ctl_commit_attempt_wp [OF t]]) (auto dest: refused_stop [OF _ lf])
  have announce: "wp (checked (ctl_before_attempt X (timer_clock T) (flag_of cancellation)))
      (\<lambda>_. ctl_ok X K n False lf) (round_stop K) s"
    unfolding wp_checked
    by (rule wp_mono [OF ctl_before_attempt_wp [OF ok]])
      (auto simp: ctl_sampled_def dest: refused_stop [OF _ lf])
  show ?thesis
    unfolding sync_round_def
    by (rule wp_seq [OF announce], rule wp_seq [OF commit], assumption) (rule operate)
qed

end

sublocale sync_flow \<subseteq> sync: rounds "sync_round X T park cancellation operation" "flow_idle X K"
  "ctl_max K" "\<lambda>a _. success_ok (ctl_max K) a" "\<lambda>e _. stop_ok (ctl_max K) e" for K
  using sync_round_wp flow_idle_cap by unfold_locales (simp_all add: round_post_def [abs_def])

context sync_flow
begin

lemma sync_loop_ends:
  "flow_idle X K n s \<Longrightarrow> wp (loops (sync_round X T park cancellation operation))
     (\<lambda>a _. success_ok (ctl_max K) a) (round_stop K) s"
  by (rule sync.rounds_end)

end

section \<open>Properties\<close>

text \<open>
  C3. A synchronous run ends.  Whatever the operation, rules, observers, clock and cancelling
  threads do, and provided the thread's waits are woken, \<open>run\<close> returns after at most as many
  rounds as attempts are allowed, without an internal panic; unless the operation itself
  unwinds it returns a result whose account is coherent: between one attempt and the limit
  for a success, at most the limit for an error, a last failure only when something was
  attempted.
\<close>

theorem retry_run_ends:
  assumes "deps_laws X"
    and "wait_laws (chosen_timer std_timer (rt_timer r)) park pend target due
      (rt_cancellation_token r) cancelled"
  shows "wp (retry_run X std_timer park r operation)
    (\<lambda>result w'. result_ok (config_cap (rt_config r)) result) (\<lambda>_ _. True) w"
  unfolding retry_run_def retry_run_inner_def Let_def
  by (rule run_flow_wp [OF assms(1)])
    (rule sync_flow.sync_loop_ends [OF sync_flow.intro [OF assms]])

text \<open>Three attempts in the simulated world; another thread cancels at time 30.\<close>

definition sim_retry :: "(string, nat \<times> duration, string, nat \<times> duration, cancelled_future, sim_world) retry"
where
  "sim_retry = retry_set_cancellation_token (sim_token 30) (retry_set_timer sim_timer (retry_new
     (config_new (policy_new (admission_limits_new (Abs_nonzero_u32 3) None None)
        (backoff_fixed (of_nanos 5))) FallbackRetry [] [])))"

interpretation sim_sync: sync_flow manual_deps sim_timer sim_park sim_pend id sim_due
  "Some (sim_token k)" sim_cancelled operation for k operation
  by (rule sync_flow.intro [OF manual.deps_laws_axioms sim_wait.wait_laws_axioms])

lemma sim_retry_cap: "config_cap (rt_config sim_retry) = 3"
  by (simp add: config_cap_def sim_retry_def retry_set_cancellation_token_def retry_set_timer_def
      retry_new_def config_new_def policy_new_def admission_limits_new_def Abs_nonzero_u32_inverse)

lemma retry_run_ends_witness:
  "wp (retry_run manual_deps sim_timer sim_park sim_retry
       (\<lambda>w. (Some (if sim_time w < 12 then Inl ''refused'' else Inr (sim_time w)), w)))
     (\<lambda>result w'. result_ok 3 result) (\<lambda>_ _. True) sim_start"
proof -
  have "wait_laws (chosen_timer sim_timer (rt_timer sim_retry)) sim_park sim_pend id sim_due
      (rt_cancellation_token sim_retry) sim_cancelled"
    using sim_wait.wait_laws_axioms
    by (simp add: sim_retry_def chosen_timer_def retry_set_cancellation_token_def retry_set_timer_def)
  then show ?thesis
    using retry_run_ends [OF manual.deps_laws_axioms, of sim_timer sim_retry sim_park sim_pend id
        sim_due sim_cancelled "\<lambda>w. (Some (if sim_time w < 12 then Inl ''refused'' else Inr (sim_time w)), w)"
        sim_start] by (simp add: sim_retry_cap)
qed

end
