(* ===== verification/Session.thy ===== *)
theory Session
  imports Rounds
begin

text \<open>
  The owned session (src/src/executor/retry_session.rs): a flow driven from outside, one call
  at a time.  The session's phase says which call is allowed; a call in the wrong phase
  is an \<open>assert!\<close>, here a panic.  Between two calls the world does what it likes.
\<close>

section \<open>State\<close>

datatype 'i session_phase =
    SessionReady
  | SessionActive
  | SessionWaiting 'i
  | SessionFinished

datatype 'i session_admission =
    Admitted nonzero_u32
  | AdmissionWaiting 'i

datatype ('t, 'e, 'i) session_step =
    StepComplete "'t retry_success"
  | StepRetryAt 'i
  | StepFailed "'e retry_error"

record ('i, 'x, 'b, 'f, 'c, 'w, 'e) retry_session =
  ses_config :: "('e, 'w) retry_config"
  ses_controller :: "('i, 'b, 'w, 'e) flow_controller"
  ses_timer :: "('i, 'x, 'f, 'w) timer"
  ses_cancellation_token :: "('c, 'w) token option"
  ses_phase :: "'i session_phase"

type_synonym ('i, 'x, 'b, 'f, 'c, 'w, 'e, 'y, 'a) ses =
  "(('i, 'x, 'b, 'f, 'c, 'w, 'e) retry_session \<times> 'w, 'y, 'a) prog"

section \<open>Construction\<close>

definition session_new_inner ::
  "('i, 'd, 'x, 'b, 'w) deps \<Rightarrow> ('e, 'w) retry_config \<Rightarrow> ('i, 'x, 'f, 'w) timer
     \<Rightarrow> 'w random_source option \<Rightarrow> 'w \<Rightarrow> ('i, 'x, 'b, 'f, 'c, 'w, 'e) retry_session \<times> 'w"
where
  "session_new_inner X config T random w =
     (let (now, w') = timer_clock T w
      in (\<lparr>ses_config = config, ses_controller = ctl_new X now config random None None,
           ses_timer = T, ses_cancellation_token = None, ses_phase = SessionReady\<rparr>, w'))"

definition session_new ::
  "('i, 'd, 'x, 'b, 'w) deps \<Rightarrow> ('e, 'w) retry_config \<Rightarrow> ('i, 'x, 'f, 'w) timer
     \<Rightarrow> 'w \<Rightarrow> ('i, 'x, 'b, 'f, 'c, 'w, 'e) retry_session \<times> 'w"
where
  "session_new X config T = session_new_inner X config T None"

definition session_new_with_random_source ::
  "('i, 'd, 'x, 'b, 'w) deps \<Rightarrow> ('e, 'w) retry_config \<Rightarrow> ('i, 'x, 'f, 'w) timer
     \<Rightarrow> 'w random_source \<Rightarrow> 'w \<Rightarrow> ('i, 'x, 'b, 'f, 'c, 'w, 'e) retry_session \<times> 'w"
where
  "session_new_with_random_source X config T random = session_new_inner X config T (Some random)"

definition session_with_cancellation_token ::
  "('c, 'w) token \<Rightarrow> ('i, 'x, 'b, 'f, 'c, 'w, 'e) retry_session
     \<Rightarrow> ('i, 'x, 'b, 'f, 'c, 'w, 'e) retry_session"
where
  "session_with_cancellation_token tok s = s\<lparr>ses_cancellation_token := Some tok\<rparr>"

section \<open>Access\<close>

definition ses_get ::
  "(('i, 'x, 'b, 'f, 'c, 'w, 'e) retry_session \<Rightarrow> 'a) \<Rightarrow> ('i, 'x, 'b, 'f, 'c, 'w, 'e, 'y, 'a) ses"
where
  "ses_get f = reads (\<lambda>(s, w). f s)"

definition ses_set_phase ::
  "'i session_phase \<Rightarrow> ('i, 'x, 'b, 'f, 'c, 'w, 'e, 'y, unit) ses"
where
  "ses_set_phase phase = updates (\<lambda>(s, w). (s\<lparr>ses_phase := phase\<rparr>, w))"

text \<open>A method of the session's controller, with its clock and flag.\<close>

definition ses_ctl ::
  "(('i, 'w) clock_reader \<Rightarrow> 'w cancellation \<Rightarrow> ('i, 'b, 'w, 'e, 'y, 'a) ctl)
     \<Rightarrow> ('i, 'x, 'b, 'f, 'c, 'w, 'e, 'y, 'a) ses"
where
  "ses_ctl m = (\<lambda>(s, w).
     case m (timer_clock (ses_timer s)) (flag_of (ses_cancellation_token s)) (ses_controller s, w) of
       None \<Rightarrow> None
     | Some (r, fc, w') \<Rightarrow> Some (r, s\<lparr>ses_controller := fc\<rparr>, w'))"

definition ses_complete ::
  "('t, 'e) retry_result \<Rightarrow> ('i, 'x, 'b, 'f, 'c, 'w, 'e, 'y, ('t, 'e) retry_result) ses"
where
  "ses_complete result = (\<lambda>(s, w).
     let (r, w') = config_complete (ses_config s) result w in Some (Inr r, s, w'))"

section \<open>Calls\<close>

text \<open>The admission of \<open>begin_attempt\<close>; \<open>Some due\<close> when the backoff is not over.\<close>

definition ses_before_and_commit ::
  "('i, 'd, 'x, 'b, 'w) deps \<Rightarrow> ('i, 'x, 'b, 'f, 'c, 'w, 'e, 'e retry_error, 'i option) ses"
where
  "ses_before_and_commit X =
     andthen (ses_ctl (ctl_before_attempt X)) (\<lambda>_.
     andthen (ses_ctl (ctl_commit_attempt X)) (\<lambda>_.
     ok None))"

definition ses_admit ::
  "('i, 'd, 'x, 'b, 'w) deps \<Rightarrow> 'i session_phase
     \<Rightarrow> ('i, 'x, 'b, 'f, 'c, 'w, 'e, 'e retry_error, 'i option) ses"
where
  "ses_admit X phase =
     (case phase of
        SessionReady \<Rightarrow> ses_before_and_commit X
      | SessionWaiting due \<Rightarrow>
          andthen (ses_ctl (\<lambda>clock cancellation. ctl_check_backoff_ready X clock cancellation due)) (\<lambda>ready.
          if ready then ses_before_and_commit X else ok (Some due))
      | SessionActive \<Rightarrow> panic
      | SessionFinished \<Rightarrow> panic)"

definition session_begin_attempt ::
  "('i, 'd, 'x, 'b, 'w) deps
     \<Rightarrow> ('i, 'x, 'b, 'f, 'c, 'w, 'e, 'e retry_error, 'i session_admission) ses"
where
  "session_begin_attempt X =
     andthen (ses_get ses_phase) (\<lambda>phase.
     andthen (check (case phase of SessionReady \<Rightarrow> True | SessionWaiting _ \<Rightarrow> True | _ \<Rightarrow> False)) (\<lambda>_.
     andthen (attempt (ses_admit X phase)) (\<lambda>result.
     case result of
       Inr (Some due) \<Rightarrow> ok (AdmissionWaiting due)
     | Inr None \<Rightarrow>
         andthen (ses_set_phase SessionActive) (\<lambda>_.
         andthen (ses_ctl (\<lambda>clock cancellation. ctl_attempts X)) (\<lambda>attempts.
         andthen (expect (nz_new attempts)) (\<lambda>ordinal.
         ok (Admitted ordinal))))
     | Inl error \<Rightarrow>
         andthen (ses_set_phase SessionFinished) (\<lambda>_.
         andthen (ses_complete (Inl error :: ('i session_admission, 'e) retry_result)) (\<lambda>completed.
         case completed of
           Inl e \<Rightarrow> fail e
         | Inr success \<Rightarrow> ok (into_value_discarding_diagnostics success))))))"

definition session_finish ::
  "('t, 'e) retry_result \<Rightarrow> ('i, 'x, 'b, 'f, 'c, 'w, 'e, 'y, ('t, 'e, 'i) session_step) ses"
where
  "session_finish terminal =
     andthen (ses_set_phase SessionFinished) (\<lambda>_.
     andthen (ses_complete terminal) (\<lambda>completed.
     case completed of
       Inr success \<Rightarrow> ok (StepComplete success)
     | Inl error \<Rightarrow> ok (StepFailed error)))"

definition session_record_result ::
  "('i, 'd, 'x, 'b, 'w) deps \<Rightarrow> 'e + 't
     \<Rightarrow> ('i, 'x, 'b, 'f, 'c, 'w, 'e, 'y, ('t, 'e, 'i) session_step) ses"
where
  "session_record_result X result =
     andthen (ses_get ses_phase) (\<lambda>phase.
     andthen (check (case phase of SessionActive \<Rightarrow> True | _ \<Rightarrow> False)) (\<lambda>_.
     case result of
       Inr v \<Rightarrow>
         andthen (attempt (ses_ctl (\<lambda>clock cancellation. ctl_finish_success X clock))) (\<lambda>r.
         session_finish (map_right (retry_success_new v) r))
     | Inl error \<Rightarrow>
         andthen (attempt (ses_ctl (ctl_record_failure X (FailError error)))) (\<lambda>r.
         case r of
           Inr plan \<Rightarrow>
             andthen (ses_set_phase (SessionWaiting (bop_deadline plan))) (\<lambda>_.
             ok (StepRetryAt (bop_deadline plan)))
         | Inl e \<Rightarrow> session_finish (Inl e))))"

section \<open>Preconditions\<close>

lemma wp_ses_get [wp_rules, simp]: "wp (ses_get f) Q E = (\<lambda>(s, w). Q (f s) (s, w))"
  by (simp add: ses_get_def fun_eq_iff)

lemma wp_ses_set_phase [wp_rules, simp]:
  "wp (ses_set_phase phase) Q E = (\<lambda>(s, w). Q () (s\<lparr>ses_phase := phase\<rparr>, w))"
  by (simp add: ses_set_phase_def fun_eq_iff)

lemma wp_ses_ctl [wp_rules, simp]:
  "wp (ses_ctl m) Q E = (\<lambda>(s, w).
     wp (m (timer_clock (ses_timer s)) (flag_of (ses_cancellation_token s)))
       (\<lambda>a (fc, w'). Q a (s\<lparr>ses_controller := fc\<rparr>, w'))
       (\<lambda>e (fc, w'). E e (s\<lparr>ses_controller := fc\<rparr>, w')) (ses_controller s, w))"
  by (auto simp: wp_def ses_ctl_def fun_eq_iff split: option.split sum.split)

lemma wp_ses_complete [wp_rules, simp]:
  "wp (ses_complete result) Q E =
     (\<lambda>(s, w). case config_complete (ses_config s) result w of (r, w') \<Rightarrow> Q r (s, w'))"
  by (simp add: wp_def ses_complete_def fun_eq_iff case_prod_beta Let_def)

section \<open>The protocol\<close>

text \<open>
  What holds between calls: nothing has been attempted in \<open>Ready\<close>, one attempt runs in
  \<open>Active\<close>, in \<open>Waiting\<close> a failed attempt is behind and another is left.
\<close>

definition ses_inv ::
  "('i, 'd, 'x, 'b, 'w) deps \<Rightarrow> ('i, 'b, 'w, 'e) flow_controller \<Rightarrow> nat
     \<Rightarrow> ('i, 'x, 'b, 'f, 'c, 'w, 'e) retry_session \<times> 'w \<Rightarrow> bool"
where
  "ses_inv X K n = (\<lambda>(s, w).
     case ses_phase s of
       SessionReady \<Rightarrow> n = 0 \<and> flow_idle X K n (ses_controller s, w)
     | SessionActive \<Rightarrow> 0 < n \<and> (\<exists>lf. ctl_ok X K n True lf (ses_controller s, w))
     | SessionWaiting due \<Rightarrow> 0 < n \<and> n < ctl_max K \<and> flow_idle X K n (ses_controller s, w)
     | SessionFinished \<Rightarrow> n \<le> ctl_max K)"

text \<open>What a call never changes.\<close>

definition ses_frame ::
  "('i, 'x, 'b, 'f, 'c, 'w, 'e) retry_session \<Rightarrow> ('i, 'x, 'b, 'f, 'c, 'w, 'e) retry_session \<Rightarrow> bool"
where
  "ses_frame s s' \<longleftrightarrow> ses_config s' = ses_config s \<and> ses_timer s' = ses_timer s \<and>
     ses_cancellation_token s' = ses_cancellation_token s"

lemma flow_idle_world: "flow_idle X K n (fc, w) \<Longrightarrow> flow_idle X K n (fc, w')"
  by (auto simp: flow_idle_def intro: ctl_ok_world)

lemma ses_inv_world: "ses_inv X K n (s, w) \<Longrightarrow> ses_inv X K n (s, w')"
  by (auto simp: ses_inv_def split: session_phase.splits intro: flow_idle_world ctl_ok_world)

context deps_laws
begin

lemma ses_before_and_commit_wp:
  assumes "flow_idle X K n (ses_controller s, w)"
  shows "wp (ses_before_and_commit X)
    (\<lambda>r (s', w'). r = None \<and> ses_frame s s' \<and> ses_phase s' = ses_phase s \<and> n < ctl_max K \<and>
       (\<exists>lf. ctl_ok X K (Suc n) True lf (ses_controller s', w')))
    (\<lambda>e (s', w'). ses_frame s s' \<and> error_ok (ctl_max K) e) (s, w)"
proof -
  obtain lf where ok: "ctl_ok X K n False lf (ses_controller s, w)" and lf: "lf = None \<longleftrightarrow> n = 0"
    using assms by (auto simp: flow_idle_def)
  have ended: "error_ok (ctl_max K) e" if "ctl_ends X K n lf e t" for e t
    using ctl_ends_error_ok [OF that] lf by simp
  show ?thesis
    unfolding ses_before_and_commit_def
  proof (rule wp_seq)
    show "wp (ses_ctl (ctl_before_attempt X))
      (\<lambda>_ (s', w'). ses_frame s s' \<and> ses_phase s' = ses_phase s \<and> ctl_ok X K n False lf (ses_controller s', w'))
      (\<lambda>e (s', w'). ses_frame s s' \<and> error_ok (ctl_max K) e) (s, w)"
      by (simp, rule wp_mono [OF ctl_before_attempt_wp [OF ok]])
        (auto simp: ctl_sampled_def ses_frame_def intro: ended)
  next
    fix u t
    assume t: "(\<lambda>(s', w'). ses_frame s s' \<and> ses_phase s' = ses_phase s \<and>
      ctl_ok X K n False lf (ses_controller s', w')) t"
    obtain s1 w1 where t1: "t = (s1, w1)" by (cases t)
    have ok1: "ctl_ok X K n False lf (ses_controller s1, w1)" using t t1 by simp
    show "wp (andthen (ses_ctl (ctl_commit_attempt X)) (\<lambda>_. ok None))
      (\<lambda>r (s', w'). r = None \<and> ses_frame s s' \<and> ses_phase s' = ses_phase s \<and> n < ctl_max K \<and>
         (\<exists>lf. ctl_ok X K (Suc n) True lf (ses_controller s', w')))
      (\<lambda>e (s', w'). ses_frame s s' \<and> error_ok (ctl_max K) e) t"
      using t t1
      by (simp, intro wp_mono [OF ctl_commit_attempt_wp [OF ok1]])
        (auto simp: ses_frame_def intro: ended)
  qed
qed

lemma ses_admit_wp:
  assumes inv: "ses_inv X K n (s, w)" and phase: "ses_phase s \<noteq> SessionActive" "ses_phase s \<noteq> SessionFinished"
  shows "wp (ses_admit X (ses_phase s))
    (\<lambda>r (s', w'). ses_frame s s' \<and> ses_phase s' = ses_phase s \<and>
       (case r of
          None \<Rightarrow> n < ctl_max K \<and> (\<exists>lf. ctl_ok X K (Suc n) True lf (ses_controller s', w'))
        | Some due \<Rightarrow> ses_phase s = SessionWaiting due \<and> ses_inv X K n (s', w')))
    (\<lambda>e (s', w'). ses_frame s s' \<and> error_ok (ctl_max K) e) (s, w)"
    (is "wp _ ?Q ?E _")
proof (cases "ses_phase s")
  case SessionReady
  then have idle: "flow_idle X K n (ses_controller s, w)" using inv by (auto simp: ses_inv_def)
  show ?thesis
    unfolding SessionReady ses_admit_def session_phase.case
    by (rule wp_mono [OF ses_before_and_commit_wp [OF idle]]) (auto simp: SessionReady)
next
  case (SessionWaiting due)
  then have idle: "flow_idle X K n (ses_controller s, w)" and n: "0 < n" "n < ctl_max K"
    using inv by (simp_all add: ses_inv_def)
  then obtain lf where ok: "ctl_ok X K n False lf (ses_controller s, w)" and lf: "lf = None \<longleftrightarrow> n = 0"
    by (auto simp: flow_idle_def)
  have ended: "error_ok (ctl_max K) e" if "ctl_ends X K n lf e t" for e t
    using ctl_ends_error_ok [OF that] lf by simp
  have admit: "wp (ses_before_and_commit X) ?Q ?E (s\<lparr>ses_controller := fc\<rparr>, w1)"
    if "ctl_ok X K n False lf (fc, w1)" for fc w1
  proof -
    have "flow_idle X K n (ses_controller (s\<lparr>ses_controller := fc\<rparr>), w1)"
      using that lf by (auto simp: flow_idle_def)
    from ses_before_and_commit_wp [OF this] show ?thesis
      by (rule wp_mono) (auto simp: ses_frame_def)
  qed
  have waiting: "ses_inv X K n (s\<lparr>ses_controller := fc\<rparr>, w1)" if "ctl_ok X K n False lf (fc, w1)" for fc w1
    using that lf n SessionWaiting by (auto simp: ses_inv_def flow_idle_def)
  have continue: "wp (if ready then ses_before_and_commit X else ok (Some due)) ?Q ?E
      (s\<lparr>ses_controller := fc\<rparr>, w1)" if "ctl_ok X K n False lf (fc, w1)" for ready fc w1
  proof (cases ready)
    case False
    then show ?thesis using waiting [OF that] SessionWaiting by (simp add: ses_frame_def)
  qed (simp only: if_True admit [OF that])
  have refused: "?E e (s\<lparr>ses_controller := fc\<rparr>, w1)" if "ctl_ends X K n lf e (fc, w1)" for e fc w1
    using ended [OF that] by (simp add: ses_frame_def)
  have unfold: "ses_admit X (ses_phase s) =
      andthen (ses_ctl (\<lambda>clock cancellation. ctl_check_backoff_ready X clock cancellation due))
        (\<lambda>ready. if ready then ses_before_and_commit X else ok (Some due))"
    by (simp add: ses_admit_def SessionWaiting)
  have "wp (ctl_check_backoff_ready X (timer_clock (ses_timer s)) (flag_of (ses_cancellation_token s)) due)
      (\<lambda>ready (fc, w'). wp (if ready then ses_before_and_commit X else ok (Some due)) ?Q ?E
         (s\<lparr>ses_controller := fc\<rparr>, w'))
      (\<lambda>e (fc, w'). ?E e (s\<lparr>ses_controller := fc\<rparr>, w')) (ses_controller s, w)"
  proof (rule wp_mono [OF ctl_check_backoff_ready_wp [OF ok]])
    fix ready t assume "ctl_ok X K n False lf t \<and>
      (ready \<longleftrightarrow> nanos_at X due \<le> nanos_at X (bs_sampled_at (fs_budget (fc_state (fst t))))) \<and>
      instant_domain X due = instant_domain X (bs_sampled_at (fs_budget (fc_state (fst t))))"
    then show "(\<lambda>(fc, w'). wp (if ready then ses_before_and_commit X else ok (Some due)) ?Q ?E
        (s\<lparr>ses_controller := fc\<rparr>, w')) t"
      using continue by (cases t) blast
  next
    fix e t assume "ctl_ends X K n lf e t"
    then show "(\<lambda>(fc, w'). ?E e (s\<lparr>ses_controller := fc\<rparr>, w')) t"
      using refused by (cases t) blast
  qed
  then show ?thesis unfolding unfold wp_andthen [of "ses_ctl _"] wp_ses_ctl prod.case .
qed (use phase in simp_all)

lemma session_begin_attempt_wp:
  fixes s :: "('i, 'x, 'b, 'f, 'c, 'w, 'e) retry_session"
  assumes inv: "ses_inv X K n (s, w)" and phase: "ses_phase s \<noteq> SessionActive" "ses_phase s \<noteq> SessionFinished"
  shows "wp (session_begin_attempt X)
    (\<lambda>admission (s', w'). ses_frame s s' \<and>
       (case admission of
          Admitted ordinal \<Rightarrow> unat (nz_get ordinal) = Suc n \<and> n < ctl_max K \<and>
            ses_phase s' = SessionActive \<and> ses_inv X K (Suc n) (s', w')
        | AdmissionWaiting due \<Rightarrow> ses_phase s = SessionWaiting due \<and> ses_phase s' = ses_phase s \<and>
            ses_inv X K n (s', w')))
    (\<lambda>e (s', w'). ses_frame s s' \<and> ses_phase s' = SessionFinished \<and> ses_inv X K n (s', w') \<and>
       error_ok (ctl_max K) e) (s, w)"
    (is "wp _ ?Q ?E _")
proof -
  have cap: "n \<le> ctl_max K"
    using inv flow_idle_cap phase by (cases "ses_phase s") (auto simp: ses_inv_def)
  have admitted: "wp (andthen (ses_set_phase SessionActive) (\<lambda>_.
       andthen (ses_ctl (\<lambda>clock cancellation. ctl_attempts X)) (\<lambda>attempts.
       andthen (expect (nz_new attempts)) (\<lambda>ordinal. ok (Admitted ordinal))))) ?Q ?E (s', w')"
    if frame: "ses_frame s s'" and n: "n < ctl_max K" and "ctl_ok X K (Suc n) True lf (ses_controller s', w')"
    for s' w' lf
    using frame n that(3)
    by (simp, intro wp_only [OF ctl_attempts_wp [OF that(3)]])
      (auto simp: nz_new_def ses_frame_def ses_inv_def split: option.split)
  have refused: "wp (andthen (ses_set_phase SessionFinished) (\<lambda>_.
       andthen (ses_complete (Inl e :: ('i session_admission, 'e) retry_result)) (\<lambda>completed.
       case completed of
         Inl e \<Rightarrow> fail e
       | Inr success \<Rightarrow> ok (into_value_discarding_diagnostics success)))) ?Q ?E (s', w')"
    if "ses_frame s s'" "error_ok (ctl_max K) e" for s' w' e
  proof -
    obtain r w'' where r: "config_complete (ses_config s') (Inl e :: ('i session_admission, 'e) retry_result) w' = (r, w'')"
      by fastforce
    have "result_ok (ctl_max K) (fst (r, w''))"
      unfolding r [symmetric] config_complete_ok using that(2) by (simp add: result_ok_def)
    then have "result_ok (ctl_max K) r" by simp
    moreover have "\<exists>e. r = Inl e" using r by (auto simp: config_complete_def split: prod.splits)
    ultimately show ?thesis
      using r that(1) cap by (auto simp: result_ok_def ses_frame_def ses_inv_def)
  qed
  have assertion: "case ses_phase s of SessionReady \<Rightarrow> True | SessionWaiting _ \<Rightarrow> True | _ \<Rightarrow> False"
    using phase by (cases "ses_phase s") simp_all
  have branches: "wp (case r of
       Inr (Some due) \<Rightarrow> ok (AdmissionWaiting due)
     | Inr None \<Rightarrow>
         andthen (ses_set_phase SessionActive) (\<lambda>_.
         andthen (ses_ctl (\<lambda>clock cancellation. ctl_attempts X)) (\<lambda>attempts.
         andthen (expect (nz_new attempts)) (\<lambda>ordinal. ok (Admitted ordinal))))
     | Inl error \<Rightarrow>
         andthen (ses_set_phase SessionFinished) (\<lambda>_.
         andthen (ses_complete (Inl error :: ('i session_admission, 'e) retry_result)) (\<lambda>completed.
         case completed of
           Inl e \<Rightarrow> fail e
         | Inr success \<Rightarrow> ok (into_value_discarding_diagnostics success)))) ?Q ?E (s', w')"
    if "case r of
       Inr r \<Rightarrow> ses_frame s s' \<and> ses_phase s' = ses_phase s \<and>
         (case r of
            None \<Rightarrow> n < ctl_max K \<and> (\<exists>lf. ctl_ok X K (Suc n) True lf (ses_controller s', w'))
          | Some due \<Rightarrow> ses_phase s = SessionWaiting due \<and> ses_inv X K n (s', w'))
     | Inl e \<Rightarrow> ses_frame s s' \<and> error_ok (ctl_max K) e" for r s' w'
    using that
    by (cases r; cases "projr r") (auto intro: admitted refused simp del: wp_andthen)
  show ?thesis
    unfolding session_begin_attempt_def wp_andthen [of "ses_get ses_phase"] wp_ses_get prod.case
      wp_andthen [of "check _"] wp_check wp_andthen [of "attempt _"] wp_attempt
    by (intro conjI assertion wp_mono [OF ses_admit_wp [OF inv phase]]; clarify)
      (rule branches, simp)+
qed

lemma session_finish_wp:
  assumes terminal: "result_ok (ctl_max K) terminal" and "n \<le> ctl_max K"
  shows "wp (session_finish terminal)
    (\<lambda>step (s', w'). ses_frame s s' \<and> ses_phase s' = SessionFinished \<and> ses_inv X K n (s', w') \<and>
       (case step of
          StepComplete success \<Rightarrow> success_ok (ctl_max K) success \<and>
            (\<exists>t. terminal = Inr t \<and> suc_value success = suc_value t)
        | StepRetryAt due \<Rightarrow> False
        | StepFailed e \<Rightarrow> error_ok (ctl_max K) e \<and> (\<exists>e. terminal = Inl e)))
    (\<lambda>_ _. False) (s, w)"
proof -
  obtain r w' where r: "config_complete (ses_config s) terminal w = (r, w')" by fastforce
  have "result_ok (ctl_max K) (fst (r, w'))"
    unfolding r [symmetric] config_complete_ok by (rule terminal)
  moreover have "(\<exists>t t'. terminal = Inr t \<and> r = Inr t' \<and> suc_value t' = suc_value t) \<or>
      (\<exists>e e'. terminal = Inl e \<and> r = Inl e')"
    using r by (auto simp: config_complete_def success_set_completion_callback_failures_def
        split: prod.splits sum.splits)
  ultimately show ?thesis
    using r assms(2) by (auto simp: session_finish_def ses_frame_def ses_inv_def result_ok_def)
qed

lemma session_record_result_wp:
  fixes s :: "('i, 'x, 'b, 'f, 'c, 'w, 'e) retry_session" and result :: "'e + 't"
  assumes inv: "ses_inv X K n (s, w)" and phase: "ses_phase s = SessionActive"
  shows "wp (session_record_result X result)
    (\<lambda>step (s', w'). ses_frame s s' \<and> ses_inv X K n (s', w') \<and>
       (case step of
          StepComplete success \<Rightarrow> ses_phase s' = SessionFinished \<and> success_ok (ctl_max K) success \<and>
            result = Inr (suc_value success)
        | StepRetryAt due \<Rightarrow> ses_phase s' = SessionWaiting due \<and> (\<exists>e. result = Inl e)
        | StepFailed e \<Rightarrow> ses_phase s' = SessionFinished \<and> error_ok (ctl_max K) e))
    (\<lambda>_ _. False) (s, w)"
    (is "wp _ ?Q ?E _")
proof -
  obtain lf where ok: "ctl_ok X K n True lf (ses_controller s, w)" and n: "0 < n"
    using inv phase by (auto simp: ses_inv_def)
  have cap: "n \<le> ctl_max K" by (rule ctl_ok_le [OF ok])
  have ended: "error_ok (ctl_max K) e" if "ctl_ends X K n lf' e t" for e t lf'
    using ctl_ends_error_ok [OF that] n by simp
  have finish: "wp (session_finish terminal) ?Q ?E (s', w')"
    if "ses_frame s s'" "result_ok (ctl_max K) terminal"
      "\<And>t. terminal = Inr t \<Longrightarrow> result = Inr (suc_value t)" for terminal s' w'
    by (rule wp_only [OF session_finish_wp [OF that(2) cap, of s' w']])
      (use that(1,3) in \<open>auto simp: ses_frame_def split: session_step.splits\<close>)
  have failed: "wp (session_finish (Inl e)) ?Q ?E (s\<lparr>ses_controller := fc\<rparr>, w')"
    if "ctl_ends X K n lf' e t" for e lf' t fc w'
    by (rule finish) (use ended [OF that] in \<open>simp_all add: ses_frame_def result_ok_def\<close>)
  have body: "wp (case result of
       Inr v \<Rightarrow>
         andthen (attempt (ses_ctl (\<lambda>clock cancellation. ctl_finish_success X clock))) (\<lambda>r.
         session_finish (map_right (retry_success_new v) r))
     | Inl error \<Rightarrow>
         andthen (attempt (ses_ctl (ctl_record_failure X (FailError error)))) (\<lambda>r.
         case r of
           Inr plan \<Rightarrow>
             andthen (ses_set_phase (SessionWaiting (bop_deadline plan))) (\<lambda>_.
             ok (StepRetryAt (bop_deadline plan)))
         | Inl e \<Rightarrow> session_finish (Inl e))) ?Q ?E (s, w)"
  proof (cases result)
    case (Inr v)
    have "wp (ctl_finish_success X clock)
      (\<lambda>context (fc, w'). wp (session_finish (Inr (retry_success_new v context))) ?Q ?E
         (s\<lparr>ses_controller := fc\<rparr>, w'))
      (\<lambda>e (fc, w'). wp (session_finish (Inl e)) ?Q ?E (s\<lparr>ses_controller := fc\<rparr>, w'))
      (ses_controller s, w)" for clock
    proof (rule wp_mono [OF ctl_finish_success_wp [OF ok]], clarify, goal_cases)
      case (1 c fc w')
      show ?case
        by (rule finish) (use 1 cap n Inr in
          \<open>auto simp: ses_frame_def result_ok_def success_ok_def retry_success_new_def\<close>)
    next
      case (2 e t)
      from failed [OF this] show ?case by (simp only: split_beta)
    qed
    then show ?thesis
      unfolding Inr sum.case wp_andthen wp_attempt wp_ses_ctl prod.case map_right_simps .
  next
    case (Inl error)
    have "wp (ctl_record_failure X (FailError error) clock cancellation)
      (\<lambda>plan (fc, w'). ?Q (StepRetryAt (bop_deadline plan))
         (s\<lparr>ses_controller := fc, ses_phase := SessionWaiting (bop_deadline plan)\<rparr>, w'))
      (\<lambda>e (fc, w'). wp (session_finish (Inl e)) ?Q ?E (s\<lparr>ses_controller := fc\<rparr>, w'))
      (ses_controller s, w)" for clock cancellation
    proof (rule wp_mono [OF ctl_record_failure_wp [OF ok]], clarify, goal_cases)
      case (1 plan fc w')
      then show ?case using n Inl by (auto simp: ses_frame_def ses_inv_def flow_idle_def)
    next
      case (2 e t)
      from failed [OF this] show ?case by (simp only: split_beta)
    qed
    then show ?thesis
      unfolding Inl sum.case wp_andthen wp_attempt wp_ses_ctl wp_ses_set_phase wp_ok prod.case
      by simp
  qed
  then show ?thesis
    using phase by (simp add: session_record_result_def)
qed

end

section \<open>Histories\<close>

text \<open>What the owner of a session sees of its calls.  A call that panics gives no event.\<close>

datatype ('t, 'e, 'i) session_event =
    EvAdmission "'i session_admission"
  | EvRefused "'e retry_error"
  | EvStep "('t, 'e, 'i) session_step"

inductive session_run ::
  "('i, 'd, 'x, 'b, 'w) deps \<Rightarrow> ('i, 'x, 'b, 'f, 'c, 'w, 'e) retry_session \<times> 'w
     \<Rightarrow> ('t, 'e, 'i) session_event list \<Rightarrow> ('i, 'x, 'b, 'f, 'c, 'w, 'e) retry_session \<times> 'w \<Rightarrow> bool"
  for X s0
where
  run_start: "session_run X s0 [] s0"
| run_elapse: "session_run X s0 evs (s, w) \<Longrightarrow> session_run X s0 evs (s, w')"
| run_admission: "session_run X s0 evs (s, w) \<Longrightarrow>
    session_begin_attempt X (s, w) = Some (Inr admission, s') \<Longrightarrow>
    session_run X s0 (evs @ [EvAdmission admission]) s'"
| run_refused: "session_run X s0 evs (s, w) \<Longrightarrow>
    session_begin_attempt X (s, w) = Some (Inl e, s') \<Longrightarrow>
    session_run X s0 (evs @ [EvRefused e]) s'"
| run_step: "session_run X s0 evs (s, w) \<Longrightarrow>
    session_record_result X result (s, w) = Some (Inr step :: unit + _, s') \<Longrightarrow>
    session_run X s0 (evs @ [EvStep step]) s'"

fun event_ordinal :: "('t, 'e, 'i) session_event \<Rightarrow> nat list" where
  "event_ordinal (EvAdmission (Admitted k)) = [unat (nz_get k)]"
| "event_ordinal _ = []"

definition ordinals :: "('t, 'e, 'i) session_event list \<Rightarrow> nat list" where
  "ordinals evs = concat (map event_ordinal evs)"

fun event_recorded :: "('t, 'e, 'i) session_event \<Rightarrow> bool" where
  "event_recorded (EvStep _) = True"
| "event_recorded _ = False"

fun event_terminal :: "('t, 'e, 'i) session_event \<Rightarrow> bool" where
  "event_terminal (EvRefused _) = True"
| "event_terminal (EvStep (StepComplete _)) = True"
| "event_terminal (EvStep (StepFailed _)) = True"
| "event_terminal _ = False"

lemma ordinals_simps [simp]:
  "ordinals [] = []"
  "ordinals (evs @ [ev]) = ordinals evs @ event_ordinal ev"
  by (simp_all add: ordinals_def)

lemma session_wrong_phase:
  "ses_phase s = SessionActive \<or> ses_phase s = SessionFinished \<Longrightarrow> session_begin_attempt X (s, w) = None"
  "ses_phase s \<noteq> SessionActive \<Longrightarrow> session_record_result X result (s, w) = None"
  by (cases "ses_phase s"; simp add: session_begin_attempt_def session_record_result_def ses_get_def
      prog_defs)+

text \<open>The history of a session in a given phase, after \<open>n\<close> admissions.\<close>

definition history_ok ::
  "nat \<Rightarrow> 'i session_phase \<Rightarrow> ('t, 'e, 'i) session_event list \<Rightarrow> bool"
where
  "history_ok n phase evs \<longleftrightarrow>
     ordinals evs = [1..<Suc n] \<and>
     (phase \<noteq> SessionFinished \<longrightarrow>
        length (filter event_recorded evs) = (if phase = SessionActive then n - 1 else n)) \<and>
     (phase = SessionFinished \<longrightarrow> evs \<noteq> [] \<and> event_terminal (last evs)) \<and>
     (\<forall>ev \<in> set (if phase = SessionFinished then butlast evs else evs). \<not> event_terminal ev)"

context deps_laws
begin

lemma session_run_inv:
  assumes "session_run X (s0, w0) evs s" and "ses_inv X K 0 (s0, w0)" and "ses_phase s0 = SessionReady"
  shows "\<exists>n. ses_inv X K n s \<and> history_ok n (ses_phase (fst s)) evs"
  using assms(1)
proof (induction rule: session_run.induct)
  case run_start
  then show ?case
    using assms(2,3) by (intro exI [of _ 0]) (simp add: history_ok_def)
next
  case (run_elapse evs s w w')
  then show ?case using ses_inv_world by fastforce
next
  case (run_admission evs s w admission s')
  then obtain n where n: "ses_inv X K n (s, w)" "history_ok n (ses_phase s) evs" by auto
  have phase: "ses_phase s \<noteq> SessionActive" "ses_phase s \<noteq> SessionFinished"
    using run_admission(2) session_wrong_phase(1) by (metis option.distinct(1))+
  have "(\<lambda>(s', w'). ses_frame s s' \<and>
       (case admission of
          Admitted ordinal \<Rightarrow> unat (nz_get ordinal) = Suc n \<and> n < ctl_max K \<and>
            ses_phase s' = SessionActive \<and> ses_inv X K (Suc n) (s', w')
        | AdmissionWaiting due \<Rightarrow> ses_phase s = SessionWaiting due \<and> ses_phase s' = ses_phase s \<and>
            ses_inv X K n (s', w'))) s'"
    by (rule wp_returnD [OF session_begin_attempt_wp [OF n(1) phase] run_admission(2)])
  then show ?case
    using n(2) phase by (cases s'; cases admission) (auto simp: history_ok_def)
next
  case (run_refused evs s w e s')
  then obtain n where n: "ses_inv X K n (s, w)" "history_ok n (ses_phase s) evs" by auto
  have phase: "ses_phase s \<noteq> SessionActive" "ses_phase s \<noteq> SessionFinished"
    using run_refused(2) session_wrong_phase(1) by (metis option.distinct(1))+
  have "(\<lambda>(s', w'). ses_frame s s' \<and> ses_phase s' = SessionFinished \<and> ses_inv X K n (s', w') \<and>
       error_ok (ctl_max K) e) s'"
    by (rule wp_errorD [OF session_begin_attempt_wp [OF n(1) phase] run_refused(2)])
  then show ?case
    using n(2) phase by (cases s') (auto simp: history_ok_def)
next
  case (run_step evs s w result step s')
  then obtain n where n: "ses_inv X K n (s, w)" "history_ok n (ses_phase s) evs" by auto
  have phase: "ses_phase s = SessionActive"
    using run_step(2) session_wrong_phase(2) by (metis option.distinct(1))
  then have "0 < n" using n(1) by (simp add: ses_inv_def)
  have "(\<lambda>(s', w'). ses_frame s s' \<and> ses_inv X K n (s', w') \<and>
       (case step of
          StepComplete success \<Rightarrow> ses_phase s' = SessionFinished \<and> success_ok (ctl_max K) success \<and>
            result = Inr (suc_value success)
        | StepRetryAt due \<Rightarrow> ses_phase s' = SessionWaiting due \<and> (\<exists>e. result = Inl e)
        | StepFailed e \<Rightarrow> ses_phase s' = SessionFinished \<and> error_ok (ctl_max K) e)) s'"
    by (rule wp_returnD [OF session_record_result_wp [OF n(1) phase] run_step(2)])
  then show ?case
    using n(2) phase \<open>0 < n\<close> by (cases s'; cases step) (auto simp: history_ok_def)
qed

end

lemma ses_inv_new:
  assumes "deps_laws X" and "session_new_inner X config T random w = (s, w')"
  shows "ses_inv X (ses_controller s) 0 (s, w')" and "ses_phase s = SessionReady"
    and "ctl_max (ses_controller s) = config_cap config"
  using assms deps_laws.flow_idle_new [OF assms(1) refl] deps_laws.ctl_max_new [OF assms(1)]
  by (auto simp: session_new_inner_def ses_inv_def config_cap_def split: prod.splits)

section \<open>Properties\<close>


text \<open>
  C23. \<open>record_result\<close> on an active session never panics and never fails, and beginning
  another attempt meanwhile always panics.  A success finishes the session with the value
  it was given; an error leaves it waiting for an announced instant, with an attempt left,
  or finishes it with a coherent error.
\<close>

theorem session_record_contract:
  assumes "deps_laws X" and "ses_inv X K n (s, w)" and "ses_phase s = SessionActive"
  shows "wp (session_record_result X result)
      (\<lambda>step (s', w'). ses_frame s s' \<and> ses_inv X K n (s', w') \<and>
         (case step of
            StepComplete success \<Rightarrow> ses_phase s' = SessionFinished \<and> success_ok (ctl_max K) success \<and>
              result = Inr (suc_value success)
          | StepRetryAt due \<Rightarrow> ses_phase s' = SessionWaiting due \<and> (\<exists>e. result = Inl e)
          | StepFailed e \<Rightarrow> ses_phase s' = SessionFinished \<and> error_ok (ctl_max K) e))
      (\<lambda>_ _. False) (s, w) \<and>
    session_begin_attempt X (s, w) = None"
  by (intro conjI deps_laws.session_record_result_wp [OF assms] session_wrong_phase(1))
    (simp add: assms(3))


text \<open>A session in the simulated world.\<close>

definition sim_session ::
  "(nat \<times> duration, string, u32 \<times> u32, nat \<times> duration, cancelled_future, sim_world, string) retry_session \<times> sim_world"
where
  "sim_session = session_new_inner manual_deps
     (config_new (policy_new (admission_limits_new (Abs_nonzero_u32 3) None None)
        (backoff_fixed (of_nanos 5))) FallbackRetry [] []) sim_timer None sim_start"

lemma sim_session_inv:
  "ses_inv manual_deps (ses_controller (fst sim_session)) 0 sim_session"
  "ses_phase (fst sim_session) = SessionReady"
  using ses_inv_new [OF manual.deps_laws_axioms, of _ sim_timer None sim_start]
  unfolding sim_session_def by (metis prod.collapse)+


lemma session_record_contract_witness:
  "\<exists>s :: (_, _, _, nat \<times> duration, cancelled_future, sim_world, string) retry_session \<times> sim_world.
    ses_phase (fst s) = SessionActive \<and>
    (session_record_result manual_deps (Inr (5 :: nat)) s :: ((unit + _) \<times> _) option) \<noteq> None \<and>
    session_begin_attempt manual_deps s = None \<and> snd s = snd sim_session"
proof -
  obtain s w where s: "sim_session = (s, w)" by fastforce
  let ?K = "ses_controller s"
  have ready: "ses_inv manual_deps ?K 0 (s, w)" "ses_phase s = SessionReady"
    using sim_session_inv unfolding s by simp_all
  have "ctl_max (ses_controller (fst sim_session)) = 3"
    by (simp add: sim_session_def ses_inv_new(3) [OF manual.deps_laws_axioms prod.collapse [symmetric]]
        config_cap_def config_new_def policy_new_def admission_limits_new_def)
  then have "0 < ctl_max ?K" by (simp add: s)
  moreover obtain lf where "ctl_ok manual_deps ?K 0 False lf (?K, w)"
    using ready by (auto simp: ses_inv_def flow_idle_def)
  ultimately obtain fs where "ctl_ok manual_deps ?K (Suc 0) True lf (?K\<lparr>fc_state := fs\<rparr>, w)"
    using manual.ctl_ok_activate [of ?K 0 lf ?K w] by auto
  then have inv: "ses_inv manual_deps ?K 1
      (s\<lparr>ses_controller := ?K\<lparr>fc_state := fs\<rparr>, ses_phase := SessionActive\<rparr>, w)" (is "ses_inv _ _ _ (?s, w)")
    by (auto simp: ses_inv_def)
  have active: "ses_phase ?s = SessionActive" by simp
  note contract = session_record_contract [OF manual.deps_laws_axioms inv active]
  have "(session_record_result manual_deps (Inr (5 :: nat)) (?s, w) :: ((unit + _) \<times> _) option) \<noteq> None"
    by (rule wp_no_panic [OF conjunct1 [OF contract]])
  moreover have "session_begin_attempt manual_deps (?s, w) = None" by (rule conjunct2 [OF contract])
  moreover have "snd sim_session = w" unfolding s by simp
  ultimately show ?thesis using active by (intro exI [of _ "(?s, w)"]) simp
qed


end
