(* ===== verification/Async_Retry.thy ===== *)
theory Async_Retry
  imports Rounds
begin

text \<open>
  The asynchronous facade (src/src/executor/async_retry.rs and
  src/src/executor/internal/tokio/).  An \<open>.await\<close> is a loop of polls; after a pending poll the
  task is suspended and the runtime does what it likes with the world (\<open>suspend\<close>, which
  gives nothing back when the task is never polled again).  An operation is a future of
  the caller: its creation and its polls are steps of the world and may unwind.
\<close>

section \<open>Outcomes\<close>

datatype ('t, 'e, 'x) async_attempt_outcome =
    AsyncCompleted "'e + 't"
  | AsyncTimedOut retry_timeout_scope
  | AsyncCancelled
  | AsyncTimerFailed 'x

datatype 'x async_backoff_outcome =
    AsyncBackoffElapsed
  | AsyncBackoffCancelled
  | AsyncBackoffTimerFailed 'x

text \<open>An operation's future: a poll is pending, ready with a result, or an unwinding.\<close>

datatype ('e, 't) operation_poll =
    OpPending
  | OpReady "'e + 't"
  | OpUnwind

section \<open>One attempt\<close>

text \<open>
  \<open>execute_attempt\<close> polls the operation first, then the cancellation, then the timer, each
  where there is one; the state holds the three futures.
\<close>

type_synonym ('o, 'c, 'f, 'w) attempt_futures = "'o \<times> 'c option \<times> 'f option \<times> 'w"

definition attempt_poll_operation ::
  "('o \<Rightarrow> 'w \<Rightarrow> ('e, 't) operation_poll \<times> 'o \<times> 'w)
     \<Rightarrow> (('o, 'c, 'f, 'w) attempt_futures, unit, ('e + 't) option) prog"
where
  "attempt_poll_operation op_poll = (\<lambda>(future, c, f, w).
     case op_poll future w of
       (OpPending, future', w') \<Rightarrow> Some (Inr None, future', c, f, w')
     | (OpReady r, future', w') \<Rightarrow> Some (Inr (Some r), future', c, f, w')
     | (OpUnwind, future', w') \<Rightarrow> Some (Inl (), future', c, f, w'))"

definition attempt_poll_cancellation ::
  "('c, 'w) token option \<Rightarrow> (('o, 'c, 'f, 'w) attempt_futures, 'y, bool) prog"
where
  "attempt_poll_cancellation cancellation = (\<lambda>(future, c, f, w).
     case poll_cancellation cancellation (f, c, w) of
       None \<Rightarrow> None
     | Some (r, f', c', w') \<Rightarrow> Some (r, future, c', f', w'))"

definition attempt_poll_timer ::
  "('i, 'x, 'f, 'w) timer
     \<Rightarrow> (('o, 'c, 'f, 'w) attempt_futures, 'y, ('x + unit) option) prog"
where
  "attempt_poll_timer T = (\<lambda>(future, c, f, w).
     case f of
       None \<Rightarrow> Some (Inr None, future, c, f, w)
     | Some timer_future \<Rightarrow>
         (case timer_poll T timer_future w of
            (r, timer_future', w') \<Rightarrow> Some (Inr r, future, c, Some timer_future', w')))"

definition attempt_suspend ::
  "('w \<Rightarrow> 'w option) \<Rightarrow> (('o, 'c, 'f, 'w) attempt_futures, 'y, unit) prog"
where
  "attempt_suspend suspend = (\<lambda>(future, c, f, w).
     case suspend w of None \<Rightarrow> None | Some w' \<Rightarrow> Some (Inr (), future, c, f, w'))"

definition attempt_pass ::
  "('i, 'x, 'f, 'w) timer \<Rightarrow> ('w \<Rightarrow> 'w option) \<Rightarrow> ('c, 'w) token option
     \<Rightarrow> ('o \<Rightarrow> 'w \<Rightarrow> ('e, 't) operation_poll \<times> 'o \<times> 'w) \<Rightarrow> retry_timeout_scope option
     \<Rightarrow> (('o, 'c, 'f, 'w) attempt_futures, unit, ('t, 'e, 'x) async_attempt_outcome option) prog"
where
  "attempt_pass T suspend cancellation op_poll timeout_scope =
     andthen (attempt_poll_operation op_poll) (\<lambda>r.
     case r of
       Some result \<Rightarrow> ok (Some (AsyncCompleted result))
     | None \<Rightarrow>
         andthen (attempt_poll_cancellation cancellation) (\<lambda>cancelled.
         if cancelled then ok (Some AsyncCancelled)
         else
           andthen (attempt_poll_timer T) (\<lambda>r.
           case r of
             Some (Inr _) \<Rightarrow>
               andthen (expect timeout_scope) (\<lambda>scope.
               ok (Some (AsyncTimedOut scope)))
           | Some (Inl error) \<Rightarrow> ok (Some (AsyncTimerFailed error))
           | None \<Rightarrow> andthen (attempt_suspend suspend) (\<lambda>_. ok None))))"

text \<open>
  The call: a registered timeout without its scope is a panic on entry; the cancellation
  future is made on entry and dropped on return, also when the operation unwinds.
\<close>

definition execute_attempt ::
  "('i, 'x, 'f, 'w) timer \<Rightarrow> ('w \<Rightarrow> 'w option) \<Rightarrow> 'f option \<Rightarrow> retry_timeout_scope option
     \<Rightarrow> ('c, 'w) token option \<Rightarrow> ('o \<Rightarrow> 'w \<Rightarrow> ('e, 't) operation_poll \<times> 'o \<times> 'w) \<Rightarrow> 'o
     \<Rightarrow> ('w, unit, ('t, 'e, 'x) async_attempt_outcome) prog"
where
  "execute_attempt T suspend timeout_future timeout_scope cancellation op_poll operation = (\<lambda>w.
     if timeout_future \<noteq> None \<and> timeout_scope = None then None
     else
       (case loops (attempt_pass T suspend cancellation op_poll timeout_scope)
             (operation, map_option token_cancelled cancellation, timeout_future, w) of
          None \<Rightarrow> None
        | Some (r, _, c, _, w') \<Rightarrow>
            (case drop_cancellation cancellation c w' of
               None \<Rightarrow> None
             | Some w'' \<Rightarrow> Some (r, w''))))"

section \<open>The backoff\<close>

text \<open>\<open>yield_once\<close>: the first poll wakes its own task and is pending, the second is ready.\<close>

definition yield_pass :: "('w \<Rightarrow> 'w option) \<Rightarrow> (bool \<times> 'w, 'y, unit option) prog" where
  "yield_pass suspend = (\<lambda>(yielded, w).
     if yielded then Some (Inr (Some ()), yielded, w)
     else (case suspend w of None \<Rightarrow> None | Some w' \<Rightarrow> Some (Inr None, True, w')))"

definition yield_once :: "('w \<Rightarrow> 'w option) \<Rightarrow> ('w, 'y, unit) prog" where
  "yield_once suspend = (\<lambda>w.
     case loops (yield_pass suspend) (False, w) of
       None \<Rightarrow> None
     | Some (r, _, w') \<Rightarrow> Some (r, w'))"

definition sleep_outcome :: "'x blocking_backoff_outcome \<Rightarrow> 'x async_backoff_outcome" where
  "sleep_outcome r = (case r of
     BackoffElapsed \<Rightarrow> AsyncBackoffElapsed
   | BackoffCancelled \<Rightarrow> AsyncBackoffCancelled
   | BackoffTimerFailed e \<Rightarrow> AsyncBackoffTimerFailed e)"

text \<open>
  \<open>sleep\<close>: its poll loop visits the cancellation and then the timer, as the blocking wait
  does, with a suspended task in the place of a parked thread.
\<close>

definition sleep ::
  "('i, 'x, 'f, 'w) timer \<Rightarrow> ('w \<Rightarrow> 'w option) \<Rightarrow> 'i \<Rightarrow> bool \<Rightarrow> ('c, 'w) token option
     \<Rightarrow> ('w, 'y, 'x async_backoff_outcome) prog"
where
  "sleep T suspend deadline immediate cancellation =
     andthen (world_step (opt_is_cancelled cancellation)) (\<lambda>cancelled.
     if cancelled then ok AsyncBackoffCancelled
     else if immediate then
       andthen (yield_once suspend) (\<lambda>_.
       andthen (world_step (opt_is_cancelled cancellation)) (\<lambda>cancelled.
       ok (if cancelled then AsyncBackoffCancelled else AsyncBackoffElapsed)))
     else
       andthen (world_step (timer_at T deadline)) (\<lambda>r.
       case r of
         Inr future \<Rightarrow>
           andthen (with_futures cancellation future (loops (wait_pass T suspend cancellation)))
             (\<lambda>outcome. ok (sleep_outcome outcome))
       | Inl e \<Rightarrow>
           andthen (world_step (opt_is_cancelled cancellation)) (\<lambda>cancelled.
           ok (if cancelled then AsyncBackoffCancelled else AsyncBackoffTimerFailed e))))"

section \<open>The facade\<close>

record ('e, 'i, 'x, 'f, 'c, 'w) async_retry =
  art_config :: "('e, 'w) retry_config"
  art_attempt_timeout :: "duration option"
  art_flow_timeout :: "duration option"
  art_cancellation_token :: "('c, 'w) token option"
  art_timer :: "('i, 'x, 'f, 'w) timer option"
  art_random_source :: "'w random_source option"

definition async_new :: "('e, 'w) retry_config \<Rightarrow> ('e, 'i, 'x, 'f, 'c, 'w) async_retry" where
  "async_new config =
     \<lparr>art_config = config, art_attempt_timeout = None, art_flow_timeout = None,
      art_cancellation_token = None, art_timer = None, art_random_source = None\<rparr>"

definition async_hard_attempt_timeout ::
  "duration \<Rightarrow> ('e, 'i, 'x, 'f, 'c, 'w) async_retry \<Rightarrow> ('e, 'i, 'x, 'f, 'c, 'w) async_retry"
where
  "async_hard_attempt_timeout timeout r = r\<lparr>art_attempt_timeout := Some timeout\<rparr>"

definition async_hard_flow_timeout ::
  "duration \<Rightarrow> ('e, 'i, 'x, 'f, 'c, 'w) async_retry \<Rightarrow> ('e, 'i, 'x, 'f, 'c, 'w) async_retry"
where
  "async_hard_flow_timeout timeout r = r\<lparr>art_flow_timeout := Some timeout\<rparr>"

definition async_set_cancellation_token ::
  "('c, 'w) token \<Rightarrow> ('e, 'i, 'x, 'f, 'c, 'w) async_retry \<Rightarrow> ('e, 'i, 'x, 'f, 'c, 'w) async_retry"
where
  "async_set_cancellation_token tok r = r\<lparr>art_cancellation_token := Some tok\<rparr>"

definition async_set_timer ::
  "('i, 'x, 'f, 'w) timer \<Rightarrow> ('e, 'i, 'x, 'f, 'c, 'w) async_retry \<Rightarrow> ('e, 'i, 'x, 'f, 'c, 'w) async_retry"
where
  "async_set_timer T r = r\<lparr>art_timer := Some T\<rparr>"

definition async_set_random_source ::
  "'w random_source \<Rightarrow> ('e, 'i, 'x, 'f, 'c, 'w) async_retry \<Rightarrow> ('e, 'i, 'x, 'f, 'c, 'w) async_retry"
where
  "async_set_random_source random r = r\<lparr>art_random_source := Some random\<rparr>"

section \<open>Runs\<close>

definition async_back_off ::
  "('i, 'd, 'x, 'b, 'w) deps \<Rightarrow> ('i, 'x, 'f, 'w) timer \<Rightarrow> ('w \<Rightarrow> 'w option)
     \<Rightarrow> ('c, 'w) token option \<Rightarrow> 'i prepared_backoff_plan
     \<Rightarrow> ('i, 'b, 'w, 'e, 'e retry_error, unit) ctl"
where
  "async_back_off X T suspend cancellation directive =
     andthen (ctl_world (sleep T suspend (bop_deadline directive) (bop_immediate directive) cancellation))
       (\<lambda>outcome.
     case outcome of
       AsyncBackoffElapsed \<Rightarrow> ok ()
     | AsyncBackoffCancelled \<Rightarrow> return_err (ctl_record_backoff_cancellation X (timer_clock T))
     | AsyncBackoffTimerFailed error \<Rightarrow> ctl_timer_failed X T error)"

text \<open>A recorded failure and the sleep after it.\<close>

definition async_retry_later ::
  "('i, 'd, 'x, 'b, 'w) deps \<Rightarrow> ('i, 'x, 'f, 'w) timer \<Rightarrow> ('w \<Rightarrow> 'w option)
     \<Rightarrow> ('c, 'w) token option \<Rightarrow> 'e attempt_failure
     \<Rightarrow> ('i, 'b, 'w, 'e, 'e retry_error stop, 't retry_success option) ctl"
where
  "async_retry_later X T suspend cancellation failure =
     andthen (checked (ctl_record_failure X failure (timer_clock T) (flag_of cancellation)))
       (\<lambda>directive.
     andthen (checked (async_back_off X T suspend cancellation directive)) (\<lambda>_.
     ok None))"

definition async_outcome ::
  "('i, 'd, 'x, 'b, 'w) deps \<Rightarrow> ('i, 'x, 'f, 'w) timer \<Rightarrow> ('w \<Rightarrow> 'w option)
     \<Rightarrow> ('c, 'w) token option \<Rightarrow> ('t, 'e, 'x) async_attempt_outcome
     \<Rightarrow> ('i, 'b, 'w, 'e, 'e retry_error stop, 't retry_success option) ctl"
where
  "async_outcome X T suspend cancellation outcome =
     (case outcome of
        AsyncCompleted (Inr v) \<Rightarrow> ctl_succeed X (timer_clock T) v
      | AsyncCompleted (Inl error) \<Rightarrow> async_retry_later X T suspend cancellation (FailError error)
      | AsyncTimedOut scope \<Rightarrow> async_retry_later X T suspend cancellation (FailTimedOut scope)
      | AsyncCancelled \<Rightarrow> checked (return_err (ctl_record_attempt_cancellation X (timer_clock T)))
      | AsyncTimerFailed error \<Rightarrow> checked (ctl_timer_failed_active X T error))"

text \<open>The announcement, preparation and commit of a timed attempt; its ordinal and plan.\<close>

definition async_admit ::
  "('i, 'd, 'x, 'b, 'w) deps \<Rightarrow> ('i, 'x, 'f, 'w) timer \<Rightarrow> ('c, 'w) token option
     \<Rightarrow> ('i, 'b, 'w, 'e, 'e retry_error, nonzero_u32 \<times> 'i prepared_attempt_plan \<times> 'f option) ctl"
where
  "async_admit X T cancellation =
     andthen (ctl_before_attempt X (timer_clock T) (flag_of cancellation)) (\<lambda>admission_sample.
     andthen (ctl_prepare_attempt X admission_sample) (\<lambda>plan.
     andthen (ctl_world (world_step (register_timeout T (plan_deadline plan)))) (\<lambda>r.
     case r of
       Inl error \<Rightarrow> ctl_timer_failed X T error
     | Inr timeout_future \<Rightarrow>
         andthen (ctl_commit_prepared_attempt X plan (timer_clock T) (flag_of cancellation)) (\<lambda>_.
         andthen (ctl_attempts X) (\<lambda>attempts.
         andthen (expect (nz_new attempts)) (\<lambda>ordinal.
         ok (ordinal, plan, timeout_future)))))))"

text \<open>\<open>operation\<close> makes the future of an attempt, \<open>op_poll\<close> polls it.\<close>

definition async_round ::
  "('i, 'd, 'x, 'b, 'w) deps \<Rightarrow> ('i, 'x, 'f, 'w) timer \<Rightarrow> ('w \<Rightarrow> 'w option)
     \<Rightarrow> ('c, 'w) token option \<Rightarrow> (nonzero_u32 \<Rightarrow> 'w \<Rightarrow> 'o option \<times> 'w)
     \<Rightarrow> ('o \<Rightarrow> 'w \<Rightarrow> ('e, 't) operation_poll \<times> 'o \<times> 'w)
     \<Rightarrow> ('i, 'b, 'w, 'e, 'e retry_error stop, 't retry_success option) ctl"
where
  "async_round X T suspend cancellation operation op_poll =
     andthen (checked (async_admit X T cancellation)) (\<lambda>(ordinal, plan, timeout_future).
     andthen (ctl_operation (operation ordinal)) (\<lambda>future.
     andthen (map_err (\<lambda>_. StopUnwind) (ctl_world (execute_attempt T suspend timeout_future
         (plan_scope plan) cancellation op_poll future))) (\<lambda>outcome.
     async_outcome X T suspend cancellation outcome)))"

definition async_run_inner ::
  "('i, 'd, 'x, 'b, 'w) deps \<Rightarrow> ('w \<Rightarrow> 'w option) \<Rightarrow> ('e, 'i, 'x, 'f, 'c, 'w) async_retry
     \<Rightarrow> ('i, 'x, 'f, 'w) timer \<Rightarrow> (nonzero_u32 \<Rightarrow> 'w \<Rightarrow> 'o option \<times> 'w)
     \<Rightarrow> ('o \<Rightarrow> 'w \<Rightarrow> ('e, 't) operation_poll \<times> 'o \<times> 'w)
     \<Rightarrow> ('w, 'e retry_error stop, 't retry_success) prog"
where
  "async_run_inner X suspend r default_timer operation op_poll =
     (let T = chosen_timer default_timer (art_timer r)
      in run_flow X T (art_config r) (art_random_source r) (art_attempt_timeout r) (art_flow_timeout r)
           (async_round X T suspend (art_cancellation_token r) operation op_poll))"

definition async_run_with_default_timer ::
  "('i, 'd, 'x, 'b, 'w) deps \<Rightarrow> ('w \<Rightarrow> 'w option) \<Rightarrow> ('e, 'i, 'x, 'f, 'c, 'w) async_retry
     \<Rightarrow> ('i, 'x, 'f, 'w) timer \<Rightarrow> (nonzero_u32 \<Rightarrow> 'w \<Rightarrow> 'o option \<times> 'w)
     \<Rightarrow> ('o \<Rightarrow> 'w \<Rightarrow> ('e, 't) operation_poll \<times> 'o \<times> 'w)
     \<Rightarrow> ('w, unit, ('t, 'e) retry_result) prog"
where
  "async_run_with_default_timer X suspend r default_timer operation op_poll =
     complete_run (art_config r) (async_run_inner X suspend r default_timer operation op_poll)"

text \<open>The public entry points; \<open>std_timer\<close> is the timer used when none was configured.\<close>

definition async_run_with_attempt ::
  "('i, 'd, 'x, 'b, 'w) deps \<Rightarrow> ('w \<Rightarrow> 'w option) \<Rightarrow> ('i, 'x, 'f, 'w) timer
     \<Rightarrow> ('e, 'i, 'x, 'f, 'c, 'w) async_retry \<Rightarrow> (nonzero_u32 \<Rightarrow> 'w \<Rightarrow> 'o option \<times> 'w)
     \<Rightarrow> ('o \<Rightarrow> 'w \<Rightarrow> ('e, 't) operation_poll \<times> 'o \<times> 'w)
     \<Rightarrow> ('w, unit, ('t, 'e) retry_result) prog"
where
  "async_run_with_attempt X suspend std_timer r operation op_poll =
     async_run_with_default_timer X suspend r std_timer operation op_poll"

definition async_run ::
  "('i, 'd, 'x, 'b, 'w) deps \<Rightarrow> ('w \<Rightarrow> 'w option) \<Rightarrow> ('i, 'x, 'f, 'w) timer
     \<Rightarrow> ('e, 'i, 'x, 'f, 'c, 'w) async_retry \<Rightarrow> ('w \<Rightarrow> 'o option \<times> 'w)
     \<Rightarrow> ('o \<Rightarrow> 'w \<Rightarrow> ('e, 't) operation_poll \<times> 'o \<times> 'w)
     \<Rightarrow> ('w, unit, ('t, 'e) retry_result) prog"
where
  "async_run X suspend std_timer r operation op_poll =
     async_run_with_attempt X suspend std_timer r (\<lambda>_. operation) op_poll"

section \<open>The Tokio facade\<close>

text \<open>
  src/src/executor/tokio_retry.rs: the same flow with the current Tokio runtime's timer as
  its default.
\<close>

record ('e, 'i, 'x, 'f, 'c, 'w) tokio_retry =
  trt_inner :: "('e, 'i, 'x, 'f, 'c, 'w) async_retry"

definition tokio_new :: "('e, 'w) retry_config \<Rightarrow> ('e, 'i, 'x, 'f, 'c, 'w) tokio_retry" where
  "tokio_new config = \<lparr>trt_inner = async_new config\<rparr>"

definition tokio_hard_attempt_timeout ::
  "duration \<Rightarrow> ('e, 'i, 'x, 'f, 'c, 'w) tokio_retry \<Rightarrow> ('e, 'i, 'x, 'f, 'c, 'w) tokio_retry"
where
  "tokio_hard_attempt_timeout timeout r =
     r\<lparr>trt_inner := async_hard_attempt_timeout timeout (trt_inner r)\<rparr>"

definition tokio_hard_flow_timeout ::
  "duration \<Rightarrow> ('e, 'i, 'x, 'f, 'c, 'w) tokio_retry \<Rightarrow> ('e, 'i, 'x, 'f, 'c, 'w) tokio_retry"
where
  "tokio_hard_flow_timeout timeout r =
     r\<lparr>trt_inner := async_hard_flow_timeout timeout (trt_inner r)\<rparr>"

definition tokio_set_cancellation_token ::
  "('c, 'w) token \<Rightarrow> ('e, 'i, 'x, 'f, 'c, 'w) tokio_retry \<Rightarrow> ('e, 'i, 'x, 'f, 'c, 'w) tokio_retry"
where
  "tokio_set_cancellation_token tok r =
     r\<lparr>trt_inner := async_set_cancellation_token tok (trt_inner r)\<rparr>"

definition tokio_set_timer ::
  "('i, 'x, 'f, 'w) timer \<Rightarrow> ('e, 'i, 'x, 'f, 'c, 'w) tokio_retry \<Rightarrow> ('e, 'i, 'x, 'f, 'c, 'w) tokio_retry"
where
  "tokio_set_timer T r = r\<lparr>trt_inner := async_set_timer T (trt_inner r)\<rparr>"

definition tokio_set_random_source ::
  "'w random_source \<Rightarrow> ('e, 'i, 'x, 'f, 'c, 'w) tokio_retry \<Rightarrow> ('e, 'i, 'x, 'f, 'c, 'w) tokio_retry"
where
  "tokio_set_random_source random r = r\<lparr>trt_inner := async_set_random_source random (trt_inner r)\<rparr>"

definition tokio_run_with_attempt ::
  "('i, 'd, 'x, 'b, 'w) deps \<Rightarrow> ('w \<Rightarrow> 'w option) \<Rightarrow> ('i, 'x, 'f, 'w) timer
     \<Rightarrow> ('e, 'i, 'x, 'f, 'c, 'w) tokio_retry \<Rightarrow> (nonzero_u32 \<Rightarrow> 'w \<Rightarrow> 'o option \<times> 'w)
     \<Rightarrow> ('o \<Rightarrow> 'w \<Rightarrow> ('e, 't) operation_poll \<times> 'o \<times> 'w)
     \<Rightarrow> ('w, unit, ('t, 'e) retry_result) prog"
where
  "tokio_run_with_attempt X suspend tokio_timer r operation op_poll =
     async_run_with_default_timer X suspend (trt_inner r) tokio_timer operation op_poll"

definition tokio_run ::
  "('i, 'd, 'x, 'b, 'w) deps \<Rightarrow> ('w \<Rightarrow> 'w option) \<Rightarrow> ('i, 'x, 'f, 'w) timer
     \<Rightarrow> ('e, 'i, 'x, 'f, 'c, 'w) tokio_retry \<Rightarrow> ('w \<Rightarrow> 'o option \<times> 'w)
     \<Rightarrow> ('o \<Rightarrow> 'w \<Rightarrow> ('e, 't) operation_poll \<times> 'o \<times> 'w)
     \<Rightarrow> ('w, unit, ('t, 'e) retry_result) prog"
where
  "tokio_run X suspend tokio_timer r operation op_poll =
     tokio_run_with_attempt X suspend tokio_timer r (\<lambda>_. operation) op_poll"

end
