(* ===== verification/Async_Laws.thy ===== *)
theory Async_Laws
  imports Async_Retry
begin

text \<open>
  The asynchronous flow ends.  What it needs beyond the laws of the waits is that the
  runtime goes on polling: a suspended task is polled again, and an attempt is pending
  only finitely often (\<open>rank\<close> bounds how often; a timed attempt has such a bound by its timer,
  an untimed one by its operation).
\<close>

section \<open>Preconditions\<close>

lemma wp_attempt_poll_operation:
  "wp (attempt_poll_operation op_poll) Q E = (\<lambda>(future, c, f, w). case op_poll future w of
     (OpPending, future', w') \<Rightarrow> Q None (future', c, f, w')
   | (OpReady r, future', w') \<Rightarrow> Q (Some r) (future', c, f, w')
   | (OpUnwind, future', w') \<Rightarrow> E () (future', c, f, w'))"
  by (auto simp: wp_def attempt_poll_operation_def fun_eq_iff split: prod.split operation_poll.split)

lemma wp_attempt_poll_cancellation:
  "wp (attempt_poll_cancellation cancellation) Q E = (\<lambda>(future, c, f, w).
     wp (poll_cancellation cancellation) (\<lambda>r (f', c', w'). Q r (future, c', f', w'))
       (\<lambda>e (f', c', w'). E e (future, c', f', w')) (f, c, w))"
  by (auto simp: wp_def attempt_poll_cancellation_def fun_eq_iff split: option.split sum.split)

lemma wp_attempt_poll_timer:
  "wp (attempt_poll_timer T) Q E = (\<lambda>(future, c, f, w). case f of
     None \<Rightarrow> Q None (future, c, None, w)
   | Some timer_future \<Rightarrow> (case timer_poll T timer_future w of
       (r, timer_future', w') \<Rightarrow> Q r (future, c, Some timer_future', w')))"
  by (auto simp: wp_def attempt_poll_timer_def fun_eq_iff split: option.split prod.split)

lemma wp_attempt_suspend:
  "wp (attempt_suspend suspend) Q E = (\<lambda>(future, c, f, w). case suspend w of
     None \<Rightarrow> False | Some w' \<Rightarrow> Q () (future, c, f, w'))"
  by (auto simp: wp_def attempt_suspend_def fun_eq_iff split: option.split)

lemmas wp_attempt = wp_attempt_poll_operation wp_attempt_poll_cancellation wp_poll_cancellation
  wp_attempt_poll_timer wp_attempt_suspend

section \<open>The contract\<close>

locale async_flow = deps_laws X + wait_laws T suspend pend target due cancellation cancelled
  for X :: "('i, 'd, 'x, 'b, 'w) deps" and T :: "('i, 'x, 'f, 'w) timer" and suspend pend target due
    and cancellation :: "('c, 'w) token option" and cancelled +
  fixes operation :: "nonzero_u32 \<Rightarrow> 'w \<Rightarrow> 'o option \<times> 'w"
    and op_poll :: "'o \<Rightarrow> 'w \<Rightarrow> ('e, 't) operation_poll \<times> 'o \<times> 'w"
    and rank :: "('o, 'c, 'f, 'w) attempt_futures \<Rightarrow> nat"
  assumes suspend_returns: "suspend w \<noteq> None"
    and attempt_progress:
      "attempt_pass T suspend cancellation op_poll timeout_scope s = Some (Inr None, s') \<Longrightarrow>
       rank s' < rank s"
begin

lemma poll_cancellation_wp:
  assumes "c = None \<longleftrightarrow> cancellation = None"
  shows "wp (poll_cancellation cancellation)
    (\<lambda>r (f', c', w'). f' = f \<and> (c' = None \<longleftrightarrow> cancellation = None) \<and>
       (r \<longrightarrow> cancellation \<noteq> None \<and> cancelled w')) E (f, c, w)"
proof (cases cancellation)
  case None
  then show ?thesis using assms by (simp add: wp_poll_cancellation)
next
  case (Some tok)
  then obtain fut where c: "c = Some fut" using assms by auto
  obtain r fut' w1 where "token_poll tok fut w = Some (r, fut', w1)" "r = cancelled w1"
    using token_laws.poll_exact [OF token [OF Some], of fut w] by blast
  then show ?thesis using Some c by (simp add: wp_poll_cancellation)
qed

text \<open>What the outcome of an attempt tells.\<close>

lemma attempt_pass_wp:
  assumes "c = None \<longleftrightarrow> cancellation = None" and "f \<noteq> None \<longrightarrow> timeout_scope \<noteq> None"
  shows "wp (attempt_pass T suspend cancellation op_poll timeout_scope)
    (\<lambda>r (future', c', f', w'). (c' = None \<longleftrightarrow> cancellation = None) \<and> (f' = None \<longleftrightarrow> f = None) \<and>
       (case r of None \<Rightarrow> True
        | Some r \<Rightarrow> (r = AsyncCancelled \<longrightarrow> cancellation \<noteq> None \<and> cancelled w') \<and>
            (\<forall>scope. r = AsyncTimedOut scope \<longrightarrow> timeout_scope = Some scope \<and> f \<noteq> None)))
    (\<lambda>_ (future', c', f', w'). c' = None \<longleftrightarrow> cancellation = None) (future, c, f, w)"
    (is "wp _ ?Q ?E _")
proof -
  define resumed where "resumed w = the (suspend w)" for w
  have resumed: "suspend w = Some (resumed w)" for w
    using suspend_returns [of w] by (simp add: resumed_def)
  have timer: "wp (andthen (attempt_poll_timer T) (\<lambda>r.
       case r of
         Some (Inr _) \<Rightarrow> andthen (expect timeout_scope) (\<lambda>scope. ok (Some (AsyncTimedOut scope)))
       | Some (Inl error) \<Rightarrow> ok (Some (AsyncTimerFailed error))
       | None \<Rightarrow> andthen (attempt_suspend suspend) (\<lambda>_. ok None))) ?Q ?E (future', c', f, w')"
    if "c' = None \<longleftrightarrow> cancellation = None" for future' c' w'
    using that assms(2) by (auto simp: wp_attempt resumed split: option.split sum.split prod.split)
  have cancellation: "wp (andthen (attempt_poll_cancellation cancellation) (\<lambda>cancelled.
       if cancelled then ok (Some AsyncCancelled)
       else andthen (attempt_poll_timer T) (\<lambda>r.
         case r of
           Some (Inr _) \<Rightarrow> andthen (expect timeout_scope) (\<lambda>scope. ok (Some (AsyncTimedOut scope)))
         | Some (Inl error) \<Rightarrow> ok (Some (AsyncTimerFailed error))
         | None \<Rightarrow> andthen (attempt_suspend suspend) (\<lambda>_. ok None)))) ?Q ?E (future', c, f, w')" for future' w'
    unfolding wp_andthen [of "attempt_poll_cancellation cancellation"] wp_attempt_poll_cancellation prod.case
  proof (rule wp_only [OF poll_cancellation_wp [OF assms(1)]], clarify, goal_cases)
    case (1 r f' c' w2)
    show ?case
    proof (cases r)
      case True
      then show ?thesis using 1 by auto
    next
      case False
      show ?thesis by (subst if_not_P [OF False], rule timer) (use 1 in blast)
    qed
  qed
  show ?thesis
    unfolding attempt_pass_def wp_andthen [of "attempt_poll_operation op_poll"] wp_attempt_poll_operation
      prod.case
    using assms(1) cancellation
    by (cases "op_poll future w") (auto simp del: wp_andthen split: operation_poll.split)
qed

lemma execute_attempt_wp:
  assumes "timeout_future \<noteq> None \<longrightarrow> timeout_scope \<noteq> None"
  shows "wp (execute_attempt T suspend timeout_future timeout_scope cancellation op_poll future)
    (\<lambda>r w'. (r = AsyncCancelled \<longrightarrow> cancellation \<noteq> None \<and> cancelled w') \<and>
       (\<forall>scope. r = AsyncTimedOut scope \<longrightarrow> timeout_scope = Some scope \<and> timeout_future \<noteq> None))
    (\<lambda>_ _. True) w"
proof -
  let ?I = "\<lambda>(future :: 'o, c :: 'c option, f :: 'f option, w :: 'w).
    (c = None \<longleftrightarrow> cancellation = None) \<and> (f = None \<longleftrightarrow> timeout_future = None)"
  let ?Q = "\<lambda>r (future :: 'o, c :: 'c option, f :: 'f option, w :: 'w). (c = None \<longleftrightarrow> cancellation = None) \<and>
     (r = AsyncCancelled \<longrightarrow> cancellation \<noteq> None \<and> cancelled w) \<and>
     (\<forall>scope. r = AsyncTimedOut scope \<longrightarrow> timeout_scope = Some scope \<and> timeout_future \<noteq> None)"
  have loop: "wp (loops (attempt_pass T suspend cancellation op_poll timeout_scope)) ?Q
      (\<lambda>_ (future, c, f, w). c = None \<longleftrightarrow> cancellation = None)
      (future, map_option token_cancelled cancellation, timeout_future, w)"
  proof (rule wp_loops [where I = ?I and m = rank])
    fix s assume I: "?I s"
    obtain future c f w where s: "s = (future, c, f, w)" by (cases s)
    have f: "f \<noteq> None \<longrightarrow> timeout_scope \<noteq> None" and c: "c = None \<longleftrightarrow> cancellation = None"
      using assms I s by auto
    obtain r s' where run: "attempt_pass T suspend cancellation op_poll timeout_scope s = Some (r, s')"
      using wp_no_panic [OF attempt_pass_wp [OF c f, of future w]] s by fastforce
    have pass: "wp (attempt_pass T suspend cancellation op_poll timeout_scope)
        (\<lambda>r s'. r = None \<longrightarrow> rank s' < rank s) (\<lambda>_ _. True) s"
      using run attempt_progress [of timeout_scope s s'] by (cases r) (auto simp: wp_def)
    show "wp (attempt_pass T suspend cancellation op_poll timeout_scope)
        (\<lambda>r s'. case r of None \<Rightarrow> ?I s' \<and> rank s' < rank s | Some a \<Rightarrow> ?Q a s')
        (\<lambda>_ (future, c, f, w). c = None \<longleftrightarrow> cancellation = None) s"
      by (rule wp_mono [OF wp_conj [OF attempt_pass_wp [OF c f, of future w, folded s] pass]])
        (use I s in \<open>auto split: option.splits\<close>)
  qed simp
  obtain r future' c' f' w' where
    run: "loops (attempt_pass T suspend cancellation op_poll timeout_scope)
      (future, map_option token_cancelled cancellation, timeout_future, w) =
      Some (r, future', c', f', w')"
    using wp_no_panic [OF loop] by auto
  have c': "c' = None \<longleftrightarrow> cancellation = None"
    using loop run by (auto simp: wp_def split: sum.splits)
  obtain w'' where drop: "drop_cancellation cancellation c' w' = Some w''"
      "cancellation \<noteq> None \<and> cancelled w' \<longrightarrow> cancelled w''"
    using dropped [OF c'] by blast
  show ?thesis
    using assms loop drop by (auto simp: wp_def execute_attempt_def run split: sum.splits)
qed

lemma yield_once_wp: "wp (yield_once suspend) (\<lambda>_ _. True) (\<lambda>_ _. False) w"
proof -
  obtain w' where "suspend w = Some w'" using suspend_returns [of w] by auto
  then show ?thesis
    by (simp add: wp_def yield_once_def yield_pass_def loops.simps)
qed

lemma sleep_wp:
  "wp (sleep T suspend deadline immediate cancellation)
    (\<lambda>r w'. (r = AsyncBackoffCancelled \<longrightarrow> cancellation \<noteq> None \<and> cancelled w') \<and>
       (cancellation \<noteq> None \<and> cancelled w \<longrightarrow> r = AsyncBackoffCancelled) \<and>
       (r = AsyncBackoffElapsed \<and> \<not> immediate \<longrightarrow> due deadline w')) (\<lambda>_ _. False) w"
    (is "wp _ ?Q _ _")
  unfolding sleep_def wp_andthen [of "world_step (opt_is_cancelled cancellation)"]
proof (rule flag_wp)
  fix b w'
  assume b: "b \<longrightarrow> cancellation \<noteq> None \<and> cancelled w'" "cancellation \<noteq> None \<and> cancelled w \<longrightarrow> b"
  have flag: "wp (andthen (world_step (opt_is_cancelled cancellation)) (\<lambda>cancelled.
       ok (if cancelled then AsyncBackoffCancelled else r))) ?Q (\<lambda>_ _. False) u"
    if "\<not> b" "r \<noteq> AsyncBackoffCancelled" "immediate \<or> r \<noteq> AsyncBackoffElapsed" for r u
    unfolding wp_andthen by (rule flag_wp) (use b that in auto)
  have immediate: "wp (andthen (yield_once suspend) (\<lambda>_.
       andthen (world_step (opt_is_cancelled cancellation)) (\<lambda>cancelled.
       ok (if cancelled then AsyncBackoffCancelled else AsyncBackoffElapsed)))) ?Q (\<lambda>_ _. False) w'"
    if "\<not> b" immediate
    unfolding wp_andthen [of "yield_once suspend"]
    by (rule wp_only [OF yield_once_wp], rule flag) (use that in simp_all)
  have timed: "wp (andthen (with_futures cancellation future (loops (wait_pass T suspend cancellation)))
       (\<lambda>outcome. ok (sleep_outcome outcome))) ?Q (\<lambda>_ _. False) u"
    if "\<not> b" "target future = deadline" for future u
    unfolding wp_andthen wp_ok
    by (rule wp_only [OF wait_loop_wp])
      (use that b(2) in \<open>auto simp: sleep_outcome_def split: blocking_backoff_outcome.splits\<close>)
  show "wp (if b then ok AsyncBackoffCancelled
     else if immediate then
       andthen (yield_once suspend) (\<lambda>_.
       andthen (world_step (opt_is_cancelled cancellation)) (\<lambda>cancelled.
       ok (if cancelled then AsyncBackoffCancelled else AsyncBackoffElapsed)))
     else
       andthen (world_step (timer_at T deadline)) (\<lambda>r.
       case r of
         Inr future \<Rightarrow>
           andthen (with_futures cancellation future (loops (wait_pass T suspend cancellation)))
             (\<lambda>outcome. ok (sleep_outcome outcome))
       | Inl e \<Rightarrow>
           andthen (world_step (opt_is_cancelled cancellation)) (\<lambda>cancelled.
           ok (if cancelled then AsyncBackoffCancelled else AsyncBackoffTimerFailed e))))
     ?Q (\<lambda>_ _. False) w'"
  proof (cases b)
    case True
    then show ?thesis using b by auto
  next
    case False
    show ?thesis
    proof (cases immediate)
      case True
      show ?thesis
        by (subst if_not_P [OF False], subst if_P [OF True]) (rule immediate [OF False True])
    next
      case no: False
      obtain r u where r: "timer_at T deadline w' = (r, u)" by fastforce
      show ?thesis
      proof (cases r)
        case (Inl e)
        have "wp (andthen (world_step (opt_is_cancelled cancellation)) (\<lambda>cancelled.
           ok (if cancelled then AsyncBackoffCancelled else AsyncBackoffTimerFailed e))) ?Q
           (\<lambda>_ _. False) u"
          by (rule flag) (use False in simp_all)
        then show ?thesis
          using False no Inl r
          by (simp only: if_False wp_andthen [of "world_step (timer_at T deadline)"] wp_world_step
              fst_conv snd_conv sum.case)
      next
        case (Inr future)
        then have "target future = deadline" using at_target r by blast
        from timed [OF False this, of u] show ?thesis
          using False no Inr r
          by (simp only: if_False wp_andthen [of "world_step (timer_at T deadline)"] wp_world_step
              fst_conv snd_conv sum.case)
      qed
    qed
  qed
qed

lemma async_back_off_wp:
  assumes "ctl_ok X K n b lf s"
  shows "wp (async_back_off X T suspend cancellation directive)
    (\<lambda>_. ctl_ok X K n b lf) (ctl_ends X K n lf) s"
proof (cases s)
  case (Pair fc w)
  have outcome: "wp (case outcome of
       AsyncBackoffElapsed \<Rightarrow> ok ()
     | AsyncBackoffCancelled \<Rightarrow> return_err (ctl_record_backoff_cancellation X (timer_clock T))
     | AsyncBackoffTimerFailed error \<Rightarrow> ctl_timer_failed X T error)
    (\<lambda>_. ctl_ok X K n b lf) (ctl_ends X K n lf) (fc, w')" for outcome w'
    using ctl_ok_world [of X K n b lf fc w w'] assms Pair
    by (cases outcome) (simp_all add: ctl_record_backoff_cancellation_wp ctl_timer_failed_wp(1))
  show ?thesis
    unfolding async_back_off_def wp_andthen [of "ctl_world _"] wp_ctl_world Pair prod.case
    by (rule wp_only [OF sleep_wp]) (rule outcome)
qed

lemma async_retry_later_wp:
  assumes "ctl_ok X K (Suc n) True lf s"
  shows "wp (async_retry_later X T suspend cancellation failure) (round_post X K n) (round_stop K) s"
  unfolding async_retry_later_def
proof (rule wp_seq)
  show "wp (checked (ctl_record_failure X failure (timer_clock T) (flag_of cancellation)))
      (\<lambda>_. ctl_ok X K (Suc n) False (Some failure)) (round_stop K) s"
    unfolding wp_checked
    by (rule wp_mono [OF ctl_record_failure_wp [OF assms]]) (auto dest: ended_stop)
next
  fix directive t
  assume t: "ctl_ok X K (Suc n) False (Some failure) t"
  show "wp (andthen (checked (async_back_off X T suspend cancellation directive)) (\<lambda>_. ok None))
      (round_post X K n) (round_stop K) t"
    unfolding wp_andthen wp_checked
    by (rule wp_mono [OF async_back_off_wp [OF t]])
      (auto simp: round_post_def flow_idle_def dest: ended_stop)
qed

lemma async_outcome_wp:
  assumes "ctl_ok X K (Suc n) True lf s"
  shows "wp (async_outcome X T suspend cancellation outcome) (round_post X K n) (round_stop K) s"
proof (cases outcome)
  case (AsyncCompleted r)
  then show ?thesis
    using ctl_succeed_wp [OF assms] async_retry_later_wp [OF assms]
    by (cases r) (simp_all add: async_outcome_def)
next
  case (AsyncTimedOut scope)
  then show ?thesis using async_retry_later_wp [OF assms] by (simp add: async_outcome_def)
next
  case AsyncCancelled
  then show ?thesis
    unfolding async_outcome_def async_attempt_outcome.case wp_checked wp_return_err
    by simp (rule wp_mono [OF ctl_record_attempt_cancellation_wp [OF assms]], auto dest: ended_stop)
next
  case (AsyncTimerFailed e)
  then show ?thesis
    by (simp add: async_outcome_def)
      (rule wp_mono [OF ctl_timer_failed_wp(2) [OF assms]], auto dest: ended_stop)
qed

lemma async_admit_wp:
  assumes ok: "ctl_ok X K n False lf s"
  shows "wp (async_admit X T cancellation)
    (\<lambda>(ordinal, plan, timeout_future) s'. ctl_ok X K (Suc n) True lf s' \<and>
       unat (nz_get ordinal) = Suc n \<and> (timeout_future = None \<longleftrightarrow> plan_deadline plan = None))
    (ctl_ends X K n lf) s"
    (is "wp _ ?Q ?E _")
proof -
  have commit: "wp (andthen (ctl_commit_prepared_attempt X plan (timer_clock T) (flag_of cancellation)) (\<lambda>_.
         andthen (ctl_attempts X) (\<lambda>attempts.
         andthen (expect (nz_new attempts)) (\<lambda>ordinal.
         ok (ordinal, plan, timeout_future))))) ?Q ?E t"
    if t: "ctl_ok X K n False lf t" and future: "timeout_future = None \<longleftrightarrow> plan_deadline plan = None"
    for plan timeout_future t
  proof (rule wp_seq [OF ctl_commit_prepared_attempt_wp [OF t]])
    fix u v
    assume "ctl_ok X K (Suc n) True lf v \<and> n < ctl_max K \<and> within_flow X (fc_state (fst v))"
    then have v: "ctl_ok X K (Suc n) True lf v" by simp
    show "wp (andthen (ctl_attempts X) (\<lambda>attempts.
         andthen (expect (nz_new attempts)) (\<lambda>ordinal. ok (ordinal, plan, timeout_future)))) ?Q ?E v"
      unfolding wp_andthen [of "ctl_attempts X"]
      by (rule wp_only [OF ctl_attempts_wp [OF v]])
        (use v future in \<open>auto simp: nz_new_def split: option.split\<close>)
  qed
  have timer: "wp (andthen (ctl_world (world_step (register_timeout T (plan_deadline plan)))) (\<lambda>r.
     case r of
       Inl error \<Rightarrow> ctl_timer_failed X T error
     | Inr timeout_future \<Rightarrow>
         andthen (ctl_commit_prepared_attempt X plan (timer_clock T) (flag_of cancellation)) (\<lambda>_.
         andthen (ctl_attempts X) (\<lambda>attempts.
         andthen (expect (nz_new attempts)) (\<lambda>ordinal.
         ok (ordinal, plan, timeout_future)))))) ?Q ?E t"
    if t: "ctl_ok X K n False lf t" for plan t
  proof (cases t)
    case (Pair fc w)
    obtain r w' where r: "register_timeout T (plan_deadline plan) w = (r, w')" by fastforce
    have t': "ctl_ok X K n False lf (fc, w')" using t Pair ctl_ok_world [of X K n False lf fc w w'] by simp
    show ?thesis
    proof (cases r)
      case (Inl error)
      then show ?thesis
        using Pair r ctl_timer_failed_wp(1) [OF t']
        by (simp only: wp_andthen [of "ctl_world _"] wp_ctl_world wp_world_step prod.case fst_conv
            snd_conv sum.case)
    next
      case (Inr timeout_future)
      then have "timeout_future = None \<longleftrightarrow> plan_deadline plan = None"
        using r by (auto simp: register_timeout_def map_right_def split: option.splits prod.splits sum.splits)
      from commit [OF t' this] show ?thesis
        using Pair r Inr
        by (simp only: wp_andthen [of "ctl_world _"] wp_ctl_world wp_world_step prod.case fst_conv
            snd_conv sum.case)
    qed
  qed
  show ?thesis
    unfolding async_admit_def
  proof (rule wp_seq [OF ctl_before_attempt_wp [OF ok]])
    fix now t
    assume "ctl_sampled X K n False lf now t \<and> n < ctl_max K \<and> within_flow X (fc_state (fst t)) \<and>
       (\<exists>k. fc_current_attempt (fst t) = Some k \<and> unat (nz_get k) = Suc n)"
    then have t: "ctl_ok X K n False lf t" by (simp add: ctl_sampled_def)
    show "wp (andthen (ctl_prepare_attempt X now) (\<lambda>plan.
       andthen (ctl_world (world_step (register_timeout T (plan_deadline plan)))) (\<lambda>r.
       case r of
         Inl error \<Rightarrow> ctl_timer_failed X T error
       | Inr timeout_future \<Rightarrow>
           andthen (ctl_commit_prepared_attempt X plan (timer_clock T) (flag_of cancellation)) (\<lambda>_.
           andthen (ctl_attempts X) (\<lambda>attempts.
           andthen (expect (nz_new attempts)) (\<lambda>ordinal.
           ok (ordinal, plan, timeout_future))))))) ?Q ?E t"
      by (rule wp_seq [OF ctl_prepare_attempt_wp [OF t]]) (rule timer, simp)
  qed
qed

lemma async_round_wp:
  assumes "flow_idle X K n s"
  shows "wp (async_round X T suspend cancellation operation op_poll) (round_post X K n) (round_stop K) s"
proof -
  obtain lf where ok: "ctl_ok X K n False lf s" and lf: "lf = None \<longleftrightarrow> n = 0"
    using assms by (auto simp: flow_idle_def)
  have execute: "wp (andthen (map_err (\<lambda>_. StopUnwind) (ctl_world (execute_attempt T suspend
         timeout_future (plan_scope plan) cancellation op_poll future))) (\<lambda>outcome.
       async_outcome X T suspend cancellation outcome)) (round_post X K n) (round_stop K) t"
    if t: "ctl_ok X K (Suc n) True lf t" and f: "timeout_future = None \<longleftrightarrow> plan_deadline plan = None"
    for plan timeout_future future t
  proof (cases t)
    case (Pair fc w)
    have scope: "timeout_future \<noteq> None \<longrightarrow> plan_scope plan \<noteq> None"
      using f by (simp add: plan_deadline_def plan_scope_def)
    have "ctl_ok X K (Suc n) True lf (fc, w')" for w'
      using t Pair ctl_ok_world [of X K "Suc n" True lf fc w w'] by simp
    then show ?thesis
      unfolding Pair wp_andthen [of "map_err _ _"] wp_map_err wp_ctl_world prod.case
      by (intro wp_mono [OF execute_attempt_wp [OF scope]] async_outcome_wp) simp_all
  qed
  have operate: "wp (andthen (ctl_operation (operation ordinal)) (\<lambda>future.
       andthen (map_err (\<lambda>_. StopUnwind) (ctl_world (execute_attempt T suspend
         timeout_future (plan_scope plan) cancellation op_poll future))) (\<lambda>outcome.
       async_outcome X T suspend cancellation outcome))) (round_post X K n) (round_stop K) t"
    if t: "ctl_ok X K (Suc n) True lf t" and f: "timeout_future = None \<longleftrightarrow> plan_deadline plan = None"
    for ordinal plan timeout_future t
  proof (cases t)
    case (Pair fc w)
    have "ctl_ok X K (Suc n) True lf (fc, w')" for w'
      using t Pair ctl_ok_world [of X K "Suc n" True lf fc w w'] by simp
    from execute [OF this f] show ?thesis
      unfolding Pair wp_andthen [of "ctl_operation _"] wp_ctl_operation prod.case
      by (auto split: prod.split option.split simp del: wp_andthen)
  qed
  show ?thesis
    unfolding async_round_def
  proof (rule wp_seq)
    show "wp (checked (async_admit X T cancellation))
      (\<lambda>(ordinal, plan, timeout_future) s'. ctl_ok X K (Suc n) True lf s' \<and>
         (timeout_future = None \<longleftrightarrow> plan_deadline plan = None)) (round_stop K) s"
      unfolding wp_checked
      by (rule wp_mono [OF async_admit_wp [OF ok]]) (auto dest: refused_stop [OF _ lf])
  next
    fix admitted :: "nonzero_u32 \<times> 'i prepared_attempt_plan \<times> 'f option" and t
    assume admitted: "(\<lambda>(ordinal, plan, timeout_future) s'. ctl_ok X K (Suc n) True lf s' \<and>
      (timeout_future = None \<longleftrightarrow> plan_deadline plan = None)) admitted t"
    obtain ordinal plan timeout_future where split: "admitted = (ordinal, plan, timeout_future)"
      by (cases admitted)
    show "wp ((\<lambda>(ordinal, plan, timeout_future).
       andthen (ctl_operation (operation ordinal)) (\<lambda>future.
       andthen (map_err (\<lambda>_. StopUnwind) (ctl_world (execute_attempt T suspend
         timeout_future (plan_scope plan) cancellation op_poll future))) (\<lambda>outcome.
       async_outcome X T suspend cancellation outcome))) admitted) (round_post X K n) (round_stop K) t"
      unfolding split prod.case by (rule operate) (use admitted split in simp_all)
  qed
qed

end

sublocale async_flow \<subseteq> flow: rounds "async_round X T suspend cancellation operation op_poll"
  "flow_idle X K" "ctl_max K" "\<lambda>a _. success_ok (ctl_max K) a" "round_stop K" for K
  using async_round_wp flow_idle_cap by unfold_locales (simp_all add: round_post_def [abs_def])

context async_flow
begin

lemma async_loop_ends:
  "flow_idle X K n s \<Longrightarrow> wp (loops (async_round X T suspend cancellation operation op_poll))
     (\<lambda>a _. success_ok (ctl_max K) a) (round_stop K) s"
  by (rule flow.rounds_end)

end

section \<open>The simulated world\<close>

text \<open>
  In the simulated world an attempt is a future that becomes ready at a given time, with an
  error before time 12 and with the time after it; a suspended task is resumed one tick later.
\<close>

definition sim_operation :: "nonzero_u32 \<Rightarrow> sim_world \<Rightarrow> nat option \<times> sim_world" where
  "sim_operation ordinal w = (Some (sim_time w + 2), w)"

definition sim_op_poll :: "nat \<Rightarrow> sim_world \<Rightarrow> (string, nat) operation_poll \<times> nat \<times> sim_world" where
  "sim_op_poll ready w =
     (if sim_time w < ready then OpPending
      else if sim_time w < 12 then OpReady (Inl ''refused'')
      else OpReady (Inr (sim_time w)), ready, w)"

definition sim_rank :: "(nat, cancelled_future, nat \<times> duration, sim_world) attempt_futures \<Rightarrow> nat" where
  "sim_rank = (\<lambda>(ready, _, _, w). ready - sim_time w)"

lemma sim_timer_time: "timer_poll sim_timer f w = (r, f', w') \<Longrightarrow> sim_time w' = sim_time w"
  by (auto simp: sim_timer_def)

lemma sim_poll_cancellation_time:
  "poll_cancellation (Some (sim_token k)) (f, c, w) = Some (r, f', c', w') \<Longrightarrow> sim_time w' = sim_time w"
  by (auto simp: poll_cancellation_def dest: sim_poll_time split: option.splits prod.splits)

lemma sim_attempt_progress:
  assumes "attempt_pass sim_timer sim_park (Some (sim_token k)) sim_op_poll scope s = Some (Inr None, s')"
  shows "sim_rank s' < sim_rank s"
  using assms
  by (cases s) (auto simp: attempt_pass_def attempt_poll_operation_def attempt_poll_cancellation_def
      attempt_poll_timer_def attempt_suspend_def sim_op_poll_def sim_rank_def sim_park_def prog_defs
      split: if_splits option.splits prod.splits sum.splits
      dest!: sim_poll_cancellation_time sim_timer_time)

interpretation sim_async: async_flow manual_deps sim_timer sim_park sim_pend id sim_due
  "Some (sim_token k)" sim_cancelled operation sim_op_poll sim_rank for k operation
  by (intro async_flow.intro async_flow_axioms.intro manual.deps_laws_axioms
      sim_wait.wait_laws_axioms sim_attempt_progress) (simp_all add: sim_park_def)

section \<open>Properties\<close>




text \<open>Three attempts, each with a hard timeout; another thread cancels at time 60.\<close>

definition sim_async_retry ::
  "(string, nat \<times> duration, string, nat \<times> duration, cancelled_future, sim_world) async_retry"
where
  "sim_async_retry = async_set_cancellation_token (sim_token 60) (async_hard_attempt_timeout (of_nanos 9)
     (async_new (config_new (policy_new (admission_limits_new (Abs_nonzero_u32 3) None None)
        (backoff_fixed (of_nanos 5))) FallbackRetry [] [])))"

lemma sim_async_cap: "config_cap (art_config sim_async_retry) = 3"
  by (simp add: config_cap_def sim_async_retry_def async_set_cancellation_token_def
      async_hard_attempt_timeout_def async_new_def config_new_def policy_new_def
      admission_limits_new_def Abs_nonzero_u32_inverse)


end
