(* ===== verification/Worker_Threads.thy ===== *)
theory Worker_Threads
  imports Rounds
begin

text \<open>
  The threads of one worker attempt (src/src/executor/internal/worker/ and
  src/src/executor/attempt_cancellation_token.rs): the worker behind its start gate, the reaper that
  joins it, the event channel both send into, the slot the success value is left in, and the
  attempt's cancellation flag.  The threads other than the caller's move by an inductive step
  relation; the caller's own accesses are functions on the same state.

  The main result is what the caller can conclude from the events it has received
  (\<open>started_inv\<close>): the order of the channel guarantees that a join is received only after a
  result, that a join proves the exit of the worker, and that a success has left its value.
\<close>

section \<open>Events and threads\<close>

datatype 'e worker_event =
    EventCompleted "'e attempt_failure + unit"
  | EventJoined "retry_panic + unit"
  | EventWake

text \<open>
  The worker waits at the gate, calls the operation, sends its result, and exits; the exit
  value is that of its join.
\<close>

datatype 'e worker_phase =
    WorkerGated
  | WorkerRunning
  | WorkerReturned "'e attempt_failure + unit"
  | WorkerSent
  | WorkerExited "panic_payload + unit"

datatype reaper_phase =
    ReaperAbsent
  | ReaperJoining
  | ReaperJoined "retry_panic + unit"
  | ReaperDone

text \<open>
  \<open>ws_slot\<close> is the value slot of \<open>BlockingValueOperation\<close>, which all attempts of a run share;
  \<open>ws_attempt\<close> numbers the spawned workers.
\<close>

record ('v, 'e) worker_system =
  ws_attempt :: nat
  ws_phase :: "'e worker_phase"
  ws_reaper :: reaper_phase
  ws_gate_open :: bool
  ws_caller_sender :: bool
  ws_receiver :: bool
  ws_queue :: "'e worker_event list"
  ws_token :: bool
  ws_slot :: "'v option"

text \<open>\<open>BlockingValueOperation::new\<close>: no worker yet, and no value.\<close>

definition worker_system_new :: "('v, 'e) worker_system" where
  "worker_system_new = \<lparr>ws_attempt = 0, ws_phase = WorkerExited (Inr ()), ws_reaper = ReaperAbsent,
     ws_gate_open = False, ws_caller_sender = False, ws_receiver = False, ws_queue = [],
     ws_token = False, ws_slot = None\<rparr>"

section \<open>What the threads execute\<close>

text \<open>\<open>BlockingAttempt::call\<close> once the operation has returned: store the value, or wrap the error.\<close>

primrec value_operation_call ::
  "'e + 'v \<Rightarrow> 'v option \<Rightarrow> ('e attempt_failure + unit) \<times> 'v option"
where
  "value_operation_call (Inr v) slot = (Inr (), Some v)"
| "value_operation_call (Inl error) slot = (Inl (FailError error), slot)"

text \<open>The boundary of \<open>catch_unwind\<close> around it; \<open>Inl\<close> is an unwinding operation.\<close>

primrec worker_call ::
  "panic_payload + ('e + 'v) \<Rightarrow> 'v option \<Rightarrow> ('e attempt_failure + unit) \<times> 'v option"
where
  "worker_call (Inr result) slot = value_operation_call result slot"
| "worker_call (Inl payload) slot = (Inl (FailPanicked (retry_panic_from_payload payload)), slot)"

text \<open>A send into a channel whose receiver is gone drops the event.\<close>

definition worker_send ::
  "'e worker_event \<Rightarrow> ('v, 'e) worker_system \<Rightarrow> ('v, 'e) worker_system"
where
  "worker_send ev s = (if ws_receiver s then s\<lparr>ws_queue := ws_queue s @ [ev]\<rparr> else s)"

definition join_result :: "panic_payload + unit \<Rightarrow> retry_panic + unit" where
  "join_result r = (case r of Inl payload \<Rightarrow> Inl (retry_panic_from_payload payload) | Inr _ \<Rightarrow> Inr ())"

text \<open>All strong senders are gone: the caller's, the worker's and the reaper's.\<close>

definition worker_disconnected :: "('v, 'e) worker_system \<Rightarrow> bool" where
  "worker_disconnected s \<longleftrightarrow>
     \<not> ws_caller_sender s \<and> (\<exists>r. ws_phase s = WorkerExited r) \<and> ws_reaper s \<in> {ReaperAbsent, ReaperDone}"

text \<open>A registered waker: its weak sender is upgraded while a strong one lives.\<close>

definition worker_wake :: "('v, 'e) worker_system \<Rightarrow> ('v, 'e) worker_system" where
  "worker_wake s = (if worker_disconnected s then s else worker_send EventWake s)"

text \<open>
  One step of another thread.  \<open>outcomes\<close> are the outcomes the operation may have in the
  given attempt.  A worker may also unwind outside the caught call (\<open>worker_unwinds\<close>), and
  any holder of the attempt's token may cancel it.
\<close>

inductive worker_step ::
  "(nat \<Rightarrow> panic_payload + ('e + 'v) \<Rightarrow> bool) \<Rightarrow> ('v, 'e) worker_system \<Rightarrow> ('v, 'e) worker_system \<Rightarrow> bool"
  for outcomes :: "nat \<Rightarrow> panic_payload + ('e + 'v) \<Rightarrow> bool"
where
  gate_closed:
    "ws_phase s = WorkerGated \<Longrightarrow> \<not> ws_gate_open s \<Longrightarrow>
     worker_step outcomes s (s\<lparr>ws_phase := WorkerExited (Inr ())\<rparr>)"
| operation_returns:
    "ws_phase s = WorkerRunning \<Longrightarrow> outcomes (ws_attempt s) outcome \<Longrightarrow>
     worker_call outcome (ws_slot s) = (r, slot) \<Longrightarrow>
     worker_step outcomes s (s\<lparr>ws_phase := WorkerReturned r, ws_slot := slot\<rparr>)"
| worker_completes:
    "ws_phase s = WorkerReturned r \<Longrightarrow>
     worker_step outcomes s (worker_send (EventCompleted r) (s\<lparr>ws_phase := WorkerSent\<rparr>))"
| worker_exits:
    "ws_phase s = WorkerSent \<Longrightarrow> worker_step outcomes s (s\<lparr>ws_phase := WorkerExited (Inr ())\<rparr>)"
| worker_unwinds:
    "ws_phase s \<in> {WorkerRunning, WorkerSent} \<or> (\<exists>r. ws_phase s = WorkerReturned r) \<Longrightarrow>
     worker_step outcomes s (s\<lparr>ws_phase := WorkerExited (Inl payload)\<rparr>)"
| reaper_joins:
    "ws_reaper s = ReaperJoining \<Longrightarrow> ws_phase s = WorkerExited r \<Longrightarrow>
     worker_step outcomes s (s\<lparr>ws_reaper := ReaperJoined (join_result r)\<rparr>)"
| reaper_sends:
    "ws_reaper s = ReaperJoined r \<Longrightarrow>
     worker_step outcomes s (worker_send (EventJoined r) (s\<lparr>ws_reaper := ReaperDone\<rparr>))"
| waker_wakes:
    "worker_step outcomes s (worker_wake s)"
| token_cancelled:
    "worker_step outcomes s (s\<lparr>ws_token := True\<rparr>)"

section \<open>Accesses of the caller\<close>

text \<open>A worker spawned with a fresh channel, gate and token; the slot stays.\<close>

definition worker_spawned :: "('v, 'e) worker_system \<Rightarrow> ('v, 'e) worker_system" where
  "worker_spawned s = \<lparr>ws_attempt = Suc (ws_attempt s), ws_phase = WorkerGated, ws_reaper = ReaperAbsent,
     ws_gate_open = True, ws_caller_sender = True, ws_receiver = True, ws_queue = [],
     ws_token = False, ws_slot = ws_slot s\<rparr>"

definition reaper_spawned :: "('v, 'e) worker_system \<Rightarrow> ('v, 'e) worker_system" where
  "reaper_spawned s = s\<lparr>ws_reaper := ReaperJoining\<rparr>"

text \<open>The rendezvous of \<open>start_sender.send(())\<close>; it fails when the worker has left the gate.\<close>

definition gate_send :: "('v, 'e) worker_system \<Rightarrow> bool \<times> ('v, 'e) worker_system" where
  "gate_send s = (if ws_phase s = WorkerGated then (True, s\<lparr>ws_phase := WorkerRunning\<rparr>) else (False, s))"

definition sender_dropped :: "('v, 'e) worker_system \<Rightarrow> ('v, 'e) worker_system" where
  "sender_dropped s = s\<lparr>ws_caller_sender := False\<rparr>"

text \<open>Leaving the attempt drops both ends the caller still holds.\<close>

definition ends_dropped :: "('v, 'e) worker_system \<Rightarrow> ('v, 'e) worker_system" where
  "ends_dropped s = s\<lparr>ws_gate_open := False, ws_caller_sender := False, ws_receiver := False\<rparr>"

definition event_popped :: "('v, 'e) worker_system \<Rightarrow> ('v, 'e) worker_system" where
  "event_popped s = s\<lparr>ws_queue := tl (ws_queue s)\<rparr>"

definition attempt_token_cancel :: "('v, 'e) worker_system \<Rightarrow> ('v, 'e) worker_system" where
  "attempt_token_cancel s = s\<lparr>ws_token := True\<rparr>"

definition value_taken :: "('v, 'e) worker_system \<Rightarrow> 'v option \<times> ('v, 'e) worker_system" where
  "value_taken s = (ws_slot s, s\<lparr>ws_slot := None\<rparr>)"

section \<open>What the caller has seen\<close>

text \<open>The locals of the waiting loop: the result received, and whether the join was.\<close>

type_synonym 'e seen = "('e attempt_failure + unit) option \<times> bool"

fun see :: "'e worker_event \<Rightarrow> 'e seen \<Rightarrow> 'e seen" where
  "see (EventCompleted r) (completed, joined) = (Some r, joined)"
| "see (EventJoined (Inr _)) (completed, joined) = (completed, True)"
| "see (EventJoined (Inl p)) (completed, joined) = (Some (Inl (FailPanicked p)), True)"
| "see EventWake seen = seen"

text \<open>What it will have seen once the channel is drained.\<close>

abbreviation drained :: "'e seen \<Rightarrow> 'e worker_event list \<Rightarrow> 'e seen" where
  "drained l q \<equiv> fold see q l"

text \<open>A join comes with a result, and a success with a good value; at every point of the queue.\<close>

definition sound_seen :: "bool \<Rightarrow> 'e seen \<Rightarrow> bool" where
  "sound_seen good = (\<lambda>(completed, joined). (joined \<longrightarrow> completed \<noteq> None) \<and> (completed = Some (Inr ()) \<longrightarrow> good))"

fun sound_queue :: "bool \<Rightarrow> 'e seen \<Rightarrow> 'e worker_event list \<Rightarrow> bool" where
  "sound_queue good l [] = sound_seen good l"
| "sound_queue good l (ev # q) = (sound_seen good l \<and> sound_queue good (see ev l) q)"

lemma see_pair [simp]:
  "see (EventCompleted r) l = (Some r, snd l)"
  "see (EventJoined (Inr u)) l = (fst l, True)"
  "see (EventJoined (Inl p)) l = (Some (Inl (FailPanicked p)), True)"
  by (cases l; simp)+

lemma sound_seen_iff:
  "sound_seen good l \<longleftrightarrow> (snd l \<longrightarrow> fst l \<noteq> None) \<and> (fst l = Some (Inr ()) \<longrightarrow> good)"
  by (cases l) (simp add: sound_seen_def)

lemma sound_queue_head: "sound_queue good l q \<Longrightarrow> sound_seen good l"
  by (cases q) simp_all

lemma sound_queue_snoc:
  "sound_queue good l (q @ [ev]) \<longleftrightarrow> sound_queue good l q \<and> sound_seen good (see ev (drained l q))"
  by (induction q arbitrary: l) auto

lemma sound_queue_drained: "sound_queue good l q \<Longrightarrow> sound_seen good (drained l q)"
  by (induction q arbitrary: l) auto

lemma sound_seen_mono: "sound_seen good l \<Longrightarrow> (good \<longrightarrow> good') \<Longrightarrow> sound_seen good' l"
  by (cases l) (auto simp: sound_seen_def)

lemma sound_queue_mono: "sound_queue good l q \<Longrightarrow> (good \<longrightarrow> good') \<Longrightarrow> sound_queue good' l q"
  by (induction q arbitrary: l) (auto intro: sound_seen_mono)

lemma see_joined: "snd l \<Longrightarrow> snd (see ev l)"
  by (cases "(ev, l)" rule: see.cases) auto

lemma drained_joined: "snd l \<Longrightarrow> snd (drained l q)"
  by (induction q arbitrary: l) (simp_all add: see_joined)

lemma see_completed: "fst l \<noteq> None \<Longrightarrow> fst (see ev l) \<noteq> None"
  by (cases "(ev, l)" rule: see.cases) auto

section \<open>The invariant of a started worker\<close>

definition value_ok ::
  "(nat \<Rightarrow> panic_payload + ('e + 'v) \<Rightarrow> bool) \<Rightarrow> ('v, 'e) worker_system \<Rightarrow> bool"
where
  "value_ok outcomes s \<longleftrightarrow> (\<exists>v. ws_slot s = Some v \<and> outcomes (ws_attempt s) (Inr (Inr v)))"

definition started_inv ::
  "(nat \<Rightarrow> panic_payload + ('e + 'v) \<Rightarrow> bool) \<Rightarrow> 'e seen \<Rightarrow> ('v, 'e) worker_system \<Rightarrow> bool"
where
  "started_inv outcomes l s \<longleftrightarrow>
     ws_receiver s \<and> ws_phase s \<noteq> WorkerGated \<and> ws_reaper s \<noteq> ReaperAbsent \<and>
     (ws_reaper s = ReaperJoining \<or> (\<exists>r. ws_phase s = WorkerExited r)) \<and>
     (\<forall>r. ws_reaper s = ReaperJoined (Inr r) \<longrightarrow> ws_phase s = WorkerExited (Inr ())) \<and>
     (ws_phase s \<in> {WorkerSent, WorkerExited (Inr ())} \<longrightarrow> fst (drained l (ws_queue s)) \<noteq> None) \<and>
     (ws_phase s = WorkerReturned (Inr ()) \<longrightarrow> value_ok outcomes s) \<and>
     (snd (drained l (ws_queue s)) \<longleftrightarrow> ws_reaper s = ReaperDone) \<and>
     sound_queue (value_ok outcomes s) l (ws_queue s)"

text \<open>The worker waits behind the gate, nobody has sent a result.\<close>

definition gated_inv :: "nat \<Rightarrow> ('v, 'e) worker_system \<Rightarrow> bool" where
  "gated_inv k s \<longleftrightarrow>
     ws_attempt s = k \<and> ws_phase s = WorkerGated \<and> ws_gate_open s \<and> ws_receiver s \<and>
     ws_reaper s \<in> {ReaperAbsent, ReaperJoining} \<and> set (ws_queue s) \<subseteq> {EventWake} \<and> ws_slot s = None"

text \<open>Between attempts: the worker of the last one is gone, and no value is left.\<close>

definition rest_inv :: "nat \<Rightarrow> ('v, 'e) worker_system \<Rightarrow> bool" where
  "rest_inv k s \<longleftrightarrow> ws_attempt s = k \<and> (\<exists>r. ws_phase s = WorkerExited r) \<and> ws_slot s = None"

lemmas worker_accesses = worker_spawned_def reaper_spawned_def gate_send_def sender_dropped_def
  ends_dropped_def event_popped_def attempt_token_cancel_def value_taken_def

lemma drained_wakes: "set q \<subseteq> {EventWake} \<Longrightarrow> drained l q = l"
  by (induction q) auto

lemma sound_queue_wakes: "set q \<subseteq> {EventWake} \<Longrightarrow> sound_queue good l q = sound_seen good l"
  by (induction q) auto

lemma worker_send_sel [simp]:
  "ws_attempt (worker_send ev s) = ws_attempt s"
  "ws_phase (worker_send ev s) = ws_phase s"
  "ws_reaper (worker_send ev s) = ws_reaper s"
  "ws_gate_open (worker_send ev s) = ws_gate_open s"
  "ws_receiver (worker_send ev s) = ws_receiver s"
  "ws_slot (worker_send ev s) = ws_slot s"
  "ws_receiver s \<Longrightarrow> ws_queue (worker_send ev s) = ws_queue s @ [ev]"
  by (simp_all add: worker_send_def)

lemma worker_wake_sel [simp]:
  "ws_attempt (worker_wake s) = ws_attempt s"
  "ws_phase (worker_wake s) = ws_phase s"
  "ws_reaper (worker_wake s) = ws_reaper s"
  "ws_gate_open (worker_wake s) = ws_gate_open s"
  "ws_receiver (worker_wake s) = ws_receiver s"
  "ws_slot (worker_wake s) = ws_slot s"
  by (simp_all add: worker_wake_def)

lemma worker_call_value:
  "worker_call outcome slot = (r, slot') \<Longrightarrow> outcomes k outcome \<Longrightarrow>
   (r = Inr () \<longrightarrow> (\<exists>v. slot' = Some v \<and> outcomes k (Inr (Inr v)))) \<and> (r \<noteq> Inr () \<longrightarrow> slot' = slot)"
  by (cases outcome; cases "projr outcome") auto

lemma worker_step_value:
  "worker_step outcomes s t \<Longrightarrow> ws_attempt t = ws_attempt s \<and> (value_ok outcomes s \<longrightarrow> value_ok outcomes t)"
proof (induction rule: worker_step.induct)
  case (operation_returns s outcome r slot)
  then show ?case using worker_call_value [of outcome "ws_slot s" r slot outcomes "ws_attempt s"]
    by (cases r) (auto simp: value_ok_def)
qed (simp_all add: value_ok_def)

lemma started_inv_step:
  assumes "worker_step outcomes s t" and "started_inv outcomes l s"
  shows "started_inv outcomes l t"
  using assms(2)
proof (induction rule: worker_step.cases [OF assms(1), consumes 0])
  case (1 u)
  then show ?case by (simp add: started_inv_def)
next
  case (2 u outcome r slot)
  have "sound_queue (value_ok outcomes t) l (ws_queue t)"
    using 2 worker_step_value [OF assms(1)] sound_queue_mono [of "value_ok outcomes s" l "ws_queue s" "value_ok outcomes t"]
    by (auto simp: started_inv_def)
  then show ?case
    using 2 worker_call_value [of outcome "ws_slot s" r slot outcomes "ws_attempt s"]
    by (auto simp: started_inv_def value_ok_def)
next
  case (3 u r)
  then show ?case
    by (cases r) (auto simp: started_inv_def sound_queue_snoc sound_seen_iff value_ok_def)
next
  case (4 u)
  then show ?case by (auto simp: started_inv_def value_ok_def)
next
  case (5 u payload)
  then show ?case by (auto simp: started_inv_def value_ok_def)
next
  case (6 u r)
  then show ?case by (cases r) (auto simp: started_inv_def value_ok_def join_result_def)
next
  case (7 u r)
  then show ?case
    using sound_queue_drained [of "value_ok outcomes s" l "ws_queue s"]
    by (cases r) (auto simp: started_inv_def sound_queue_snoc sound_seen_iff value_ok_def)
next
  case (8 u)
  then show ?case
    using sound_queue_drained [of "value_ok outcomes s" l "ws_queue s"]
    by (auto simp: started_inv_def worker_wake_def sound_queue_snoc value_ok_def)
next
  case (9 u)
  then show ?case by (auto simp: started_inv_def value_ok_def)
qed

lemma gated_inv_step: "worker_step outcomes s t \<Longrightarrow> gated_inv k s \<Longrightarrow> gated_inv k t \<and> ws_reaper t = ws_reaper s"
  by (induction rule: worker_step.induct) (auto simp: gated_inv_def worker_wake_def)

lemma rest_inv_step: "worker_step outcomes s t \<Longrightarrow> rest_inv k s \<Longrightarrow> rest_inv k t"
  by (induction rule: worker_step.induct) (auto simp: rest_inv_def)

lemma exited_step:
  "worker_step outcomes s t \<Longrightarrow> ws_phase s = WorkerExited r \<Longrightarrow>
   ws_phase t = WorkerExited r \<and> ws_slot t = ws_slot s"
  by (induction rule: worker_step.induct) auto

text \<open>Any number of steps.\<close>

lemma started_inv_steps:
  "(worker_step outcomes)\<^sup>*\<^sup>* s t \<Longrightarrow> started_inv outcomes l s \<Longrightarrow>
   started_inv outcomes l t \<and> ws_attempt t = ws_attempt s"
  by (induction rule: rtranclp_induct) (auto dest: started_inv_step worker_step_value)

lemma gated_inv_steps:
  "(worker_step outcomes)\<^sup>*\<^sup>* s t \<Longrightarrow> gated_inv k s \<Longrightarrow> gated_inv k t \<and> ws_reaper t = ws_reaper s"
  by (induction rule: rtranclp_induct) (auto dest: gated_inv_step)

lemma rest_inv_steps: "(worker_step outcomes)\<^sup>*\<^sup>* s t \<Longrightarrow> rest_inv k s \<Longrightarrow> rest_inv k t"
  by (induction rule: rtranclp_induct) (auto dest: rest_inv_step)

lemma exited_steps:
  "(worker_step outcomes)\<^sup>*\<^sup>* s t \<Longrightarrow> ws_phase s = WorkerExited r \<Longrightarrow>
   ws_phase t = WorkerExited r \<and> ws_slot t = ws_slot s \<and> ws_attempt t = ws_attempt s"
  by (induction rule: rtranclp_induct) (auto dest: exited_step worker_step_value)

section \<open>The caller's accesses keep it\<close>

lemma rest_inv_new: "rest_inv 0 worker_system_new"
  by (simp add: rest_inv_def worker_system_new_def)

lemma gated_inv_spawned: "rest_inv k s \<Longrightarrow> gated_inv (Suc k) (worker_spawned s)"
  by (simp add: rest_inv_def gated_inv_def worker_spawned_def)

lemma gated_inv_reaper:
  "gated_inv k s \<Longrightarrow> gated_inv k (reaper_spawned s) \<and> ws_reaper (reaper_spawned s) = ReaperJoining"
  by (simp add: gated_inv_def reaper_spawned_def)

lemma gated_inv_wake: "gated_inv k s \<Longrightarrow> gated_inv k (worker_send EventWake s)"
  by (simp add: gated_inv_def)

lemma gate_send_starts:
  assumes "gated_inv k s" and "ws_reaper s = ReaperJoining"
  shows "\<exists>s'. gate_send s = (True, s') \<and> started_inv outcomes (None, False) s' \<and> ws_attempt s' = k"
proof -
  have "drained (None, False) (ws_queue s) = (None, False)"
    using assms drained_wakes [of "ws_queue s"] by (simp add: gated_inv_def)
  then show ?thesis
    using assms sound_queue_wakes [of "ws_queue s" _ "(None, False)"]
    by (auto simp: gated_inv_def gate_send_def started_inv_def sound_seen_def)
qed

lemma started_inv_simple:
  "started_inv outcomes l s \<Longrightarrow> started_inv outcomes l (sender_dropped s)"
  "started_inv outcomes l s \<Longrightarrow> started_inv outcomes l (attempt_token_cancel s)"
  by (auto simp: started_inv_def sender_dropped_def attempt_token_cancel_def value_ok_def)

lemma started_inv_pop:
  assumes "started_inv outcomes l s" and "ws_queue s = ev # q"
  shows "started_inv outcomes (see ev l) (event_popped s)"
  using assms by (auto simp: started_inv_def event_popped_def value_ok_def)

text \<open>What a received join proves, and that the channel never closes before it.\<close>

lemma started_inv_joined:
  assumes "started_inv outcomes l s" and "snd l"
  shows "ws_reaper s = ReaperDone \<and> (\<exists>r. ws_phase s = WorkerExited r) \<and> fst l \<noteq> None"
  using assms drained_joined [OF assms(2), of "ws_queue s"]
    sound_queue_head [of "value_ok outcomes s" l "ws_queue s"]
  by (auto simp: started_inv_def sound_seen_iff)

lemma started_inv_value: "started_inv outcomes l s \<Longrightarrow> fst l = Some (Inr ()) \<Longrightarrow> value_ok outcomes s"
  using sound_queue_head [of "value_ok outcomes s" l "ws_queue s"]
  by (auto simp: started_inv_def sound_seen_iff)

lemma started_inv_disconnected:
  assumes "started_inv outcomes l s" and "ws_queue s = []" and "worker_disconnected s"
  shows "snd l"
  using assms by (auto simp: started_inv_def worker_disconnected_def)

section \<open>Properties\<close>

text \<open>
  C20. The protocol of a started worker is well formed at every moment.  \<open>started_inv\<close> relates the
  phases of worker and reaper, the queue and the slot to what the caller has received; every
  interleaving of steps of the other threads and every access of the caller keeps it.  So a
  received join comes with a result and proves the exit of the thread, a received success
  has its value in the slot, and the caller never finds the channel closed before the join.
\<close>

theorem worker_protocol_wellformed:
  assumes "started_inv outcomes l s" and "(worker_step outcomes)\<^sup>*\<^sup>* s t"
  shows "started_inv outcomes l t \<and> started_inv outcomes l (sender_dropped t) \<and>
    started_inv outcomes l (attempt_token_cancel t) \<and>
    (case ws_queue t of
       ev # q \<Rightarrow> started_inv outcomes (see ev l) (event_popped t)
     | [] \<Rightarrow> worker_disconnected t \<longrightarrow> snd l) \<and>
    (snd l \<longrightarrow> (\<exists>r. ws_phase t = WorkerExited r) \<and> fst l \<noteq> None) \<and>
    (fst l = Some (Inr ()) \<longrightarrow> value_ok outcomes t)"
proof -
  have t: "started_inv outcomes l t" using started_inv_steps [OF assms(2,1)] by simp
  then show ?thesis
    using started_inv_simple [OF t] started_inv_pop [OF t] started_inv_disconnected [OF t]
      started_inv_joined [OF t] started_inv_value [OF t]
    by (auto split: list.split)
qed

text \<open>A worker just released, whose operation then returns its attempt's number.\<close>

definition sample_started :: "(nat, string) worker_system" where
  "sample_started = snd (gate_send (reaper_spawned (worker_spawned worker_system_new)))"

lemma worker_protocol_wellformed_witness:
  "started_inv (\<lambda>n outcome. outcome = Inr (Inr n)) (None, False)
     (sample_started\<lparr>ws_phase := WorkerReturned (Inr ()), ws_slot := Some 1\<rparr>)"
proof -
  let ?outcomes = "\<lambda>n (outcome :: panic_payload + (string + nat)). outcome = Inr (Inr n)"
  have start: "started_inv ?outcomes (None, False) sample_started"
    by (simp add: sample_started_def started_inv_def sound_seen_def worker_accesses worker_system_new_def)
  have "worker_step ?outcomes sample_started
      (sample_started\<lparr>ws_phase := WorkerReturned (Inr ()), ws_slot := Some 1\<rparr>)"
    by (rule operation_returns [where outcome = "Inr (Inr 1)"])
      (simp_all add: sample_started_def worker_accesses worker_system_new_def)
  then show ?thesis using worker_protocol_wellformed [OF start r_into_rtranclp] by blast
qed

end
