(* ===== verification/Worker_Attempt.thy ===== *)
theory Worker_Attempt
  imports Worker_Threads
begin

text \<open>
  One attempt on a worker thread (src/src/executor/internal/worker/worker_attempt_executor.rs), as
  the calling thread executes it: spawning, the start gate, the wait for result and join, the
  stop of a worker and its grace.  The state is the threads' state beside the world; \<open>os_env\<close> is
  what the other threads do before an access, \<open>os_block\<close> what they do while the caller blocks on
  the channel, \<open>os_block_for\<close> while it blocks for at most the given nanoseconds.
\<close>

section \<open>The operating system\<close>

record ('v, 'e, 'w) worker_os =
  os_spawn :: "string \<Rightarrow> u64 option \<Rightarrow> 'w \<Rightarrow> (string + unit) \<times> 'w"
  os_spawn_reaper :: "'w \<Rightarrow> (string + unit) \<times> 'w"
  os_env :: "('v, 'e) worker_system \<times> 'w \<Rightarrow> ('v, 'e) worker_system \<times> 'w"
  os_block :: "('v, 'e) worker_system \<times> 'w \<Rightarrow> (('v, 'e) worker_system \<times> 'w) option"
  os_block_for :: "nat \<Rightarrow> ('v, 'e) worker_system \<times> 'w \<Rightarrow> ('v, 'e) worker_system \<times> 'w"
  os_now :: "'w \<Rightarrow> nat \<times> 'w"
  os_instant_limit :: nat

type_synonym ('v, 'e, 'w, 'y, 'a) worker = "(('v, 'e) worker_system \<times> 'w, 'y, 'a) prog"

definition worker_access ::
  "('v, 'e, 'w) worker_os \<Rightarrow> (('v, 'e) worker_system \<Rightarrow> 'a \<times> ('v, 'e) worker_system)
     \<Rightarrow> ('v, 'e, 'w, 'y, 'a) worker"
where
  "worker_access OS f = (\<lambda>s. let (ws, w) = os_env OS s; (a, ws') = f ws in Some (Inr a, ws', w))"

definition worker_update ::
  "('v, 'e, 'w) worker_os \<Rightarrow> (('v, 'e) worker_system \<Rightarrow> ('v, 'e) worker_system)
     \<Rightarrow> ('v, 'e, 'w, 'y, unit) worker"
where
  "worker_update OS f = worker_access OS (\<lambda>ws. ((), f ws))"

section \<open>The channel\<close>

text \<open>\<open>NothingYet\<close> is \<open>Empty\<close> of \<open>try_recv\<close> and \<open>Timeout\<close> of \<open>recv_timeout\<close>.\<close>

datatype 'e received = Received "'e worker_event" | NothingYet | Disconnected

definition receive_now ::
  "('v, 'e) worker_system \<Rightarrow> 'e received \<times> ('v, 'e) worker_system"
where
  "receive_now ws = (case ws_queue ws of
     ev # _ \<Rightarrow> (Received ev, event_popped ws)
   | [] \<Rightarrow> (if worker_disconnected ws then Disconnected else NothingYet, ws))"

definition worker_try_recv :: "('v, 'e, 'w) worker_os \<Rightarrow> ('v, 'e, 'w, 'y, 'e received) worker" where
  "worker_try_recv OS = worker_access OS receive_now"

text \<open>\<open>recv\<close> does not return while nothing is there and a sender lives.\<close>

definition worker_recv :: "('v, 'e, 'w) worker_os \<Rightarrow> ('v, 'e, 'w, 'y, 'e received) worker" where
  "worker_recv OS = (\<lambda>s. case os_block OS s of
     None \<Rightarrow> None
   | Some (ws, w) \<Rightarrow> (case receive_now ws of
        (NothingYet, _) \<Rightarrow> None
      | (r, ws') \<Rightarrow> Some (Inr r, ws', w)))"

definition worker_recv_timeout ::
  "('v, 'e, 'w) worker_os \<Rightarrow> nat \<Rightarrow> ('v, 'e, 'w, 'y, 'e received) worker"
where
  "worker_recv_timeout OS remaining = (\<lambda>s.
     let (ws, w) = os_block_for OS remaining s; (r, ws') = receive_now ws in Some (Inr r, ws', w))"

section \<open>The exit of a worker\<close>

datatype ('e, 'x) blocking_attempt_outcome =
    AttemptFinished "'e attempt_failure + unit"
  | WorkerSpawnFailed string
  | WorkerChannelClosed
  | WorkerTimerFailed 'x
  | WorkerStopped worker_stop_trigger
  | WorkerStillRunning worker_stop_trigger

primrec timeout_trigger :: "retry_timeout_scope \<Rightarrow> worker_stop_trigger" where
  "timeout_trigger ScopeAttempt = TriggerAttemptTimeout"
| "timeout_trigger ScopeFlow = TriggerFlowTimeout"

text \<open>\<open>Instant::now().checked_add(grace)\<close> and \<open>deadline.checked_duration_since(now)\<close>, in nanoseconds.\<close>

definition grace_deadline :: "('v, 'e, 'w) worker_os \<Rightarrow> nat \<Rightarrow> duration \<Rightarrow> nat option" where
  "grace_deadline OS now grace =
     (if now + as_nanos grace \<le> os_instant_limit OS then Some (now + as_nanos grace) else None)"

definition grace_remaining :: "nat \<Rightarrow> nat \<Rightarrow> nat option" where
  "grace_remaining deadline now = (if now \<le> deadline then Some (deadline - now) else None)"

definition observe_event ::
  "('v, 'e, 'w) worker_os \<Rightarrow> duration \<Rightarrow> nat option \<Rightarrow> ('v, 'e, 'w, 'y, 'e received) worker"
where
  "observe_event OS grace deadline =
     (if dur_is_zero grace then worker_try_recv OS
      else case deadline of
        Some deadline \<Rightarrow>
          andthen (ctl_world (world_step (os_now OS))) (\<lambda>now.
          case grace_remaining deadline now of
            None \<Rightarrow> ok NothingYet
          | Some remaining \<Rightarrow> worker_recv_timeout OS remaining)
      | None \<Rightarrow> worker_recv OS)"

text \<open>Only a join proves the exit; other events are discarded.\<close>

definition exit_answer :: "'e received \<Rightarrow> (unit + bool) option" where
  "exit_answer r = (case r of
     Received ev \<Rightarrow> (case ev of EventJoined _ \<Rightarrow> Some (Inr True) | _ \<Rightarrow> None)
   | NothingYet \<Rightarrow> Some (Inr False)
   | Disconnected \<Rightarrow> Some (Inl ()))"

definition observe_pass ::
  "('v, 'e, 'w) worker_os \<Rightarrow> duration \<Rightarrow> nat option
     \<Rightarrow> ('v, 'e, 'w, 'y, (unit + bool) option) worker"
where
  "observe_pass OS grace deadline =
     andthen (observe_event OS grace deadline) (\<lambda>r.
     ok (exit_answer r))"

definition observe_worker_exit ::
  "('v, 'e, 'w) worker_os \<Rightarrow> duration \<Rightarrow> bool \<Rightarrow> ('v, 'e, 'w, 'y, unit + bool) worker"
where
  "observe_worker_exit OS grace joined =
     (if joined then ok (Inr True)
      else
        andthen (ctl_world (world_step (os_now OS))) (\<lambda>now.
        loops (observe_pass OS grace (grace_deadline OS now grace))))"

definition stop_answer ::
  "('e, 'x) blocking_attempt_outcome \<Rightarrow> worker_stop_trigger \<Rightarrow> unit + bool
     \<Rightarrow> ('e, 'x) blocking_attempt_outcome"
where
  "stop_answer stopped trigger r = (case r of
     Inr exited \<Rightarrow> if exited then stopped else WorkerStillRunning trigger
   | Inl _ \<Rightarrow> WorkerChannelClosed)"

text \<open>\<open>stopped\<close> is the outcome once the exit is proven: a stop or a timer's error.\<close>

definition stop_with ::
  "('v, 'e, 'w) worker_os \<Rightarrow> duration \<Rightarrow> ('e, 'x) blocking_attempt_outcome \<Rightarrow> worker_stop_trigger
     \<Rightarrow> bool \<Rightarrow> ('v, 'e, 'w, 'y, ('e, 'x) blocking_attempt_outcome) worker"
where
  "stop_with OS grace stopped trigger joined =
     andthen (worker_update OS attempt_token_cancel) (\<lambda>_.
     andthen (observe_worker_exit OS grace joined) (\<lambda>r.
     ok (stop_answer stopped trigger r)))"

definition stop_worker ::
  "('v, 'e, 'w) worker_os \<Rightarrow> duration \<Rightarrow> worker_stop_trigger \<Rightarrow> bool
     \<Rightarrow> ('v, 'e, 'w, 'y, ('e, 'x) blocking_attempt_outcome) worker"
where
  "stop_worker OS grace trigger joined = stop_with OS grace (WorkerStopped trigger) trigger joined"

section \<open>The wait\<close>

text \<open>The loop's locals: what was received, and the registered timeout with its scope.\<close>

type_synonym ('v, 'e, 'f, 'w) worker_wait =
  "('e seen \<times> (retry_timeout_scope \<times> 'f) option) \<times> ('v, 'e) worker_system \<times> 'w"

definition worker_poll_timer ::
  "('i, 'x, 'f, 'w) timer
     \<Rightarrow> (('v, 'e, 'f, 'w) worker_wait, 'y, (retry_timeout_scope \<times> ('x + unit)) option) prog"
where
  "worker_poll_timer T = (\<lambda>((seen, timeout), ws, w).
     case timeout of
       None \<Rightarrow> Some (Inr None, (seen, None), ws, w)
     | Some (scope, future) \<Rightarrow>
         (case timer_poll T future w of
            (r, future', w') \<Rightarrow>
              Some (Inr (map_option (Pair scope) r), (seen, Some (scope, future')), ws, w')))"

text \<open>The last part of a pass: both proofs are there, or the next event is awaited.\<close>

definition worker_next ::
  "('v, 'e, 'w) worker_os
     \<Rightarrow> (('v, 'e, 'f, 'w) worker_wait, 'y, ('e, 'x) blocking_attempt_outcome option) prog"
where
  "worker_next OS =
     andthen (reads (\<lambda>(((completed, joined), _), _). if joined then completed else None)) (\<lambda>finished.
     case finished of
       Some result \<Rightarrow> ok (Some (AttemptFinished result))
     | None \<Rightarrow>
         andthen (ctl_world (worker_recv OS)) (\<lambda>r.
         case r of
           Received ev \<Rightarrow>
             andthen (updates (\<lambda>((seen, timeout), s). ((see ev seen, timeout), s))) (\<lambda>_.
             ok None)
         | _ \<Rightarrow> ok (Some WorkerChannelClosed)))"

definition wait_worker_pass ::
  "('v, 'e, 'w) worker_os \<Rightarrow> ('i, 'x, 'f, 'w) timer \<Rightarrow> duration \<Rightarrow> ('c, 'w) token option
     \<Rightarrow> (('v, 'e, 'f, 'w) worker_wait, 'y, ('e, 'x) blocking_attempt_outcome option) prog"
where
  "wait_worker_pass OS T grace cancellation =
     andthen (ctl_world (ctl_world (world_step (opt_is_cancelled cancellation)))) (\<lambda>cancelled.
     andthen (reads (\<lambda>(((_, joined), _), _). joined)) (\<lambda>joined.
     if cancelled then
       andthen (ctl_world (stop_worker OS grace TriggerCancellation joined)) (\<lambda>r. ok (Some r))
     else
       andthen (worker_poll_timer T) (\<lambda>timer.
       case timer of
         Some (scope, Inr _) \<Rightarrow>
           andthen (ctl_world (stop_worker OS grace (timeout_trigger scope) joined)) (\<lambda>r. ok (Some r))
       | Some (scope, Inl error) \<Rightarrow>
           andthen (ctl_world (stop_with OS grace (WorkerTimerFailed error) TriggerTimerFailure joined))
             (\<lambda>r. ok (Some r))
       | None \<Rightarrow> worker_next OS)))"

definition wait_for_worker ::
  "('v, 'e, 'w) worker_os \<Rightarrow> ('i, 'x, 'f, 'w) timer \<Rightarrow> duration \<Rightarrow> ('c, 'w) token option
     \<Rightarrow> (retry_timeout_scope \<times> 'f) option \<Rightarrow> ('v, 'e, 'w, 'y, ('e, 'x) blocking_attempt_outcome) worker"
where
  "wait_for_worker OS T grace cancellation timeout = (\<lambda>s.
     case loops (wait_worker_pass OS T grace cancellation) (((None, False), timeout), s) of
       None \<Rightarrow> None
     | Some (r, _, s') \<Rightarrow> Some (r, s'))"

section \<open>One attempt\<close>

definition worker_spawn ::
  "('v, 'e, 'w) worker_os \<Rightarrow> string \<Rightarrow> u64 option \<Rightarrow> ('v, 'e, 'w, 'y, string + unit) worker"
where
  "worker_spawn OS thread_name stack_size = (\<lambda>(ws, w).
     case os_spawn OS thread_name stack_size w of
       (Inl message, w') \<Rightarrow> Some (Inr (Inl message), ws, w')
     | (Inr _, w') \<Rightarrow> Some (Inr (Inr ()), worker_spawned ws, w'))"

definition spawn_reaper :: "('v, 'e, 'w) worker_os \<Rightarrow> ('v, 'e, 'w, 'y, string + unit) worker" where
  "spawn_reaper OS = (\<lambda>s. let (ws, w) = os_env OS s in
     case os_spawn_reaper OS w of
       (Inl message, w') \<Rightarrow> Some (Inr (Inl message), ws, w')
     | (Inr _, w') \<Rightarrow> Some (Inr (Inr ()), reaper_spawned ws, w'))"

text \<open>The cancellation future, polled once with the channel's waker; it lives until the return.\<close>

definition register_cancellation_waker ::
  "('v, 'e, 'w) worker_os \<Rightarrow> ('c, 'w) token option \<Rightarrow> ('v, 'e, 'w, 'y, 'c option) worker"
where
  "register_cancellation_waker OS cancellation = (\<lambda>s. let (ws, w) = os_env OS s in
     case cancellation of
       None \<Rightarrow> Some (Inr None, ws, w)
     | Some tok \<Rightarrow>
         (case token_poll tok (token_cancelled tok) w of
            None \<Rightarrow> None
          | Some (ready, c, w') \<Rightarrow>
              Some (Inr (Some c), (if ready then worker_send EventWake ws else ws), w')))"

text \<open>The return: the gate, the channel's ends and the cancellation future are dropped.\<close>

definition worker_leave ::
  "('v, 'e, 'w) worker_os \<Rightarrow> ('c, 'w) token option \<Rightarrow> 'c option \<Rightarrow> ('v, 'e, 'w, 'y, unit) worker"
where
  "worker_leave OS cancellation c = (\<lambda>s. let (ws, w) = os_env OS s in
     case drop_cancellation cancellation c w of
       None \<Rightarrow> None
     | Some w' \<Rightarrow> Some (Inr (), ends_dropped ws, w'))"

text \<open>A program on threads and world, beside a controller.\<close>

definition beside ::
  "('v, 'e, 'w, 'y, 'a) worker \<Rightarrow> (('v, 'e) worker_system \<times> 'k \<times> 'w, 'y, 'a) prog"
where
  "beside m = (\<lambda>(ws, k, w). case m (ws, w) of
     None \<Rightarrow> None | Some (r, ws', w') \<Rightarrow> Some (r, ws', k, w'))"

definition worker_attempt_run ::
  "('v, 'e, 'w) worker_os \<Rightarrow> ('i, 'x, 'f, 'w) timer \<Rightarrow> string \<Rightarrow> u64 option \<Rightarrow> duration
     \<Rightarrow> ('c, 'w) token option \<Rightarrow> (retry_timeout_scope \<times> 'f) option \<Rightarrow> ('k \<times> 'w, 'y, unit) prog
     \<Rightarrow> (('v, 'e) worker_system \<times> 'k \<times> 'w, 'y, ('e, 'x) blocking_attempt_outcome) prog"
where
  "worker_attempt_run OS T thread_name stack_size grace cancellation timeout prepare =
     (if CHR 0x00 \<in> set thread_name then
        ok (WorkerSpawnFailed ''worker thread name must not contain NUL bytes'')
      else
        andthen (beside (worker_spawn OS thread_name stack_size)) (\<lambda>spawned.
        case spawned of
          Inl message \<Rightarrow> ok (WorkerSpawnFailed message)
        | Inr _ \<Rightarrow>
        andthen (beside (spawn_reaper OS)) (\<lambda>reaped.
        case reaped of
          Inl message \<Rightarrow>
            andthen (beside (worker_leave OS cancellation None)) (\<lambda>_.
            ok (WorkerSpawnFailed (''reaper: '' @ message)))
        | Inr _ \<Rightarrow>
        andthen (beside (register_cancellation_waker OS cancellation)) (\<lambda>c.
        andthen (attempt (ctl_world prepare)) (\<lambda>prepared.
        case prepared of
          Inl error \<Rightarrow> andthen (beside (worker_leave OS cancellation c)) (\<lambda>_. fail error)
        | Inr _ \<Rightarrow>
        andthen (beside (worker_access OS gate_send)) (\<lambda>started.
        if \<not> started then
          andthen (beside (worker_leave OS cancellation c)) (\<lambda>_. ok WorkerChannelClosed)
        else
        andthen (beside (worker_update OS sender_dropped)) (\<lambda>_.
        andthen (beside (wait_for_worker OS T grace cancellation timeout)) (\<lambda>outcome.
        andthen (beside (worker_leave OS cancellation c)) (\<lambda>_.
        ok outcome)))))))))"

section \<open>Single passes\<close>

text \<open>A pass of the wait, by what the flag and the timer answer.\<close>

lemma wait_pass_flag:
  "f w = (a, w') \<Longrightarrow>
   (ctl_world (ctl_world (world_step f)) :: (_, 'y, _) prog) (l, ws, w) = Some (Inr a, l, ws, w')"
  by (simp add: ctl_world_def world_step_def)

lemma wait_pass_checked:
  "opt_is_cancelled cancellation w = (cancelled, w') \<Longrightarrow>
   wait_worker_pass OS T grace cancellation ((seen, timeout), ws, w) =
     (if cancelled then
        andthen (ctl_world (stop_worker OS grace TriggerCancellation (snd seen))) (\<lambda>r. ok (Some r))
      else
        andthen (worker_poll_timer T) (\<lambda>timer.
        case timer of
          Some (scope, Inr _) \<Rightarrow>
            andthen (ctl_world (stop_worker OS grace (timeout_trigger scope) (snd seen))) (\<lambda>r. ok (Some r))
        | Some (scope, Inl error) \<Rightarrow>
            andthen (ctl_world (stop_with OS grace (WorkerTimerFailed error) TriggerTimerFailure (snd seen)))
              (\<lambda>r. ok (Some r))
        | None \<Rightarrow> worker_next OS)) ((seen, timeout), ws, w')"
  unfolding wait_worker_pass_def
    andthen_run [where m = "ctl_world (ctl_world (world_step (opt_is_cancelled cancellation)))", OF wait_pass_flag]
    andthen_run [where m = "reads _", OF reads_run]
  by (simp add: case_prod_beta)

lemma wait_pass_cancelled:
  "opt_is_cancelled cancellation w = (True, w') \<Longrightarrow>
   wait_worker_pass OS T grace cancellation ((seen, timeout), ws, w) =
     andthen (ctl_world (stop_worker OS grace TriggerCancellation (snd seen))) (\<lambda>r. ok (Some r))
       ((seen, timeout), ws, w')"
  by (subst wait_pass_checked, assumption) simp

lemma wait_pass_polls:
  "opt_is_cancelled cancellation w = (False, w1) \<Longrightarrow>
   (worker_poll_timer T :: (_, 'y, _) prog) ((seen, timeout), ws, w1) = Some (Inr timer, t) \<Longrightarrow>
   (wait_worker_pass OS T grace cancellation :: (_, 'y, _) prog) ((seen, timeout), ws, w) =
     (case timer of
        Some (scope, Inr _) \<Rightarrow>
          andthen (ctl_world (stop_worker OS grace (timeout_trigger scope) (snd seen))) (\<lambda>r. ok (Some r))
      | Some (scope, Inl error) \<Rightarrow>
          andthen (ctl_world (stop_with OS grace (WorkerTimerFailed error) TriggerTimerFailure (snd seen)))
            (\<lambda>r. ok (Some r))
      | None \<Rightarrow> worker_next OS) t"
  by (subst wait_pass_checked, assumption) (simp add: andthen_run)

lemma worker_poll_timer_runs:
  "\<exists>timer timeout' w'. (worker_poll_timer T :: (_, 'y, _) prog) ((seen, timeout), ws, w) =
     Some (Inr timer, (seen, timeout'), ws, w')"
  by (auto simp: worker_poll_timer_def split: option.split prod.split)

end
