(* ===== verification/Worker_Laws.thy ===== *)
theory Worker_Laws
  imports Worker_Attempt
begin

text \<open>
  What a worker attempt guarantees its caller.  The laws say that the other threads move by
  \<open>worker_step\<close> and that the caller is not blocked forever; the lemmas carry \<open>started_inv\<close>
  through receives, the grace of a stopped worker and the waiting loop, to the contract of
  \<open>worker_attempt_run\<close>.
\<close>

section \<open>Preconditions\<close>

lemma wp_worker_access:
  "wp (worker_access OS f) Q E = (\<lambda>s. case os_env OS s of (ws, w) \<Rightarrow> Q (fst (f ws)) (snd (f ws), w))"
  by (auto simp: wp_def worker_access_def fun_eq_iff split: prod.split)

lemma wp_worker_recv_timeout:
  "wp (worker_recv_timeout OS d) Q E = (\<lambda>s. case os_block_for OS d s of
     (ws, w) \<Rightarrow> Q (fst (receive_now ws)) (snd (receive_now ws), w))"
  by (auto simp: wp_def worker_recv_timeout_def fun_eq_iff split: prod.split)

lemma wp_worker_poll_timer:
  "wp (worker_poll_timer T) Q E = (\<lambda>((seen, timeout), ws, w). case timeout of
     None \<Rightarrow> Q None ((seen, None), ws, w)
   | Some (scope, future) \<Rightarrow> (case timer_poll T future w of (r, future', w') \<Rightarrow>
       Q (map_option (Pair scope) r) ((seen, Some (scope, future')), ws, w')))"
  by (auto simp: wp_def worker_poll_timer_def fun_eq_iff split: option.split prod.split)

lemma wp_beside [wp_rules, simp]:
  "wp (beside m) Q E = (\<lambda>(ws, k, w). wp m (\<lambda>a (ws', w'). Q a (ws', k, w')) (\<lambda>e (ws', w'). E e (ws', k, w')) (ws, w))"
  by (auto simp: wp_def beside_def fun_eq_iff split: option.split sum.split)

lemma wp_worker_spawn:
  "wp (worker_spawn OS name stack) Q E = (\<lambda>(ws, w). case os_spawn OS name stack w of
     (Inl message, w') \<Rightarrow> Q (Inl message) (ws, w')
   | (Inr _, w') \<Rightarrow> Q (Inr ()) (worker_spawned ws, w'))"
  by (auto simp: wp_def worker_spawn_def fun_eq_iff split: prod.split sum.split)

lemma wp_spawn_reaper:
  "wp (spawn_reaper OS) Q E = (\<lambda>s. case os_env OS s of (ws, w) \<Rightarrow> (case os_spawn_reaper OS w of
     (Inl message, w') \<Rightarrow> Q (Inl message) (ws, w')
   | (Inr _, w') \<Rightarrow> Q (Inr ()) (reaper_spawned ws, w')))"
  by (auto simp: wp_def spawn_reaper_def fun_eq_iff Let_def split: prod.split sum.split)

section \<open>Contracts\<close>

text \<open>A receive takes an event, or finds the channel empty; it never finds it closed.\<close>

definition receive_post ::
  "(nat \<Rightarrow> panic_payload + ('e + 'v) \<Rightarrow> bool) \<Rightarrow> nat \<Rightarrow> 'e seen \<Rightarrow> 'e received
     \<Rightarrow> ('v, 'e) worker_system \<Rightarrow> bool"
where
  "receive_post outcomes k l r ws \<longleftrightarrow> ws_attempt ws = k \<and> (case r of
     Received ev \<Rightarrow> started_inv outcomes (see ev l) ws
   | NothingYet \<Rightarrow> started_inv outcomes l ws
   | Disconnected \<Rightarrow> False)"

text \<open>The worker of attempt \<open>k\<close> started, and its join was received when \<open>exited\<close> says so.\<close>

definition observed ::
  "(nat \<Rightarrow> panic_payload + ('e + 'v) \<Rightarrow> bool) \<Rightarrow> nat \<Rightarrow> bool \<Rightarrow> ('v, 'e) worker_system \<Rightarrow> bool"
where
  "observed outcomes k exited ws \<longleftrightarrow>
     (\<exists>l. started_inv outcomes l ws \<and> ws_attempt ws = k \<and> (exited \<longrightarrow> snd l))"

text \<open>The thread of attempt \<open>k\<close> has ended.\<close>

definition worker_ended :: "nat \<Rightarrow> ('v, 'e) worker_system \<Rightarrow> bool" where
  "worker_ended k ws \<longleftrightarrow> ws_attempt ws = k \<and> (\<exists>r. ws_phase ws = WorkerExited r)"

text \<open>
  What the outcome of an admitted attempt says of its thread: every outcome but a worker
  left running comes after the thread's end, a success has left its value, and a closed
  channel is never reported.
\<close>

definition outcome_ok ::
  "(nat \<Rightarrow> panic_payload + ('e + 'v) \<Rightarrow> bool) \<Rightarrow> nat \<Rightarrow> ('e, 'x) blocking_attempt_outcome
     \<Rightarrow> ('v, 'e) worker_system \<Rightarrow> bool"
where
  "outcome_ok outcomes k outcome ws \<longleftrightarrow> (case outcome of
     AttemptFinished r \<Rightarrow> worker_ended k ws \<and> (r = Inr () \<longrightarrow> value_ok outcomes ws)
   | WorkerStopped trigger \<Rightarrow> worker_ended k ws \<and> trigger \<noteq> TriggerTimerFailure
   | WorkerTimerFailed _ \<Rightarrow> worker_ended k ws
   | WorkerStillRunning _ \<Rightarrow> True
   | WorkerChannelClosed \<Rightarrow> False
   | WorkerSpawnFailed _ \<Rightarrow> False)"

lemma observed_ended: "observed outcomes k True ws \<Longrightarrow> worker_ended k ws"
  using started_inv_joined by (fastforce simp: observed_def worker_ended_def)

lemma receive_now_post:
  assumes "started_inv outcomes l ws" and "\<not> snd l"
  shows "receive_post outcomes (ws_attempt ws) l (fst (receive_now ws)) (snd (receive_now ws))"
proof (cases "ws_queue ws")
  case Nil
  then show ?thesis
    using assms started_inv_disconnected [OF assms(1) Nil]
    by (auto simp: receive_post_def receive_now_def)
next
  case (Cons ev q)
  then show ?thesis
    using started_inv_pop [OF assms(1) Cons]
    by (simp add: receive_post_def receive_now_def) (simp add: event_popped_def)
qed

lemma outcome_ok_steps:
  assumes "(worker_step outcomes)\<^sup>*\<^sup>* ws ws'" and "outcome_ok outcomes k outcome ws"
  shows "outcome_ok outcomes k outcome ws'"
proof -
  have value_kept: "value_ok outcomes ws'" if "value_ok outcomes ws"
    using assms(1) that by (induction rule: rtranclp_induct) (auto dest: worker_step_value)
  have "worker_ended k ws'" if "worker_ended k ws"
    using that exited_steps [OF assms(1)] by (fastforce simp: worker_ended_def)
  then show ?thesis using assms(2) value_kept
    by (auto simp: outcome_ok_def split: blocking_attempt_outcome.splits)
qed

lemma outcome_ok_running: "outcome_ok outcomes k (WorkerStillRunning trigger) ws"
  by (simp add: outcome_ok_def)

lemma outcome_ok_stopped:
  "worker_ended k ws \<Longrightarrow> trigger \<noteq> TriggerTimerFailure \<Longrightarrow> outcome_ok outcomes k (WorkerStopped trigger) ws"
  "worker_ended k ws \<Longrightarrow> outcome_ok outcomes k (WorkerTimerFailed e) ws"
  by (simp_all add: outcome_ok_def)

lemma stop_answer_ok:
  assumes "observed outcomes k exited ws" and "worker_ended k ws \<Longrightarrow> outcome_ok outcomes k stopped ws"
  shows "outcome_ok outcomes k (stop_answer stopped trigger (Inr exited)) ws"
  using assms observed_ended [of outcomes k ws] outcome_ok_running
  by (cases exited) (auto simp: stop_answer_def)

lemma outcome_ok_dropped: "outcome_ok outcomes k outcome ws \<Longrightarrow> outcome_ok outcomes k outcome (ends_dropped ws)"
  by (auto simp: outcome_ok_def worker_ended_def value_ok_def ends_dropped_def
      split: blocking_attempt_outcome.splits)

text \<open>The waiting loop's invariant.\<close>

definition waiting ::
  "(nat \<Rightarrow> panic_payload + ('e + 'v) \<Rightarrow> bool) \<Rightarrow> nat \<Rightarrow> ('v, 'e, 'f, 'w) worker_wait \<Rightarrow> bool"
where
  "waiting outcomes k t \<longleftrightarrow>
     started_inv outcomes (fst (fst t)) (fst (snd t)) \<and> ws_attempt (fst (snd t)) = k"

section \<open>Laws\<close>

locale worker_threads =
  fixes OS :: "('v, 'e, 'w) worker_os" and outcomes :: "nat \<Rightarrow> panic_payload + ('e + 'v) \<Rightarrow> bool"
  assumes env_steps: "os_env OS (ws, w) = (ws', w') \<Longrightarrow> (worker_step outcomes)\<^sup>*\<^sup>* ws ws'"
    and block_steps: "os_block OS (ws, w) = Some (ws', w') \<Longrightarrow> (worker_step outcomes)\<^sup>*\<^sup>* ws ws'"
    and block_for_steps: "os_block_for OS d (ws, w) = (ws', w') \<Longrightarrow> (worker_step outcomes)\<^sup>*\<^sup>* ws ws'"
begin

lemma access_wp:
  assumes "\<And>ws' w'. (worker_step outcomes)\<^sup>*\<^sup>* ws ws' \<Longrightarrow> Q (fst (f ws')) (snd (f ws'), w')"
  shows "wp (worker_access OS f) Q E (ws, w)"
  using assms env_steps by (auto simp: wp_worker_access split: prod.split)

lemma update_wp:
  assumes "\<And>ws' w'. (worker_step outcomes)\<^sup>*\<^sup>* ws ws' \<Longrightarrow> Q () (f ws', w')"
  shows "wp (worker_update OS f) Q E (ws, w)"
  unfolding worker_update_def by (rule access_wp) (simp add: assms)

lemma received:
  assumes "started_inv outcomes l ws" and "\<not> snd l" and "(worker_step outcomes)\<^sup>*\<^sup>* ws ws'"
  shows "receive_post outcomes (ws_attempt ws) l (fst (receive_now ws')) (snd (receive_now ws'))"
  using receive_now_post [of outcomes l ws'] started_inv_steps [OF assms(3,1)] assms(2) by simp

lemma try_recv_wp:
  assumes "started_inv outcomes l ws" and "\<not> snd l"
  shows "wp (worker_try_recv OS) (\<lambda>r (ws', _). receive_post outcomes (ws_attempt ws) l r ws') E (ws, w)"
  unfolding worker_try_recv_def by (rule access_wp) (simp add: received [OF assms])

lemma recv_timeout_wp:
  assumes "started_inv outcomes l ws" and "\<not> snd l"
  shows "wp (worker_recv_timeout OS d) (\<lambda>r (ws', _). receive_post outcomes (ws_attempt ws) l r ws') E (ws, w)"
  using received [OF assms] block_for_steps by (auto simp: wp_worker_recv_timeout split: prod.split)

end

text \<open>
  With the liveness the caller needs: a receive after the start returns (the operation
  returns, or a timer or a cancellation wakes the caller), and events that decide nothing come
  only finitely often.
\<close>

locale worker_laws = worker_threads OS outcomes + wait_laws T park pend target due cancellation cancelled
  for OS :: "('v, 'e, 'w) worker_os" and outcomes and T :: "('i, 'x, 'f, 'w) timer" and park pend target due
    and cancellation :: "('c, 'w) token option" and cancelled +
  fixes grace :: duration
    and exit_rank :: "('v, 'e) worker_system \<times> 'w \<Rightarrow> nat"
    and wait_rank :: "('v, 'e, 'f, 'w) worker_wait \<Rightarrow> nat"
  assumes recv_returns: "started_inv outcomes l ws \<Longrightarrow> \<not> snd l \<Longrightarrow>
      \<exists>ws' w'. os_block OS (ws, w) = Some (ws', w') \<and> fst (receive_now ws') \<noteq> NothingYet"
    and observe_progress:
      "(observe_pass OS grace deadline :: (_, 'e retry_error, _) prog) s = Some (Inr None, s') \<Longrightarrow>
       exit_rank s' < exit_rank s"
    and wait_progress:
      "(wait_worker_pass OS T grace cancellation :: (_, 'e retry_error, ('e, 'x) blocking_attempt_outcome option) prog) t
         = Some (Inr None, t') \<Longrightarrow> wait_rank t' < wait_rank t"
begin

lemma recv_wp:
  assumes "started_inv outcomes l ws" and "\<not> snd l"
  shows "wp (worker_recv OS)
    (\<lambda>r (ws', _). r \<noteq> NothingYet \<and> receive_post outcomes (ws_attempt ws) l r ws') E (ws, w)"
proof -
  obtain ws1 w1 where block: "os_block OS (ws, w) = Some (ws1, w1)" "fst (receive_now ws1) \<noteq> NothingYet"
    using recv_returns [OF assms] by blast
  have "receive_post outcomes (ws_attempt ws) l (fst (receive_now ws1)) (snd (receive_now ws1))"
    by (rule received [OF assms block_steps [OF block(1)]])
  then show ?thesis
    using block by (cases "receive_now ws1") (auto simp: wp_def worker_recv_def split: received.split)
qed

lemma observe_event_wp:
  assumes "started_inv outcomes l ws" and "\<not> snd l"
  shows "wp (observe_event OS grace deadline) (\<lambda>r (ws', _). receive_post outcomes (ws_attempt ws) l r ws') E (ws, w)"
proof -
  have empty: "receive_post outcomes (ws_attempt ws) l NothingYet ws"
    using assms by (simp add: receive_post_def)
  show ?thesis
    unfolding observe_event_def
    by (auto simp: empty split: option.split prod.split
        intro: try_recv_wp [OF assms] recv_timeout_wp [OF assms] wp_mono [OF recv_wp [OF assms]])
qed

lemma see_joins: "\<not> snd l \<Longrightarrow> snd (see ev l) = (case ev of EventJoined _ \<Rightarrow> True | _ \<Rightarrow> False)"
  by (cases "(ev, l)" rule: see.cases) auto

lemma received_observed:
  assumes "receive_post outcomes k l r ws" and "\<not> snd l"
  shows "case exit_answer r of
       None \<Rightarrow> \<exists>l. started_inv outcomes l ws \<and> \<not> snd l \<and> ws_attempt ws = k
     | Some a \<Rightarrow> \<exists>exited. a = Inr exited \<and> observed outcomes k exited ws"
proof (cases r)
  case (Received ev)
  then have ev: "started_inv outcomes (see ev l) ws" "ws_attempt ws = k"
    using assms by (simp_all add: receive_post_def)
  have joins: "snd (see ev l) = (case ev of EventJoined _ \<Rightarrow> True | _ \<Rightarrow> False)"
    by (rule see_joins [OF assms(2)])
  show ?thesis
  proof (cases "snd (see ev l)")
    case True
    then have "exit_answer r = Some (Inr True)"
      using Received joins by (auto simp: exit_answer_def split: worker_event.splits)
    moreover have "observed outcomes k True ws" using True ev unfolding observed_def by blast
    ultimately show ?thesis by (simp, blast)
  next
    case False
    then have "exit_answer r = None"
      using Received joins by (auto simp: exit_answer_def split: worker_event.splits)
    then show ?thesis using ev False by (simp only: option.case) blast
  qed
next
  case NothingYet
  then have "exit_answer r = Some (Inr False)" "observed outcomes k False ws"
    using assms(1) unfolding observed_def receive_post_def exit_answer_def
    by (simp, simp only: received.case, blast)
  then show ?thesis by (simp only: option.case) blast
next
  case Disconnected
  then show ?thesis using assms(1) by (simp add: receive_post_def)
qed

lemma observe_exit_wp:
  assumes "started_inv outcomes l ws" and "ws_attempt ws = k" and "joined = snd l"
  shows "wp (observe_worker_exit OS grace joined :: (_, 'e retry_error, _) prog)
    (\<lambda>r (ws', _). \<exists>exited. r = Inr exited \<and> observed outcomes k exited ws') (\<lambda>_ _. False) (ws, w)"
proof (cases joined)
  case True
  then have "observed outcomes k True ws" using assms unfolding observed_def by blast
  then show ?thesis using True by (simp add: observe_worker_exit_def, blast)
next
  case False
  let ?I = "\<lambda>s :: ('v, 'e) worker_system \<times> 'w. \<exists>l. started_inv outcomes l (fst s) \<and> \<not> snd l \<and> ws_attempt (fst s) = k"
  have loop: "wp (loops (observe_pass OS grace deadline :: (_, 'e retry_error, _) prog))
      (\<lambda>r (ws', _). \<exists>exited. r = Inr exited \<and> observed outcomes k exited ws') (\<lambda>_ _. False) s" (is "wp _ ?Q _ _")
    if "?I s" for deadline s
  proof (rule wp_loops [where I = ?I and m = exit_rank])
    fix s assume "?I s"
    then obtain l where l: "started_inv outcomes l (fst s)" "\<not> snd l" "ws_attempt (fst s) = k" by blast
    have pass: "wp (observe_pass OS grace deadline :: (_, 'e retry_error, _) prog)
        (\<lambda>r s'. case r of None \<Rightarrow> ?I s' | Some a \<Rightarrow> ?Q a s') (\<lambda>_ _. False) (fst s, snd s)"
      unfolding observe_pass_def wp_andthen wp_ok
    proof (rule wp_only [OF observe_event_wp [OF l(1,2)]])
      fix r and s' :: "('v, 'e) worker_system \<times> 'w"
      assume "case s' of (ws', _) \<Rightarrow> receive_post outcomes (ws_attempt (fst s)) l r ws'"
      then have "receive_post outcomes k l r (fst s')" using l(3) by (cases s') simp
      from received_observed [OF this l(2)]
      show "case exit_answer r of None \<Rightarrow> ?I s' | Some a \<Rightarrow> ?Q a s'"
        by (cases s') (simp only: fst_conv prod.case)
    qed
    show "wp (observe_pass OS grace deadline :: (_, 'e retry_error, _) prog)
        (\<lambda>r s'. case r of None \<Rightarrow> ?I s' \<and> exit_rank s' < exit_rank s | Some a \<Rightarrow> ?Q a s') (\<lambda>_ _. False) s"
      using pass observe_progress [of deadline s]
      by (auto simp: wp_def split: option.splits sum.splits)
  qed (use that in simp)
  have "?I (ws, w')" for w' by (rule exI [of _ l]) (use assms False in simp)
  from loop [OF this] False show ?thesis by (simp add: observe_worker_exit_def)
qed

lemma stop_with_wp:
  assumes "started_inv outcomes l ws" and "ws_attempt ws = k" and "joined = snd l"
    and "\<And>ws'. worker_ended k ws' \<Longrightarrow> outcome_ok outcomes k stopped ws'"
  shows "wp (stop_with OS grace stopped trigger joined :: (_, 'e retry_error, _) prog)
    (\<lambda>r (ws', _). outcome_ok outcomes k r ws') (\<lambda>_ _. False) (ws, w)"
  unfolding stop_with_def wp_andthen wp_ok
proof (rule update_wp)
  fix ws' and w' :: 'w
  assume steps: "(worker_step outcomes)\<^sup>*\<^sup>* ws ws'"
  let ?ws = "attempt_token_cancel ws'"
  have l: "started_inv outcomes l ?ws" "ws_attempt ?ws = k"
    using started_inv_steps [OF steps assms(1)] started_inv_simple(2) [of outcomes l ws'] assms(2)
    by (simp_all add: attempt_token_cancel_def)
  show "wp (observe_worker_exit OS grace joined :: (_, 'e retry_error, _) prog)
     (\<lambda>r (ws', _). outcome_ok outcomes k (stop_answer stopped trigger r) ws') (\<lambda>_ _. False) (?ws, w')"
    by (rule wp_only [OF observe_exit_wp [OF l assms(3)]]) (auto intro: stop_answer_ok assms(4))
qed

lemma worker_next_wp:
  assumes "started_inv outcomes seen ws" and "ws_attempt ws = k"
  shows "wp (worker_next OS :: (_, 'e retry_error, ('e, 'x) blocking_attempt_outcome option) prog)
    (\<lambda>r t. case r of None \<Rightarrow> waiting outcomes k t | Some a \<Rightarrow> outcome_ok outcomes k a (fst (snd t)))
    (\<lambda>_ _. False) ((seen, timeout), ws, w)" (is "wp _ ?Q _ _")
proof (cases "snd seen")
  case True
  have "fst seen \<noteq> None" "worker_ended k ws"
    using started_inv_joined [OF assms(1) True] assms(2) by (auto simp: worker_ended_def)
  moreover have "fst seen = Some (Inr ()) \<longrightarrow> value_ok outcomes ws"
    using started_inv_value [OF assms(1)] by blast
  ultimately show ?thesis
    using True by (cases seen) (auto simp: worker_next_def outcome_ok_def)
next
  case False
  have event: "?Q None ((see ev seen, timeout), s)" if "receive_post outcomes k seen (Received ev) (fst s)" for ev s
    using that by (simp add: receive_post_def waiting_def)
  have "wp (andthen (ctl_world (worker_recv OS)) (\<lambda>r. case r of
       Received ev \<Rightarrow> andthen (updates (\<lambda>((seen, timeout), s). ((see ev seen, timeout), s))) (\<lambda>_. ok None)
     | _ \<Rightarrow> ok (Some WorkerChannelClosed))) ?Q (\<lambda>_ _. False) ((seen, timeout), ws, w)"
    unfolding wp_andthen [of "ctl_world (worker_recv OS)"] wp_ctl_world prod.case
  proof (rule wp_only [OF recv_wp [OF assms(1) False]])
    fix r and s :: "('v, 'e) worker_system \<times> 'w"
    assume "case s of (ws', _) \<Rightarrow> r \<noteq> NothingYet \<and> receive_post outcomes (ws_attempt ws) seen r ws'"
    then have "r \<noteq> NothingYet" "receive_post outcomes k seen r (fst s)" using assms(2) by auto
    then show "wp (case r of
         Received ev \<Rightarrow> andthen (updates (\<lambda>((seen, timeout), s). ((see ev seen, timeout), s))) (\<lambda>_. ok None)
       | _ \<Rightarrow> ok (Some WorkerChannelClosed)) ?Q (\<lambda>_ _. False) ((seen, timeout), s)"
      using event by (cases r) (simp_all add: receive_post_def)
  qed
  then show ?thesis
    using False by (cases seen) (simp add: worker_next_def del: wp_andthen add: wp_andthen [of "reads _"])
qed

lemma stopping_wp:
  assumes "waiting outcomes k ((seen, timeout), ws, w)"
    and "\<And>ws'. worker_ended k ws' \<Longrightarrow> outcome_ok outcomes k stopped ws'"
  shows "wp (andthen (ctl_world (stop_with OS grace stopped trigger (snd seen))) (\<lambda>r. ok (Some r)))
    (\<lambda>r t. case r of None \<Rightarrow> waiting outcomes k t
       | Some a \<Rightarrow> outcome_ok outcomes k (a :: ('e, 'x) blocking_attempt_outcome) (fst (snd t)))
    (\<lambda>(_ :: 'e retry_error) (_ :: ('v, 'e, 'f, 'w) worker_wait). False) ((seen, timeout), ws, w)"
proof -
  have "started_inv outcomes seen ws" "ws_attempt ws = k" using assms(1) by (simp_all add: waiting_def)
  from stop_with_wp [OF this refl assms(2)]
  show ?thesis
    unfolding wp_andthen wp_ctl_world prod.case wp_ok
    by (rule wp_only) (auto split: prod.splits)
qed

lemma wait_worker_pass_wp:
  assumes "waiting outcomes k t"
  shows "wp (wait_worker_pass OS T grace cancellation :: (_, 'e retry_error, ('e, 'x) blocking_attempt_outcome option) prog)
    (\<lambda>r t'. case r of None \<Rightarrow> waiting outcomes k t' | Some a \<Rightarrow> outcome_ok outcomes k a (fst (snd t')))
    (\<lambda>_ _. False) t" (is "wp _ ?Q _ _")
proof -
  obtain seen timeout ws w where t: "t = ((seen, timeout), ws, w)" by (metis prod.collapse)
  obtain completed joined where seen: "seen = (completed, joined)" by (cases seen)
  have keep: "waiting outcomes k ((seen, timeout'), ws, w')" for timeout' w'
    using assms t by (simp add: waiting_def)
  have stop: "wp (andthen (ctl_world (stop_with OS grace stopped trigger joined)) (\<lambda>r. ok (Some r)))
      ?Q (\<lambda>(_ :: 'e retry_error) _. False) ((seen, timeout'), ws, w')"
    if "\<And>ws'. worker_ended k ws' \<Longrightarrow> outcome_ok outcomes k stopped ws'" for stopped trigger timeout' w'
    using stopping_wp [OF keep that, of trigger timeout' w'] seen by simp
  have poll: "wp (case timer of
         Some (scope, Inr _) \<Rightarrow>
           andthen (ctl_world (stop_worker OS grace (timeout_trigger scope) joined)) (\<lambda>r. ok (Some r))
       | Some (scope, Inl error) \<Rightarrow>
           andthen (ctl_world (stop_with OS grace (WorkerTimerFailed error) TriggerTimerFailure joined))
             (\<lambda>r. ok (Some r))
       | None \<Rightarrow> worker_next OS) ?Q (\<lambda>(_ :: 'e retry_error) _. False) ((seen, timeout'), ws, w')" for timer timeout' w'
  proof (cases timer)
    case None
    then show ?thesis using worker_next_wp [of seen ws k timeout' w'] keep by (simp add: waiting_def)
  next
    case (Some p)
    obtain scope r where p: "p = (scope, r)" by (cases p)
    have "timeout_trigger scope \<noteq> TriggerTimerFailure" by (cases scope) simp_all
    then show ?thesis
      using Some p stop [of "WorkerStopped (timeout_trigger scope)"] stop [of "WorkerTimerFailed (projl r)"]
      by (cases r) (simp_all add: stop_worker_def outcome_ok_stopped del: wp_andthen)
  qed
  have "wp (andthen (worker_poll_timer T) (\<lambda>timer. case timer of
         Some (scope, Inr _) \<Rightarrow>
           andthen (ctl_world (stop_worker OS grace (timeout_trigger scope) joined)) (\<lambda>r. ok (Some r))
       | Some (scope, Inl error) \<Rightarrow>
           andthen (ctl_world (stop_with OS grace (WorkerTimerFailed error) TriggerTimerFailure joined))
             (\<lambda>r. ok (Some r))
       | None \<Rightarrow> worker_next OS)) ?Q (\<lambda>(_ :: 'e retry_error) _. False) ((seen, timeout), ws, w')" for w'
  proof (cases timeout)
    case None
    show ?thesis
      unfolding wp_andthen [of "worker_poll_timer T"] wp_worker_poll_timer prod.case None
      using poll [of None None w'] by (simp only: option.case)
  next
    case (Some p)
    obtain scope future where p: "p = (scope, future)" by (cases p)
    obtain r future' w'' where r: "timer_poll T future w' = (r, future', w'')"
      by (cases "timer_poll T future w'")
    show ?thesis
      unfolding wp_andthen [of "worker_poll_timer T"] wp_worker_poll_timer Some p option.case prod.case r
      by (rule poll)
  qed
  moreover have "wp (andthen (ctl_world (stop_worker OS grace TriggerCancellation joined)) (\<lambda>r. ok (Some r)))
      ?Q (\<lambda>(_ :: 'e retry_error) _. False) ((seen, timeout), ws, w')" for w'
    unfolding stop_worker_def by (rule stop) (simp add: outcome_ok_stopped)
  ultimately show ?thesis
    unfolding wait_worker_pass_def t seen
      wp_andthen [of "ctl_world (ctl_world (world_step (opt_is_cancelled cancellation)))"] wp_andthen [of "reads _"]
    by (simp del: wp_andthen)
qed

lemma wait_for_worker_wp:
  assumes "started_inv outcomes (None, False) ws" and "ws_attempt ws = k"
  shows "wp (wait_for_worker OS T grace cancellation timeout)
    (\<lambda>r (ws', _). outcome_ok outcomes k (r :: ('e, 'x) blocking_attempt_outcome) ws')
    (\<lambda>(_ :: 'e retry_error) _. False) (ws, w)"
proof -
  have "wp (loops (wait_worker_pass OS T grace cancellation :: (_, 'e retry_error, ('e, 'x) blocking_attempt_outcome option) prog))
      (\<lambda>a t. outcome_ok outcomes k a (fst (snd t))) (\<lambda>_ _. False) (((None, False), timeout), ws, w)"
  proof (rule wp_loops [where I = "waiting outcomes k" and m = wait_rank])
    fix t :: "('v, 'e, 'f, 'w) worker_wait"
    assume "waiting outcomes k t"
    from wait_worker_pass_wp [OF this] wait_progress [of t]
    show "wp (wait_worker_pass OS T grace cancellation :: (_, 'e retry_error, ('e, 'x) blocking_attempt_outcome option) prog)
      (\<lambda>r t'. case r of None \<Rightarrow> waiting outcomes k t' \<and> wait_rank t' < wait_rank t
         | Some a \<Rightarrow> outcome_ok outcomes k a (fst (snd t'))) (\<lambda>_ _. False) t"
      by (auto simp: wp_def split: option.splits sum.splits)
  qed (use assms in \<open>simp add: waiting_def\<close>)
  then show ?thesis
    by (auto simp: wp_def wait_for_worker_def split: option.splits sum.splits)
qed

text \<open>One attempt: the calls around the wait.\<close>

lemma spawn_reaper_wp:
  assumes "gated_inv k ws"
  shows "wp (spawn_reaper OS) (\<lambda>r (ws', _). case r of
       Inl _ \<Rightarrow> True | Inr _ \<Rightarrow> gated_inv k ws' \<and> ws_reaper ws' = ReaperJoining) E (ws, w)"
proof -
  obtain ws1 w1 where env: "os_env OS (ws, w) = (ws1, w1)" by fastforce
  have "gated_inv k ws1" using gated_inv_steps [OF env_steps [OF env] assms] by simp
  from gated_inv_reaper [OF this] show ?thesis
    using env by (auto simp: wp_spawn_reaper split: prod.split sum.split)
qed

lemma register_waker_wp:
  assumes "gated_inv k ws \<and> ws_reaper ws = ReaperJoining"
  shows "wp (register_cancellation_waker OS cancellation) (\<lambda>c (ws', _).
      (c = None \<longleftrightarrow> cancellation = None) \<and> gated_inv k ws' \<and> ws_reaper ws' = ReaperJoining) E (ws, w)"
proof -
  obtain ws1 w1 where env: "os_env OS (ws, w) = (ws1, w1)" by fastforce
  have ws1: "gated_inv k ws1" "ws_reaper ws1 = ReaperJoining"
    using gated_inv_steps [OF env_steps [OF env]] assms by auto
  show ?thesis
  proof (cases cancellation)
    case None
    then show ?thesis using env ws1 by (simp add: wp_def register_cancellation_waker_def)
  next
    case (Some tok)
    obtain r c w2 where "token_poll tok (token_cancelled tok) w1 = Some (r, c, w2)"
      using token_laws.poll_exact [OF token [OF Some]] by blast
    then show ?thesis
      using Some env ws1 gated_inv_wake [OF ws1(1)] by (simp add: wp_def register_cancellation_waker_def)
  qed
qed

lemma worker_leave_wp:
  assumes "c \<noteq> None \<longrightarrow> cancellation \<noteq> None"
  shows "wp (worker_leave OS cancellation c)
    (\<lambda>_ (ws', _). \<exists>ws1. (worker_step outcomes)\<^sup>*\<^sup>* ws ws1 \<and> ws' = ends_dropped ws1) E (ws, w)"
proof -
  obtain ws1 w1 where env: "os_env OS (ws, w) = (ws1, w1)" by fastforce
  obtain w2 where "drop_cancellation cancellation c w1 = Some w2"
  proof (cases "c = None")
    case True
    then show ?thesis using that by (cases cancellation) (simp_all add: drop_cancellation_def)
  next
    case False
    then have "c = None \<longleftrightarrow> cancellation = None" using assms by blast
    from dropped [OF this] that show ?thesis by blast
  qed
  then show ?thesis using env env_steps [OF env] by (auto simp: wp_def worker_leave_def)
qed

lemma gate_send_wp:
  assumes "gated_inv k ws" and "ws_reaper ws = ReaperJoining"
  shows "wp (worker_access OS gate_send) (\<lambda>started (ws', _). started \<and>
      started_inv outcomes (None, False) ws' \<and> ws_attempt ws' = k) E (ws, w)"
proof (rule access_wp)
  fix ws' w'
  assume "(worker_step outcomes)\<^sup>*\<^sup>* ws ws'"
  from gated_inv_steps [OF this assms(1)] assms(2)
  show "case (snd (gate_send ws'), w') of (u, _) \<Rightarrow> fst (gate_send ws') \<and>
      started_inv outcomes (None, False) u \<and> ws_attempt u = k"
    using gate_send_starts [of k ws' outcomes] by auto
qed

lemma sender_dropped_wp:
  assumes "started_inv outcomes l ws" and "ws_attempt ws = k"
  shows "wp (worker_update OS sender_dropped) (\<lambda>_ (ws', _).
      started_inv outcomes l ws' \<and> ws_attempt ws' = k) E (ws, w)"
proof (rule update_wp)
  fix ws' w'
  assume "(worker_step outcomes)\<^sup>*\<^sup>* ws ws'"
  from started_inv_steps [OF this assms(1)] assms(2)
  show "case (sender_dropped ws', w') of (ws', _) \<Rightarrow> started_inv outcomes l ws' \<and> ws_attempt ws' = k"
    using started_inv_simple(1) [of outcomes l ws'] by (simp add: sender_dropped_def)
qed

text \<open>From the release of the gate to the return.\<close>

lemma worker_released_wp:
  assumes ws: "gated_inv k ws \<and> ws_reaper ws = ReaperJoining"
    and c: "c \<noteq> None \<longrightarrow> cancellation \<noteq> None"
  shows "wp (andthen (beside (worker_access OS gate_send)) (\<lambda>started.
        if \<not> started then
          andthen (beside (worker_leave OS cancellation c)) (\<lambda>_. ok WorkerChannelClosed)
        else
        andthen (beside (worker_update OS sender_dropped)) (\<lambda>_.
        andthen (beside (wait_for_worker OS T grace cancellation timeout)) (\<lambda>outcome.
        andthen (beside (worker_leave OS cancellation c)) (\<lambda>_.
        ok outcome)))))
    (\<lambda>outcome (ws', q', _). q' = q \<and> outcome_ok outcomes k (outcome :: ('e, 'x) blocking_attempt_outcome) ws')
    (\<lambda>(_ :: 'e retry_error) _. False) (ws, q, w)" (is "wp _ ?Q ?E _")
  unfolding wp_andthen [of "beside (worker_access OS gate_send)"] wp_beside prod.case
proof (rule wp_only [OF gate_send_wp [OF conjunct1 [OF ws] conjunct2 [OF ws]]], goal_cases)
  case (1 started s)
  obtain ws1 w1 where s: "s = (ws1, w1)" by (cases s)
  have ws1: "started" "started_inv outcomes (None, False) ws1" "ws_attempt ws1 = k" using 1 s by auto
  have leave: "wp (andthen (beside (worker_leave OS cancellation c)) (\<lambda>_. ok outcome)) ?Q ?E (ws2, q, w2)"
    if "outcome_ok outcomes k outcome ws2" for outcome ws2 w2
    unfolding wp_andthen wp_beside prod.case wp_ok
    by (rule wp_only [OF worker_leave_wp [OF c]])
      (use that in \<open>auto intro: outcome_ok_dropped outcome_ok_steps\<close>)
  have wait: "wp (andthen (beside (wait_for_worker OS T grace cancellation timeout)) (\<lambda>outcome.
        andthen (beside (worker_leave OS cancellation c)) (\<lambda>_. ok outcome))) ?Q ?E (ws2, q, w2)"
    if "started_inv outcomes (None, False) ws2" "ws_attempt ws2 = k" for ws2 w2
    unfolding wp_andthen [of "beside (wait_for_worker _ _ _ _ _)"] wp_beside prod.case
    by (rule wp_only [OF wait_for_worker_wp [OF that]]) (auto intro!: leave simp del: wp_andthen)
  have "wp (andthen (beside (worker_update OS sender_dropped)) (\<lambda>_.
        andthen (beside (wait_for_worker OS T grace cancellation timeout)) (\<lambda>outcome.
        andthen (beside (worker_leave OS cancellation c)) (\<lambda>_. ok outcome)))) ?Q ?E (ws1, q, w1)"
    unfolding wp_andthen [of "beside (worker_update _ _)"] wp_beside prod.case
  proof (rule wp_only [OF sender_dropped_wp [OF ws1(2,3)]], goal_cases)
    case (1 _ s')
    then show ?case by (cases s') (simp only: prod.case, rule wait, simp_all only: simp_thms)
  qed
  then show ?case unfolding s prod.case using ws1(1) by (simp only: not_True_eq_False if_False simp_thms)
qed

lemma worker_attempt_run_wp:
  assumes rest: "rest_inv k ws"
    and prepare: "\<And>w'. wp prepare (\<lambda>_ (q', _). R q') (\<lambda>(e :: 'e retry_error) _. F e) (q, w')"
  shows "wp (worker_attempt_run OS T thread_name stack_size grace cancellation timeout prepare)
    (\<lambda>(outcome :: ('e, 'x) blocking_attempt_outcome) (ws', q', _). case outcome of
       WorkerSpawnFailed _ \<Rightarrow> q' = q
     | _ \<Rightarrow> R q' \<and> outcome_ok outcomes (Suc k) outcome ws')
    (\<lambda>e _. F e) (ws, q, w)" (is "wp _ ?Q ?E _")
proof -
  let ?released = "\<lambda>c. andthen (beside (worker_access OS gate_send)) (\<lambda>started.
        if \<not> started then
          andthen (beside (worker_leave OS cancellation c)) (\<lambda>_. ok WorkerChannelClosed)
        else
        andthen (beside (worker_update OS sender_dropped)) (\<lambda>_.
        andthen (beside (wait_for_worker OS T grace cancellation timeout)) (\<lambda>outcome.
        andthen (beside (worker_leave OS cancellation c)) (\<lambda>_.
        ok outcome))))"
  have released: "wp (?released c) ?Q ?E (ws1, q', w1)"
    if "R q'" "gated_inv (Suc k) ws1 \<and> ws_reaper ws1 = ReaperJoining" "c \<noteq> None \<longrightarrow> cancellation \<noteq> None"
    for c ws1 q' w1
    by (rule wp_mono [OF worker_released_wp [OF that(2,3)]])
      (use that(1) in \<open>auto simp: outcome_ok_def split: blocking_attempt_outcome.splits\<close>)
  have refused: "wp (andthen (beside (worker_leave OS cancellation c)) (\<lambda>_. fail e)) ?Q ?E (ws1, q', w1)"
    if "F e" "c \<noteq> None \<longrightarrow> cancellation \<noteq> None" for e c ws1 q' w1
    unfolding wp_andthen wp_beside prod.case wp_fail
    by (rule wp_only [OF worker_leave_wp [OF that(2)]]) (use that(1) in auto)
  have prepared: "wp (andthen (attempt (ctl_world prepare)) (\<lambda>prepared. case prepared of
        Inl error \<Rightarrow> andthen (beside (worker_leave OS cancellation c)) (\<lambda>_. fail error)
      | Inr _ \<Rightarrow> ?released c)) ?Q ?E (ws1, q, w1)"
    if "gated_inv (Suc k) ws1 \<and> ws_reaper ws1 = ReaperJoining" "c = None \<longleftrightarrow> cancellation = None" for c ws1 w1
    unfolding wp_andthen [of "attempt _"] wp_attempt wp_ctl_world prod.case sum.case
  proof (rule wp_mono [OF prepare], goal_cases)
    case (1 _ s')
    then show ?case
      using that by (cases s') (simp only: prod.case, rule released, simp_all only: simp_thms)
  next
    case (2 e s')
    then show ?case
      using that by (cases s') (simp only: prod.case, rule refused, simp_all only: simp_thms)
  qed
  have registered: "wp (andthen (beside (register_cancellation_waker OS cancellation)) (\<lambda>c.
      andthen (attempt (ctl_world prepare)) (\<lambda>prepared. case prepared of
        Inl error \<Rightarrow> andthen (beside (worker_leave OS cancellation c)) (\<lambda>_. fail error)
      | Inr _ \<Rightarrow> ?released c))) ?Q ?E (ws1, q, w1)"
    if "gated_inv (Suc k) ws1 \<and> ws_reaper ws1 = ReaperJoining" for ws1 w1
    unfolding wp_andthen [of "beside (register_cancellation_waker _ _)"] wp_beside prod.case
    by (rule wp_only [OF register_waker_wp [OF that]]) (auto intro!: prepared simp del: wp_andthen)
  have no_reaper: "wp (andthen (beside (worker_leave OS cancellation None)) (\<lambda>_.
      ok (WorkerSpawnFailed message))) ?Q ?E (ws1, q, w1)" for message ws1 w1
    unfolding wp_andthen wp_beside prod.case wp_ok
    by (rule wp_only [OF worker_leave_wp]) auto
  have reaped: "wp (andthen (beside (spawn_reaper OS)) (\<lambda>reaped. case reaped of
        Inl message \<Rightarrow> andthen (beside (worker_leave OS cancellation None)) (\<lambda>_.
            ok (WorkerSpawnFailed (''reaper: '' @ message)))
      | Inr _ \<Rightarrow> andthen (beside (register_cancellation_waker OS cancellation)) (\<lambda>c.
      andthen (attempt (ctl_world prepare)) (\<lambda>prepared. case prepared of
        Inl error \<Rightarrow> andthen (beside (worker_leave OS cancellation c)) (\<lambda>_. fail error)
      | Inr _ \<Rightarrow> ?released c)))) ?Q ?E (ws1, q, w1)"
    if "gated_inv (Suc k) ws1" for ws1 w1
    unfolding wp_andthen [of "beside (spawn_reaper _)"] wp_beside prod.case
    by (rule wp_only [OF spawn_reaper_wp [OF that]])
      (auto intro!: no_reaper registered simp del: wp_andthen split: sum.splits)
  obtain r w' where spawn: "os_spawn OS thread_name stack_size w = (r, w')" by fastforce
  show ?thesis
  proof (cases "CHR 0x00 \<in> set thread_name")
    case True
    then show ?thesis by (simp add: worker_attempt_run_def)
  next
    case False
    note open_run = worker_attempt_run_def if_not_P [OF False] wp_andthen [of "beside (worker_spawn _ _ _)"]
      wp_beside wp_worker_spawn prod.case spawn
    show ?thesis
    proof (cases r)
      case (Inl message)
      then show ?thesis unfolding open_run by simp
    next
      case (Inr u)
      show ?thesis
        unfolding open_run Inr sum.case prod.case by (rule reaped [OF gated_inv_spawned [OF rest]])
    qed
  qed
qed

end

end
