(* ===== verification/Worker_Sim.thy ===== *)
theory Worker_Sim
  imports Worker_Laws
begin

text \<open>
  The simulated world of \<open>Runtime_Sim\<close> with threads: other threads move one step at a time
  before every access, and run to their end while the caller blocks.  The first attempt's
  operation fails, later ones return their attempt's number.  The laws of a worker attempt
  hold there.
\<close>

definition sim_outcome :: "nat \<Rightarrow> panic_payload + (string + nat)" where
  "sim_outcome n = Inr (if n < 2 then Inl ''refused'' else Inr n)"

definition sim_outcomes :: "nat \<Rightarrow> panic_payload + (string + nat) \<Rightarrow> bool" where
  "sim_outcomes n outcome \<longleftrightarrow> outcome = sim_outcome n"

text \<open>The next step of the worker, or of the reaper once the worker is gone.\<close>

definition sim_advance :: "(nat, string) worker_system \<Rightarrow> (nat, string) worker_system" where
  "sim_advance s = (case ws_phase s of
     WorkerGated \<Rightarrow> if ws_gate_open s then s else s\<lparr>ws_phase := WorkerExited (Inr ())\<rparr>
   | WorkerRunning \<Rightarrow>
       (case worker_call (sim_outcome (ws_attempt s)) (ws_slot s) of
          (r, slot) \<Rightarrow> s\<lparr>ws_phase := WorkerReturned r, ws_slot := slot\<rparr>)
   | WorkerReturned r \<Rightarrow> worker_send (EventCompleted r) (s\<lparr>ws_phase := WorkerSent\<rparr>)
   | WorkerSent \<Rightarrow> s\<lparr>ws_phase := WorkerExited (Inr ())\<rparr>
   | WorkerExited r \<Rightarrow>
       (case ws_reaper s of
          ReaperJoining \<Rightarrow> s\<lparr>ws_reaper := ReaperJoined (join_result r)\<rparr>
        | ReaperJoined j \<Rightarrow> worker_send (EventJoined j) (s\<lparr>ws_reaper := ReaperDone\<rparr>)
        | _ \<Rightarrow> s))"

definition sim_finish :: "(nat, string) worker_system \<Rightarrow> (nat, string) worker_system" where
  "sim_finish s = (sim_advance ^^ 5) s"

definition sim_os :: "(nat, string, sim_world) worker_os" where
  "sim_os = \<lparr>os_spawn = (\<lambda>_ _ w. (Inr (), w)), os_spawn_reaper = (\<lambda>w. (Inr (), w)),
     os_env = (\<lambda>(ws, w). (sim_advance ws, w)),
     os_block = (\<lambda>(ws, w). Some (sim_finish ws, w)),
     os_block_for = (\<lambda>d (ws, w). (sim_finish ws, w\<lparr>sim_time := sim_time w + d\<rparr>)),
     os_now = (\<lambda>w. (sim_time w, w)), os_instant_limit = 2 ^ 63\<rparr>"

lemma sim_advance_step: "(worker_step sim_outcomes)\<^sup>*\<^sup>* s (sim_advance s)"
proof -
  have "sim_advance s = s \<or> worker_step sim_outcomes s (sim_advance s)"
    unfolding sim_advance_def
    by (auto split: worker_phase.split reaper_phase.split prod.split simp: sim_outcomes_def
        intro: worker_step.intros)
  then show ?thesis by auto
qed

lemma sim_finish_steps: "(worker_step sim_outcomes)\<^sup>*\<^sup>* s (sim_finish s)"
proof -
  have "(worker_step sim_outcomes)\<^sup>*\<^sup>* s ((sim_advance ^^ n) s)" for n
    by (induction n) (auto intro: rtranclp_trans [OF _ sim_advance_step])
  then show ?thesis by (simp add: sim_finish_def)
qed

interpretation sim_threads: worker_threads sim_os sim_outcomes
  by standard (auto simp: sim_os_def intro: sim_advance_step sim_finish_steps)

section \<open>Progress\<close>

text \<open>The events still to be received: queued, or to be sent.\<close>

definition events_left :: "('v, 'e) worker_system \<Rightarrow> nat" where
  "events_left s = length (ws_queue s) +
     (case ws_phase s of WorkerSent \<Rightarrow> 0 | WorkerExited _ \<Rightarrow> 0 | _ \<Rightarrow> 1) +
     (if ws_reaper s = ReaperDone then 0 else 1)"

lemma events_left_advance: "events_left (sim_advance s) \<le> events_left s"
  by (auto simp: events_left_def sim_advance_def worker_send_def
      split: worker_phase.split reaper_phase.split prod.split)

lemma events_left_finish: "events_left (sim_finish s) \<le> events_left s"
proof -
  have "events_left ((sim_advance ^^ n) s) \<le> events_left s" for n
    by (induction n) (auto intro: order_trans [OF events_left_advance])
  then show ?thesis by (simp add: sim_finish_def)
qed

lemma events_left_receive: "receive_now s = (Received ev, t) \<Longrightarrow> events_left t < events_left s"
  by (auto simp: receive_now_def events_left_def event_popped_def split: list.splits if_splits)

text \<open>A started worker and its reaper are done after at most five steps.\<close>

definition steps_left :: "('v, 'e) worker_system \<Rightarrow> nat" where
  "steps_left s = (case ws_phase s of
     WorkerGated \<Rightarrow> 6
   | WorkerRunning \<Rightarrow> 5
   | WorkerReturned _ \<Rightarrow> 4
   | WorkerSent \<Rightarrow> 3
   | WorkerExited _ \<Rightarrow>
       (case ws_reaper s of ReaperAbsent \<Rightarrow> 0 | ReaperJoining \<Rightarrow> 2 | ReaperJoined _ \<Rightarrow> 1 | ReaperDone \<Rightarrow> 0))"

lemma steps_left_advance:
  "ws_phase s \<noteq> WorkerGated \<Longrightarrow> ws_reaper s = ReaperJoining \<or> (\<exists>r. ws_phase s = WorkerExited r) \<Longrightarrow>
   steps_left (sim_advance s) \<le> steps_left s - 1"
  by (auto simp: steps_left_def sim_advance_def split: worker_phase.split reaper_phase.split prod.split)

lemma sim_finish_done:
  assumes "started_inv sim_outcomes l s"
  shows "ws_reaper (sim_finish s) = ReaperDone"
proof -
  have inv: "started_inv sim_outcomes l ((sim_advance ^^ n) s)" for n
  proof (induction n)
    case (Suc n)
    then show ?case using started_inv_steps [OF sim_advance_step] by simp
  qed (use assms in simp)
  have "steps_left ((sim_advance ^^ n) s) \<le> 5 - n" for n
  proof (induction n)
    case 0
    then show ?case
      using assms by (auto simp: steps_left_def started_inv_def split: worker_phase.split reaper_phase.split)
  next
    case (Suc n)
    have "steps_left (sim_advance ((sim_advance ^^ n) s)) \<le> steps_left ((sim_advance ^^ n) s) - 1"
      using inv [of n] by (intro steps_left_advance) (auto simp: started_inv_def)
    then show ?case using Suc by simp
  qed
  from this [of 5] have "steps_left (sim_finish s) = 0" by (simp add: sim_finish_def)
  then show ?thesis
    using inv [of 5]
    by (auto simp: sim_finish_def steps_left_def started_inv_def split: worker_phase.splits reaper_phase.splits)
qed

lemma sim_recv_returns:
  assumes "started_inv sim_outcomes l s" and "\<not> snd l"
  shows "fst (receive_now (sim_finish s)) \<noteq> NothingYet"
proof -
  have inv: "started_inv sim_outcomes l (sim_finish s)"
    using started_inv_steps [OF sim_finish_steps assms(1)] by simp
  have "ws_queue (sim_finish s) \<noteq> []"
    using inv sim_finish_done [OF assms(1)] assms(2) by (auto simp: started_inv_def)
  then show ?thesis by (auto simp: receive_now_def split: list.split)
qed

section \<open>The laws\<close>

lemma sim_received:
  "receive_now (sim_advance s) = (Received ev, t) \<Longrightarrow> events_left t < events_left s"
  "receive_now (sim_finish s) = (Received ev, t) \<Longrightarrow> events_left t < events_left s"
  using events_left_receive events_left_advance events_left_finish by (blast intro: less_le_trans)+

lemma sim_observe_progress:
  assumes "(observe_pass sim_os grace deadline :: (_, 'y, _) prog) s = Some (Inr None, t)"
  shows "events_left (fst t) < events_left (fst s)"
  using assms
  by (cases s) (auto simp: observe_pass_def observe_event_def worker_try_recv_def worker_access_def
      worker_recv_def worker_recv_timeout_def ctl_world_def world_step_def sim_os_def prog_defs exit_answer_def
      split: if_splits option.splits prod.splits received.splits dest!: sim_received)

lemma sim_wait_progress:
  assumes "(wait_worker_pass sim_os sim_timer grace (Some (sim_token k)) :: (_, 'y, (string, string) blocking_attempt_outcome option) prog) s
    = Some (Inr None, t)"
  shows "events_left (fst (snd t)) < events_left (fst (snd s))"
proof -
  have awaited: "events_left (fst (snd t)) < events_left (fst (snd u))"
    if "(worker_next sim_os :: (_, 'y, (string, string) blocking_attempt_outcome option) prog) u = Some (Inr None, t)"
    for u :: "(nat, string, nat \<times> duration, sim_world) worker_wait"
    using that
    by (cases u) (auto simp: worker_next_def worker_recv_def ctl_world_def sim_os_def prog_defs
        split: if_splits option.splits prod.splits received.splits dest!: sim_received)
  have stop: "(andthen (ctl_world m) (\<lambda>r. ok (Some r)) :: (_, 'y, _ option) prog) u \<noteq> Some (Inr None, t)" for m u
    by (auto simp: prog_defs ctl_world_def split: option.splits sum.splits)
  obtain seen timeout ws w where s: "s = ((seen, timeout), ws, w)" by (metis prod.collapse)
  obtain cancelled w1 where flag: "opt_is_cancelled (Some (sim_token k)) w = (cancelled, w1)" by fastforce
  show ?thesis
  proof (cases cancelled)
    case True
    then have "opt_is_cancelled (Some (sim_token k)) w = (True, w1)" using flag by simp
    note run = wait_pass_cancelled [OF this]
    show ?thesis using assms stop unfolding s run by blast
  next
    case False
    obtain timer timeout' w2 where poll: "(worker_poll_timer sim_timer :: (_, 'y, _) prog)
        ((seen, timeout), ws, w1) = Some (Inr timer, (seen, timeout'), ws, w2)"
      using worker_poll_timer_runs [of sim_timer seen timeout ws w1, where 'y = 'y] by blast
    have "opt_is_cancelled (Some (sim_token k)) w = (False, w1)" using flag False by simp
    note run = wait_pass_polls [OF this poll]
    show ?thesis
    proof (cases timer)
      case None
      then show ?thesis using awaited [of "((seen, timeout'), ws, w2)"] assms run by (simp add: s)
    next
      case (Some p)
      obtain scope r where p: "p = (scope, r)" by (cases p)
      show ?thesis
        using assms stop unfolding s run Some p option.case prod.case
        by (cases r) (simp_all only: sum.case, blast+)
    qed
  qed
qed

interpretation sim_worker: worker_laws sim_os sim_outcomes sim_timer sim_park sim_pend id sim_due
  "Some (sim_token k)" sim_cancelled grace "\<lambda>s. events_left (fst s)" "\<lambda>t. events_left (fst (snd t))" for k grace
proof (intro worker_laws.intro worker_laws_axioms.intro sim_threads.worker_threads_axioms sim_wait.wait_laws_axioms)
  fix l ws w
  assume "started_inv sim_outcomes l ws" and "\<not> snd l"
  from sim_recv_returns [OF this]
  show "\<exists>ws' w'. os_block sim_os (ws, w) = Some (ws', w') \<and> fst (receive_now ws') \<noteq> NothingYet"
    by (simp add: sim_os_def)
qed (rule sim_observe_progress sim_wait_progress; assumption)+

end
