(* ===== verification/Worker_Retry.thy ===== *)
theory Worker_Retry
  imports Worker_Sim
begin

text \<open>
  The worker facade (src/src/executor/worker_retry.rs): every attempt runs on a thread of its own,
  its success value comes back through a slot, and its panic is a failure like any other.
\<close>

section \<open>The facade\<close>

record ('e, 'i, 'x, 'f, 'c, 'w) worker_retry =
  wrt_config :: "('e, 'w) retry_config"
  wrt_thread_name :: string
  wrt_stack_size :: "u64 option"
  wrt_attempt_timeout :: "duration option"
  wrt_flow_timeout :: "duration option"
  wrt_cancellation_grace :: duration
  wrt_cancellation_token :: "('c, 'w) token option"
  wrt_timer :: "('i, 'x, 'f, 'w) timer option"
  wrt_random_source :: "'w random_source option"

definition worker_new :: "('e, 'w) retry_config \<Rightarrow> ('e, 'i, 'x, 'f, 'c, 'w) worker_retry" where
  "worker_new config =
     \<lparr>wrt_config = config, wrt_thread_name = ''qubit-retry-worker'', wrt_stack_size = None,
      wrt_attempt_timeout = None, wrt_flow_timeout = None,
      wrt_cancellation_grace = of_nanos (100 * 1000000), wrt_cancellation_token = None,
      wrt_timer = None, wrt_random_source = None\<rparr>"

definition worker_hard_attempt_timeout ::
  "duration \<Rightarrow> ('e, 'i, 'x, 'f, 'c, 'w) worker_retry \<Rightarrow> ('e, 'i, 'x, 'f, 'c, 'w) worker_retry"
where
  "worker_hard_attempt_timeout timeout r = r\<lparr>wrt_attempt_timeout := Some timeout\<rparr>"

definition worker_hard_flow_timeout ::
  "duration \<Rightarrow> ('e, 'i, 'x, 'f, 'c, 'w) worker_retry \<Rightarrow> ('e, 'i, 'x, 'f, 'c, 'w) worker_retry"
where
  "worker_hard_flow_timeout timeout r = r\<lparr>wrt_flow_timeout := Some timeout\<rparr>"

definition worker_cancellation_grace ::
  "duration \<Rightarrow> ('e, 'i, 'x, 'f, 'c, 'w) worker_retry \<Rightarrow> ('e, 'i, 'x, 'f, 'c, 'w) worker_retry"
where
  "worker_cancellation_grace grace r = r\<lparr>wrt_cancellation_grace := grace\<rparr>"

definition worker_set_cancellation_token ::
  "('c, 'w) token \<Rightarrow> ('e, 'i, 'x, 'f, 'c, 'w) worker_retry \<Rightarrow> ('e, 'i, 'x, 'f, 'c, 'w) worker_retry"
where
  "worker_set_cancellation_token tok r = r\<lparr>wrt_cancellation_token := Some tok\<rparr>"

definition worker_thread_name ::
  "string \<Rightarrow> ('e, 'i, 'x, 'f, 'c, 'w) worker_retry \<Rightarrow> ('e, 'i, 'x, 'f, 'c, 'w) worker_retry"
where
  "worker_thread_name name r = r\<lparr>wrt_thread_name := name\<rparr>"

definition worker_stack_size ::
  "u64 \<Rightarrow> ('e, 'i, 'x, 'f, 'c, 'w) worker_retry \<Rightarrow> ('e, 'i, 'x, 'f, 'c, 'w) worker_retry"
where
  "worker_stack_size stack_size r = r\<lparr>wrt_stack_size := Some stack_size\<rparr>"

definition worker_set_timer ::
  "('i, 'x, 'f, 'w) timer \<Rightarrow> ('e, 'i, 'x, 'f, 'c, 'w) worker_retry \<Rightarrow> ('e, 'i, 'x, 'f, 'c, 'w) worker_retry"
where
  "worker_set_timer T r = r\<lparr>wrt_timer := Some T\<rparr>"

definition worker_set_random_source ::
  "'w random_source \<Rightarrow> ('e, 'i, 'x, 'f, 'c, 'w) worker_retry \<Rightarrow> ('e, 'i, 'x, 'f, 'c, 'w) worker_retry"
where
  "worker_set_random_source random r = r\<lparr>wrt_random_source := Some random\<rparr>"

section \<open>Runs\<close>

type_synonym ('v, 'i, 'b, 'w, 'e, 'y, 'a) worker_flow =
  "(('v, 'e) worker_system \<times> ('i, 'b, 'w, 'e) flow_controller \<times> 'w, 'y, 'a) prog"

text \<open>The announcement of an attempt, its plan, and the timer registered for it.\<close>

definition worker_prepare ::
  "('i, 'd, 'x, 'b, 'w) deps \<Rightarrow> ('i, 'x, 'f, 'w) timer \<Rightarrow> ('c, 'w) token option
     \<Rightarrow> ('i, 'b, 'w, 'e, 'e retry_error, 'i prepared_attempt_plan \<times> (retry_timeout_scope \<times> 'f) option) ctl"
where
  "worker_prepare X T cancellation =
     andthen (ctl_before_attempt X (timer_clock T) (flag_of cancellation)) (\<lambda>admission_sample.
     andthen (ctl_prepare_attempt X admission_sample) (\<lambda>plan.
     andthen (ctl_world (world_step (register_timeout T (plan_deadline plan)))) (\<lambda>r.
     case r of
       Inl error \<Rightarrow> ctl_timer_failed X T error
     | Inr None \<Rightarrow> ok (plan, None)
     | Inr (Some future) \<Rightarrow>
         andthen (expect (plan_scope plan)) (\<lambda>scope.
         ok (plan, Some (scope, future))))))"

definition worker_failed ::
  "('i, 'd, 'x, 'b, 'w) deps \<Rightarrow> ('i, 'x, 'f, 'w) timer \<Rightarrow> bool \<Rightarrow> retry_infrastructure_failure
     \<Rightarrow> ('i, 'b, 'w, 'e, 'e retry_error, 'a) ctl"
where
  "worker_failed X T active failure =
     andthen (ctl_now (timer_clock T)) (\<lambda>now.
     return_err (if active then ctl_record_active_infrastructure_failure X failure now
       else ctl_record_inactive_infrastructure_failure X failure now))"

text \<open>A value nobody will use is dropped once its worker has exited.\<close>

definition discards_value :: "('e, 'x) blocking_attempt_outcome \<Rightarrow> bool" where
  "discards_value outcome = (case outcome of
     AttemptFinished (Inl _) \<Rightarrow> True
   | WorkerStopped _ \<Rightarrow> True
   | WorkerTimerFailed _ \<Rightarrow> True
   | _ \<Rightarrow> False)"

definition discard_value :: "('v, 'e, 'w) worker_os \<Rightarrow> ('v, 'e, 'w, 'y, unit) worker" where
  "discard_value OS = worker_update OS (\<lambda>ws. snd (value_taken ws))"

text \<open>\<open>take_value\<close> expects a value.\<close>

definition take_value :: "('v, 'e, 'w) worker_os \<Rightarrow> ('v, 'e, 'w, 'y, 'v) worker" where
  "take_value OS = andthen (worker_access OS value_taken) expect"

definition worker_retry_later ::
  "('i, 'd, 'x, 'b, 'w) deps \<Rightarrow> ('i, 'x, 'f, 'w) timer \<Rightarrow> ('w \<Rightarrow> 'w option) \<Rightarrow> ('c, 'w) token option
     \<Rightarrow> 'e attempt_failure \<Rightarrow> ('v, 'i, 'b, 'w, 'e, 'e retry_error stop, 'v retry_success option) worker_flow"
where
  "worker_retry_later X T park cancellation failure =
     ctl_world (andthen (checked (finish_failed_attempt X T park cancellation failure)) (\<lambda>_. ok None))"

definition worker_outcome ::
  "('v, 'e, 'w) worker_os \<Rightarrow> ('i, 'd, 'x, 'b, 'w) deps \<Rightarrow> ('i, 'x, 'f, 'w) timer \<Rightarrow> ('w \<Rightarrow> 'w option)
     \<Rightarrow> ('c, 'w) token option \<Rightarrow> ('e, 'x) blocking_attempt_outcome
     \<Rightarrow> ('v, 'i, 'b, 'w, 'e, 'e retry_error stop, 'v retry_success option) worker_flow"
where
  "worker_outcome OS X T park cancellation outcome =
     (case outcome of
        AttemptFinished (Inr _) \<Rightarrow>
          andthen (checked (ctl_world (ctl_finish_success X (timer_clock T)))) (\<lambda>context.
          andthen (beside (take_value OS)) (\<lambda>v.
          ok (Some (retry_success_new v context))))
      | WorkerTimerFailed error \<Rightarrow>
          checked (ctl_world (ctl_timer_failed X T error))
      | WorkerSpawnFailed message \<Rightarrow>
          checked (ctl_world (worker_failed X T False (InfraWorkerSpawn message)))
      | WorkerChannelClosed \<Rightarrow> checked (ctl_world (worker_failed X T True InfraWorkerChannelClosed))
      | WorkerStillRunning trigger \<Rightarrow>
          checked (ctl_world (worker_failed X T True (InfraWorkerStillRunning trigger)))
      | WorkerStopped trigger \<Rightarrow>
          (case trigger of
             TriggerTimerFailure \<Rightarrow> panic
           | TriggerCancellation \<Rightarrow>
               checked (ctl_world (return_err (ctl_record_attempt_cancellation X (timer_clock T))))
           | TriggerAttemptTimeout \<Rightarrow>
               worker_retry_later X T park cancellation (FailTimedOut ScopeAttempt)
           | TriggerFlowTimeout \<Rightarrow>
               worker_retry_later X T park cancellation (FailTimedOut ScopeFlow))
      | AttemptFinished (Inl failure) \<Rightarrow> worker_retry_later X T park cancellation failure)"

definition worker_round ::
  "('v, 'e, 'w) worker_os \<Rightarrow> ('i, 'd, 'x, 'b, 'w) deps \<Rightarrow> ('i, 'x, 'f, 'w) timer \<Rightarrow> ('w \<Rightarrow> 'w option)
     \<Rightarrow> string \<Rightarrow> u64 option \<Rightarrow> duration \<Rightarrow> ('c, 'w) token option
     \<Rightarrow> ('v, 'i, 'b, 'w, 'e, 'e retry_error stop, 'v retry_success option) worker_flow"
where
  "worker_round OS X T park thread_name stack_size grace cancellation =
     andthen (checked (ctl_world (worker_prepare X T cancellation))) (\<lambda>(plan, timeout).
     andthen (checked (worker_attempt_run OS T thread_name stack_size grace cancellation timeout
         (ctl_commit_prepared_attempt X plan (timer_clock T) (flag_of cancellation)))) (\<lambda>outcome.
     andthen (if discards_value outcome then beside (discard_value OS) else ok ()) (\<lambda>_.
     worker_outcome OS X T park cancellation outcome)))"

definition worker_run_inner ::
  "('v, 'e, 'w) worker_os \<Rightarrow> ('i, 'd, 'x, 'b, 'w) deps \<Rightarrow> ('i, 'x, 'f, 'w) timer \<Rightarrow> ('w \<Rightarrow> 'w option)
     \<Rightarrow> ('e, 'i, 'x, 'f, 'c, 'w) worker_retry \<Rightarrow> ('w, 'e retry_error stop, 'v retry_success) prog"
where
  "worker_run_inner OS X std_timer park r = (\<lambda>w.
     let T = chosen_timer std_timer (wrt_timer r);
         (now, w') = timer_clock T w;
         controller = ctl_new X now (wrt_config r) (wrt_random_source r) (wrt_attempt_timeout r)
           (wrt_flow_timeout r)
     in (case loops (worker_round OS X T park (wrt_thread_name r) (wrt_stack_size r)
             (wrt_cancellation_grace r) (wrt_cancellation_token r)) (worker_system_new, controller, w') of
           None \<Rightarrow> None
         | Some (result, _, _, w'') \<Rightarrow> Some (result, w'')))"

definition worker_run ::
  "('v, 'e, 'w) worker_os \<Rightarrow> ('i, 'd, 'x, 'b, 'w) deps \<Rightarrow> ('i, 'x, 'f, 'w) timer \<Rightarrow> ('w \<Rightarrow> 'w option)
     \<Rightarrow> ('e, 'i, 'x, 'f, 'c, 'w) worker_retry \<Rightarrow> ('w, unit, ('v, 'e) retry_result) prog"
where
  "worker_run OS X std_timer park r = complete_run (wrt_config r) (worker_run_inner OS X std_timer park r)"

section \<open>Rounds\<close>

text \<open>
  Between rounds the flow is idle and the last worker gone; a success carries the value the
  operation returned in the attempt its context counts.
\<close>

definition worker_idle ::
  "('i, 'd, 'x, 'b, 'w) deps \<Rightarrow> ('i, 'b, 'w, 'e) flow_controller \<Rightarrow> nat
     \<Rightarrow> ('v, 'e) worker_system \<times> ('i, 'b, 'w, 'e) flow_controller \<times> 'w \<Rightarrow> bool"
where
  "worker_idle X K n s \<longleftrightarrow> flow_idle X K n (snd s) \<and> rest_inv n (fst s)"

definition worker_success ::
  "(nat \<Rightarrow> panic_payload + ('e + 'v) \<Rightarrow> bool) \<Rightarrow> nat \<Rightarrow> 'v retry_success \<Rightarrow> bool"
where
  "worker_success outcomes M success \<longleftrightarrow> success_ok M success \<and>
     outcomes (unat (ctx_attempts (suc_context success))) (Inr (Inr (suc_value success)))"

definition worker_post ::
  "(nat \<Rightarrow> panic_payload + ('e + 'v) \<Rightarrow> bool) \<Rightarrow> ('i, 'd, 'x, 'b, 'w) deps
     \<Rightarrow> ('i, 'b, 'w, 'e) flow_controller \<Rightarrow> nat \<Rightarrow> 'v retry_success option
     \<Rightarrow> ('v, 'e) worker_system \<times> ('i, 'b, 'w, 'e) flow_controller \<times> 'w \<Rightarrow> bool"
where
  "worker_post outcomes X K n r s = (case r of
     None \<Rightarrow> worker_idle X K (Suc n) s | Some a \<Rightarrow> worker_success outcomes (ctl_max K) a)"

locale worker_flow = deps_laws X +
    worker_laws OS outcomes T park pend target due cancellation cancelled grace exit_rank wait_rank
  for X :: "('i, 'd, 'x, 'b, 'w) deps" and OS :: "('v, 'e, 'w) worker_os" and outcomes
    and T :: "('i, 'x, 'f, 'w) timer" and park pend target due
    and cancellation :: "('c, 'w) token option" and cancelled grace exit_rank wait_rank
begin

lemma wait_laws: "wait_laws T park pend target due cancellation cancelled"
  by unfold_locales

lemma worker_failed_wp:
  assumes "ctl_ok X K n b lf s"
  shows "wp (worker_failed X T active failure) Q (ctl_ends X K n lf) s"
  using assms unfolding worker_failed_def
  by (auto split: prod.split intro!: wp_mono [OF ctl_infrastructure_records_wp(1)]
      wp_mono [OF ctl_infrastructure_records_wp(2)] intro: ctl_ok_world)

lemma worker_prepare_wp:
  assumes "ctl_ok X K n False lf s"
  shows "wp (worker_prepare X T cancellation) (\<lambda>_. ctl_ok X K n False lf) (ctl_ends X K n lf) s"
  unfolding worker_prepare_def
proof (rule wp_seq [OF ctl_before_attempt_wp [OF assms]], rule wp_seq)
  fix now t
  assume "ctl_sampled X K n False lf now t \<and> n < ctl_max K \<and> within_flow X (fc_state (fst t)) \<and>
     (\<exists>k. fc_current_attempt (fst t) = Some k \<and> unat (nz_get k) = Suc n)"
  then have "ctl_ok X K n False lf t" by (simp add: ctl_sampled_def)
  from ctl_prepare_attempt_wp [OF this]
  show "wp (ctl_prepare_attempt X now) (\<lambda>_ t. ctl_ok X K n False lf t) (ctl_ends X K n lf) t"
    by (rule wp_mono) simp_all
next
  fix plan t
  assume t: "ctl_ok X K n False lf t"
  obtain fc w where p: "t = (fc, w)" by (cases t)
  obtain r w' where r: "register_timeout T (plan_deadline plan) w = (r, w')" by fastforce
  have t': "ctl_ok X K n False lf (fc, w')" using t p ctl_ok_world [of X K n False lf fc w w'] by simp
  have scope: "plan_scope plan \<noteq> None" if "r = Inr (Some future)" for future
    using that r by (auto simp: register_timeout_def plan_scope_def plan_deadline_def map_right_def
        split: option.splits prod.splits sum.splits)
  show "wp (andthen (ctl_world (world_step (register_timeout T (plan_deadline plan)))) (\<lambda>r. case r of
       Inl error \<Rightarrow> ctl_timer_failed X T error
     | Inr None \<Rightarrow> ok (plan, None)
     | Inr (Some future) \<Rightarrow> andthen (expect (plan_scope plan)) (\<lambda>scope. ok (plan, Some (scope, future)))))
     (\<lambda>_. ctl_ok X K n False lf) (ctl_ends X K n lf) t"
    using t' ctl_timer_failed_wp(1) [OF t'] scope
    by (auto simp: p r split: sum.split option.split)
qed

lemma worker_retry_later_wp:
  assumes "ctl_ok X K (Suc n) True lf (fc, w)" and "rest_inv (Suc n) ws"
  shows "wp (worker_retry_later X T park cancellation failure) (worker_post outcomes X K n)
    (\<lambda>e _. stop_ok (ctl_max K) e) (ws, fc, w)"
  unfolding worker_retry_later_def wp_ctl_world prod.case wp_andthen wp_checked
  by (rule wp_mono [OF finish_failed_attempt_wp [OF wait_laws assms(1)]])
    (use assms(2) ended_stop in
      \<open>auto simp: worker_post_def worker_idle_def flow_idle_def simp del: stop_ok.simps\<close>)

text \<open>The decision after an attempt, for every outcome the executor can report.\<close>

lemma worker_outcome_wp:
  assumes ok: "ctl_ok X K (Suc n) True lf (fc, w)"
    and outcome: "outcome_ok outcomes (Suc n) outcome ws"
    and discarded: "discards_value outcome \<Longrightarrow> ws_slot ws = None"
  shows "wp (worker_outcome OS X T park cancellation outcome) (worker_post outcomes X K n)
    (\<lambda>e _. stop_ok (ctl_max K) e) (ws, fc, w)"
proof -
  have ended: "wp (checked (ctl_world m)) Q (\<lambda>e _. stop_ok (ctl_max K) e) (ws, fc, w)"
    if "wp m (\<lambda>_ _. False) (ctl_ends X K (Suc n) lf) (fc, w)" for m :: "('i, 'b, 'w, 'e, 'e retry_error, 'v retry_success option) ctl" and Q
    unfolding wp_checked wp_ctl_world prod.case
    by (rule wp_mono [OF that]) (auto dest: ended_stop)
  have rest: "rest_inv (Suc n) ws" if "worker_ended (Suc n) ws" "ws_slot ws = None"
    using that by (simp add: rest_inv_def worker_ended_def)
  show ?thesis
  proof (cases outcome)
    case (AttemptFinished r)
    show ?thesis
    proof (cases r)
      case (Inl failure)
      then have "rest_inv (Suc n) ws"
        using outcome discarded AttemptFinished rest by (simp add: outcome_ok_def discards_value_def)
      from worker_retry_later_wp [OF ok this] show ?thesis
        using AttemptFinished Inl by (simp add: worker_outcome_def)
    next
      case (Inr u)
      have val: "value_ok outcomes ws" "ws_attempt ws = Suc n" "worker_ended (Suc n) ws"
        using outcome AttemptFinished Inr by (simp_all add: outcome_ok_def worker_ended_def)
      have take: "wp (andthen (beside (take_value OS)) (\<lambda>v. ok (Some (retry_success_new v ctx))))
          (worker_post outcomes X K n) (\<lambda>(e :: 'e retry_error stop) _. stop_ok (ctl_max K) e) (ws, s)"
        if "ctx_ok (ctl_max K) (Suc n) ctx" "ctx_current_attempt ctx = None" for ctx s
      proof (cases s)
        case (Pair fc' w')
        have taken: "wp (take_value OS) (\<lambda>v _. outcomes (Suc n) (Inr (Inr v)))
            (\<lambda>(_ :: 'e retry_error stop) _. False) (ws, w')"
          unfolding take_value_def wp_andthen
        proof (rule access_wp)
          fix ws' w''
          assume steps: "(worker_step outcomes)\<^sup>*\<^sup>* ws ws'"
          obtain r where "ws_phase ws = WorkerExited r" using val(3) by (auto simp: worker_ended_def)
          from exited_steps [OF steps this] val(1,2)
          show "wp (expect (fst (value_taken ws'))) (\<lambda>v _. outcomes (Suc n) (Inr (Inr v)))
              (\<lambda>(_ :: 'e retry_error stop) _. False) (snd (value_taken ws'), w'')"
            by (auto simp: value_taken_def value_ok_def)
        qed
        have "Suc n \<le> ctl_max K" using ctl_ok_le [OF ok] .
        then show ?thesis
          unfolding Pair wp_andthen wp_beside prod.case wp_ok
          by (intro wp_only [OF taken]) (use that in \<open>auto simp: worker_post_def worker_success_def success_ok_def
              retry_success_new_def ctx_ok_def\<close>)
      qed
      show ?thesis
        unfolding worker_outcome_def AttemptFinished Inr blocking_attempt_outcome.case sum.case
          wp_andthen [of "checked _"] wp_checked wp_ctl_world prod.case
        by (rule wp_mono [OF ctl_finish_success_wp [OF ok]]) (auto intro!: take dest: ended_stop simp del: wp_andthen)
    qed
  next
    case (WorkerStopped trigger)
    have "rest_inv (Suc n) ws" "trigger \<noteq> TriggerTimerFailure"
      using outcome discarded WorkerStopped rest by (simp_all add: outcome_ok_def discards_value_def)
    then show ?thesis
      using WorkerStopped worker_retry_later_wp [OF ok] ended [of "return_err (ctl_record_attempt_cancellation X (timer_clock T))"]
        ctl_record_attempt_cancellation_wp [OF ok, of "timer_clock T" "ctl_ends X K (Suc n) lf"]
      by (cases trigger) (simp_all add: worker_outcome_def)
  next
    case (WorkerTimerFailed e)
    then show ?thesis using ended [OF ctl_timer_failed_wp(1) [OF ok]] by (simp add: worker_outcome_def)
  qed (use outcome ended [OF worker_failed_wp [OF ok]] in \<open>simp_all add: outcome_ok_def worker_outcome_def\<close>)
qed

lemma discard_value_wp:
  assumes "outcome_ok outcomes k outcome ws" and "discards_value outcome"
  shows "wp (discard_value OS) (\<lambda>_ (ws', _). outcome_ok outcomes k outcome ws' \<and> ws_slot ws' = None) E (ws, w)"
  unfolding discard_value_def
proof (rule update_wp)
  fix ws' w'
  assume "(worker_step outcomes)\<^sup>*\<^sup>* ws ws'"
  from outcome_ok_steps [OF this assms(1)] assms(2)
  show "case (snd (value_taken ws'), w') of (u, _) \<Rightarrow> outcome_ok outcomes k outcome u \<and> ws_slot u = None"
    by (auto simp: outcome_ok_def discards_value_def value_taken_def worker_ended_def
        split: blocking_attempt_outcome.splits sum.splits)
qed

lemma worker_round_wp:
  assumes "worker_idle X K n s"
  shows "wp (worker_round OS X T park thread_name stack_size grace cancellation)
    (worker_post outcomes X K n) (\<lambda>e _. stop_ok (ctl_max K) e) s"
    (is "wp _ ?Q ?E _")
proof -
  obtain ws fc w where s: "s = (ws, fc, w)" by (cases s)
  obtain lf where ok: "ctl_ok X K n False lf (fc, w)" and lf: "lf = None \<longleftrightarrow> n = 0" and rest: "rest_inv n ws"
    using assms s by (auto simp: worker_idle_def flow_idle_def)
  have decide: "wp (andthen (if discards_value outcome then beside (discard_value OS) else ok ()) (\<lambda>_.
      worker_outcome OS X T park cancellation outcome)) ?Q ?E (ws', fc', w')"
    if active: "\<And>w. ctl_ok X K (Suc n) True lf (fc', w)" and "outcome_ok outcomes (Suc n) outcome ws'"
    for outcome ws' fc' w'
  proof (cases "discards_value outcome")
    case True
    show ?thesis
      unfolding if_P [OF True] wp_andthen wp_beside prod.case
    proof (rule wp_only [OF discard_value_wp [OF that(2) True]])
      fix u and t :: "('v, 'e) worker_system \<times> 'w"
      assume "case t of (ws', _) \<Rightarrow> outcome_ok outcomes (Suc n) outcome ws' \<and> ws_slot ws' = None"
      then show "case t of (ws', w') \<Rightarrow>
          wp (worker_outcome OS X T park cancellation outcome) ?Q ?E (ws', fc', w')"
        by (auto intro: worker_outcome_wp [OF active])
    qed
  next
    case False
    then show ?thesis by (simp, intro worker_outcome_wp [OF active that(2)]) simp
  qed
  have unspawned: "wp (andthen (if discards_value (WorkerSpawnFailed message) then beside (discard_value OS) else ok ()) (\<lambda>_.
      worker_outcome OS X T park cancellation (WorkerSpawnFailed message))) ?Q ?E (ws', fc', w')"
    if "ctl_ok X K n False lf (fc', w')" for message ws' fc' w'
    unfolding worker_outcome_def blocking_attempt_outcome.case discards_value_def
    by (simp del: stop_ok.simps, rule wp_mono [OF worker_failed_wp [OF that]])
      (auto dest: refused_stop [OF _ lf] simp del: stop_ok.simps)
  have execute: "wp (andthen (checked (worker_attempt_run OS T thread_name stack_size grace cancellation timeout
         (ctl_commit_prepared_attempt X plan (timer_clock T) (flag_of cancellation)))) (\<lambda>outcome.
     andthen (if discards_value outcome then beside (discard_value OS) else ok ()) (\<lambda>_.
     worker_outcome OS X T park cancellation outcome))) ?Q ?E (ws, t)"
    if t: "ctl_ok X K n False lf t" for plan timeout t
  proof (cases t)
    case (Pair fc' w')
    have ok': "ctl_ok X K n False lf (fc', u)" for u
      using t Pair ctl_ok_world [of X K n False lf fc' w' u] by simp
    have commit: "wp (ctl_commit_prepared_attempt X plan (timer_clock T) (flag_of cancellation))
        (\<lambda>_ (q, _). \<forall>w. ctl_ok X K (Suc n) True lf (q, w)) (\<lambda>e _. stop_ok (ctl_max K) (StopError e)) (fc', u)" for u
      by (rule wp_mono [OF ctl_commit_prepared_attempt_wp [OF ok']])
        (auto dest: refused_stop [OF _ lf] ctl_ok_world simp del: stop_ok.simps)
    show ?thesis
      unfolding Pair wp_andthen [of "checked _"] wp_checked
    proof (rule wp_mono [OF worker_attempt_run_wp [OF rest commit]], goal_cases)
      case (1 outcome u)
      obtain ws'' fc'' w'' where u: "u = (ws'', fc'', w'')" by (cases u)
      show ?case
      proof (cases "\<exists>message. outcome = WorkerSpawnFailed message")
        case True
        then obtain message where message: "outcome = WorkerSpawnFailed message" by blast
        then have "fc'' = fc'" using 1 u by simp
        then show ?thesis unfolding u message by (simp only: unspawned [OF ok'])
      next
        case False
        then have "\<forall>w. ctl_ok X K (Suc n) True lf (fc'', w)" "outcome_ok outcomes (Suc n) outcome ws''"
          using 1 u by (auto split: blocking_attempt_outcome.splits)
        then show ?thesis unfolding u by (intro decide) blast+
      qed
    qed
  qed
  show ?thesis
    unfolding worker_round_def s wp_andthen [of "checked (ctl_world (worker_prepare _ _ _))"] wp_checked
      wp_ctl_world prod.case
    by (rule wp_mono [OF worker_prepare_wp [OF ok]])
      (auto intro!: execute dest: refused_stop [OF _ lf] simp del: wp_andthen stop_ok.simps)
qed

end

sublocale worker_flow \<subseteq> worker: rounds "worker_round OS X T park thread_name stack_size grace cancellation"
  "worker_idle X K" "ctl_max K" "\<lambda>a _. worker_success outcomes (ctl_max K) a"
  "\<lambda>e _. stop_ok (ctl_max K) e" for thread_name stack_size K
  by (unfold_locales, rule worker_round_wp [unfolded worker_post_def [abs_def]])
    (auto simp: worker_idle_def dest: flow_idle_cap)

context worker_flow
begin

lemma worker_loop_ends:
  "worker_idle X K n s \<Longrightarrow> wp (loops (worker_round OS X T park thread_name stack_size grace cancellation))
     (\<lambda>a _. worker_success outcomes (ctl_max K) a) (\<lambda>e _. stop_ok (ctl_max K) e) s"
  by (rule worker.rounds_end)

end

section \<open>Runs end\<close>

text \<open>A success of the run keeps its value; the completion observers add diagnostics only.\<close>

definition worker_result_ok ::
  "(nat \<Rightarrow> panic_payload + ('e + 'v) \<Rightarrow> bool) \<Rightarrow> nat \<Rightarrow> ('v, 'e) retry_result \<Rightarrow> bool"
where
  "worker_result_ok outcomes M r =
     (case r of Inl e \<Rightarrow> error_ok M e | Inr success \<Rightarrow> worker_success outcomes M success)"

lemma worker_complete_ok:
  "worker_result_ok outcomes M (fst (config_complete config r w)) = worker_result_ok outcomes M r"
  by (auto simp: config_complete_def worker_result_ok_def worker_success_def success_ok_def error_ok_def
      success_set_completion_callback_failures_def error_set_completion_callback_failures_def
      split: sum.split prod.split)

lemma worker_complete_run_wp:
  assumes "wp m (\<lambda>s w'. worker_success outcomes M s) (\<lambda>e w'. stop_ok M e) w"
  shows "wp (complete_run config m) (\<lambda>r w'. worker_result_ok outcomes M r) (\<lambda>_ _. True) w"
proof (rule complete_run_keeps)
  show "worker_result_ok outcomes M r'"
    if "config_complete config r w = (r', w')" "worker_result_ok outcomes M r" for r w r' w'
    using that worker_complete_ok [of outcomes M config r w] by simp
qed (rule wp_mono [OF assms], auto simp: worker_result_ok_def split: stop.split)

section \<open>Properties\<close>

text \<open>
  C5. A worker run ends and returns the right value.  Whatever the threads, rules, observers,
  clock and cancelling threads do, and provided the caller is not blocked forever,
  \<open>WorkerRetry::run\<close> returns after at most as many rounds as attempts are allowed; none of
  its internal expectations fails; a success carries a value that the operation returned
  in the attempt its context counts, and every result has a coherent account.
\<close>

theorem worker_run_ends:
  assumes "worker_flow X OS outcomes (chosen_timer std_timer (wrt_timer r)) park pend target due
      (wrt_cancellation_token r) cancelled (wrt_cancellation_grace r) exit_rank wait_rank"
  shows "wp (worker_run OS X std_timer park r)
    (\<lambda>result w'. worker_result_ok outcomes (config_cap (wrt_config r)) result) (\<lambda>_ _. True) w"
  unfolding worker_run_def
proof (rule worker_complete_run_wp)
  let ?T = "chosen_timer std_timer (wrt_timer r)"
  have X: "deps_laws X" using assms by (simp add: worker_flow_def)
  obtain now w' where now: "timer_clock ?T w = (now, w')" by fastforce
  define fc where "fc = ctl_new X now (wrt_config r) (wrt_random_source r) (wrt_attempt_timeout r)
    (wrt_flow_timeout r)"
  have cap: "ctl_max fc = config_cap (wrt_config r)"
    by (simp add: fc_def config_cap_def deps_laws.ctl_max_new [OF X])
  have "worker_idle X fc 0 (worker_system_new, fc, w')"
    using deps_laws.flow_idle_new [OF X fc_def] rest_inv_new by (simp add: worker_idle_def)
  from worker_flow.worker_loop_ends [OF assms this, of "wrt_thread_name r" "wrt_stack_size r"]
  show "wp (worker_run_inner OS X std_timer park r)
      (\<lambda>s w'. worker_success outcomes (config_cap (wrt_config r)) s)
      (\<lambda>e w'. stop_ok (config_cap (wrt_config r)) e) w"
    unfolding cap
    by (auto simp: wp_def worker_run_inner_def now fc_def [symmetric] split: option.splits sum.splits)
qed

text \<open>A run in the simulated world: the first attempt fails, the token is cancelled at time 30.\<close>

definition sim_worker_retry ::
  "(string, nat \<times> duration, string, nat \<times> duration, cancelled_future, sim_world) worker_retry"
where
  "sim_worker_retry = worker_set_cancellation_token (sim_token 30) (worker_set_timer sim_timer (worker_new
     (config_new (policy_new (admission_limits_new (Abs_nonzero_u32 3) None None)
        (backoff_fixed (of_nanos 5))) FallbackRetry [] [])))"

interpretation sim_worker_flow: worker_flow manual_deps sim_os sim_outcomes sim_timer sim_park sim_pend id
  sim_due "Some (sim_token k)" sim_cancelled grace "\<lambda>s. events_left (fst s)"
  "\<lambda>t. events_left (fst (snd t))" for k grace
  by (rule worker_flow.intro [OF manual.deps_laws_axioms sim_worker.worker_laws_axioms])

lemma worker_run_ends_witness:
  "wp (worker_run sim_os manual_deps sim_timer sim_park sim_worker_retry)
     (\<lambda>result w'. worker_result_ok sim_outcomes 3 result) (\<lambda>_ _. True) sim_start"
proof -
  have "worker_flow manual_deps sim_os sim_outcomes (chosen_timer sim_timer (wrt_timer sim_worker_retry))
      sim_park sim_pend id sim_due (wrt_cancellation_token sim_worker_retry) sim_cancelled
      (wrt_cancellation_grace sim_worker_retry) (\<lambda>s. events_left (fst s)) (\<lambda>t. events_left (fst (snd t)))"
    using sim_worker_flow.worker_flow_axioms
    by (simp add: sim_worker_retry_def chosen_timer_def worker_set_cancellation_token_def worker_set_timer_def)
  moreover have "config_cap (wrt_config sim_worker_retry) = 3"
    by (simp add: config_cap_def sim_worker_retry_def worker_set_cancellation_token_def worker_set_timer_def
        worker_new_def config_new_def policy_new_def admission_limits_new_def Abs_nonzero_u32_inverse)
  ultimately show ?thesis
    using worker_run_ends [of manual_deps sim_os sim_outcomes sim_timer sim_worker_retry sim_park sim_pend id
        sim_due sim_cancelled] by simp
qed

end
