(* ===== verification/Worker_Contract.thy ===== *)
theory Worker_Contract
  imports Worker_Sim
begin

text \<open>
  The contracts of one worker attempt that a caller can rely on: which event wins when several
  have happened, and what an outcome proves about the thread.
\<close>

section \<open>A stop is told to the worker\<close>

text \<open>The attempt's token is never cleared, by another thread or by the caller.\<close>

lemma token_step: "worker_step outcomes s t \<Longrightarrow> ws_token s \<Longrightarrow> ws_token t"
  by (induction rule: worker_step.induct) (simp_all add: worker_send_def worker_wake_def)

lemma token_steps: "(worker_step outcomes)\<^sup>*\<^sup>* s t \<Longrightarrow> ws_token s \<Longrightarrow> ws_token t"
  by (induction rule: rtranclp_induct) (auto dest: token_step)

lemma token_receive: "ws_token s \<Longrightarrow> ws_token (snd (receive_now s))"
  by (simp add: receive_now_def event_popped_def split: list.split)

context worker_threads
begin

lemma received_token:
  assumes "ws_token ws" and "receive_now u = (r, ws')"
  shows "os_env OS (ws, w) = (u, w') \<Longrightarrow> ws_token ws'"
    and "os_block OS (ws, w) = Some (u, w') \<Longrightarrow> ws_token ws'"
    and "os_block_for OS d (ws, w) = (u, w') \<Longrightarrow> ws_token ws'"
proof -
  have "ws_token ws'" if "(worker_step outcomes)\<^sup>*\<^sup>* ws u"
    using token_receive [OF token_steps [OF that assms(1)]] assms(2) by simp
  then show "os_env OS (ws, w) = (u, w') \<Longrightarrow> ws_token ws'"
    and "os_block OS (ws, w) = Some (u, w') \<Longrightarrow> ws_token ws'"
    and "os_block_for OS d (ws, w) = (u, w') \<Longrightarrow> ws_token ws'"
    using env_steps block_steps block_for_steps by blast+
qed

lemma observe_event_token:
  assumes "observe_event OS grace deadline (ws, w) = Some (r, ws', w')" and "ws_token ws"
  shows "ws_token ws'"
  using assms(1) received_token [OF assms(2)] assms(2)
  by (auto simp: observe_event_def worker_try_recv_def worker_access_def worker_recv_def
      worker_recv_timeout_def ctl_world_def world_step_def prog_defs Let_def
      split: if_splits option.splits prod.splits received.splits)

lemma observe_exit_token:
  assumes "observe_worker_exit OS grace joined s = Some (r, t)" and "ws_token (fst s)"
  shows "ws_token (fst t)"
proof -
  have pass: "ws_token (fst v)"
    if "ws_token (fst u)" "observe_pass OS grace deadline u = Some (a, v)" for u v a deadline
    using that observe_event_token [of grace deadline "fst u" "snd u"]
    by (cases v) (auto simp: observe_pass_def prog_defs split: option.splits sum.splits prod.splits)
  have "ws_token (fst t)"
    if "loops (observe_pass OS grace deadline) u = Some (r, t)" "ws_token (fst u)" for deadline u
    by (rule loops_induct [where I = "\<lambda>s. ws_token (fst s)", OF that]) (rule pass, assumption+)+
  then show ?thesis
    using assms by (cases s) (auto simp: observe_worker_exit_def ctl_world_def world_step_def prog_defs
        split: if_splits option.splits prod.splits)
qed

end

section \<open>A stop that is due wins\<close>

text \<open>The two answers of a stop: the exit was observed within the grace period, or not.\<close>

definition stop_answers ::
  "('e, 'x) blocking_attempt_outcome \<Rightarrow> worker_stop_trigger \<Rightarrow> ('e, 'x) blocking_attempt_outcome set"
where
  "stop_answers stopped trigger = {stopped, WorkerStillRunning trigger}"

context worker_laws
begin

lemma stop_answers_wp:
  assumes "started_inv outcomes l ws"
  shows "wp (stop_with OS grace stopped trigger (snd l) :: (_, 'e retry_error, _) prog)
    (\<lambda>r (ws', _). ws_token ws' \<and> r \<in> stop_answers stopped trigger) (\<lambda>_ _. False) (ws, w)"
  unfolding stop_with_def wp_andthen wp_ok
proof (rule update_wp)
  fix ws' and w' :: 'w
  assume steps: "(worker_step outcomes)\<^sup>*\<^sup>* ws ws'"
  let ?ws = "attempt_token_cancel ws'"
  have "started_inv outcomes l ?ws"
    using started_inv_steps [OF steps assms] started_inv_simple(2) [of outcomes l ws'] by simp
  from observe_exit_wp [OF this refl refl, of w']
    observe_exit_token [of grace "snd l" "(?ws, w')"]
  show "wp (observe_worker_exit OS grace (snd l) :: (_, 'e retry_error, _) prog)
     (\<lambda>r (ws', _). ws_token ws' \<and> stop_answer stopped trigger r \<in> stop_answers stopped trigger)
     (\<lambda>_ _. False) (?ws, w')"
    by (auto simp: wp_def stop_answer_def stop_answers_def attempt_token_cancel_def
        split: option.splits sum.splits)
qed

lemma stopped_pass:
  assumes "started_inv outcomes seen ws"
    and "(wait_worker_pass OS T grace cancellation :: (_, 'e retry_error, ('e, 'x) blocking_attempt_outcome option) prog) s =
      andthen (ctl_world (stop_with OS grace stopped trigger (snd seen))) (\<lambda>r. ok (Some r))
        ((seen, timeout), ws, w)"
  shows "wp (loops (wait_worker_pass OS T grace cancellation :: (_, 'e retry_error, ('e, 'x) blocking_attempt_outcome option) prog))
    (\<lambda>r (_, ws', _). ws_token ws' \<and> r \<in> stop_answers stopped trigger) (\<lambda>_ _. False) s"
proof (rule wp_loops_unfold)
  have "wp (andthen (ctl_world (stop_with OS grace stopped trigger (snd seen))) (\<lambda>r. ok (Some r)))
     (\<lambda>r s'. case r of None \<Rightarrow> False
        | Some r \<Rightarrow> ws_token (fst (snd s')) \<and> r \<in> stop_answers stopped trigger)
     (\<lambda>(_ :: 'e retry_error) _. False) ((seen, timeout), ws, w)"
    unfolding wp_andthen wp_ctl_world prod.case wp_ok
    by (rule wp_only [OF stop_answers_wp [OF assms(1)]]) auto
  then show "wp (wait_worker_pass OS T grace cancellation :: (_, 'e retry_error, ('e, 'x) blocking_attempt_outcome option) prog)
     (\<lambda>r s'. case r of None \<Rightarrow> wp (loops (wait_worker_pass OS T grace cancellation))
           (\<lambda>r (_, ws', _). ws_token ws' \<and> r \<in> stop_answers stopped trigger) (\<lambda>_ _. False) s'
        | Some r \<Rightarrow> (case s' of (_, ws', _) \<Rightarrow> ws_token ws' \<and> r \<in> stop_answers stopped trigger))
     (\<lambda>_ _. False) s"
    unfolding wp_def assms(2) by (auto split: option.splits sum.splits)
qed

end


text \<open>Result and exit of a successful worker were received; the flow's timer has fired meanwhile.\<close>

definition sim_joined :: "(nat, string) worker_system" where
  "sim_joined = \<lparr>ws_attempt = 2, ws_phase = WorkerExited (Inr ()), ws_reaper = ReaperDone,
     ws_gate_open = True, ws_caller_sender = False, ws_receiver = True, ws_queue = [],
     ws_token = False, ws_slot = Some 2\<rparr>"




end
