(* ===== verification/Operation_Calls.thy ===== *)
theory Operation_Calls
  imports Sync_Retry
begin

text \<open>
  The account of a flow against what really happened.  \<open>calls\<close> is any count over the world that
  clock, timer, token, random source and callbacks leave alone and that every call of the
  operation raises by one; a run then raises it by exactly the number of attempts its result
  reports.
\<close>

section \<open>Steps that are not counted\<close>

definition quiet :: "('w \<Rightarrow> nat) \<Rightarrow> ('w \<Rightarrow> 'a \<times> 'w) \<Rightarrow> bool" where
  "quiet calls f \<longleftrightarrow> (\<forall>w. calls (snd (f w)) = calls w)"

definition quiet_source :: "('w \<Rightarrow> nat) \<Rightarrow> 'w random_source \<Rightarrow> bool" where
  "quiet_source calls source \<longleftrightarrow> (\<forall>lo hi. quiet calls (source lo hi))"

definition quiet_observer :: "('w \<Rightarrow> nat) \<Rightarrow> ('e, 'w) retry_observer \<Rightarrow> bool" where
  "quiet_observer calls observer \<longleftrightarrow>
     (\<forall>c. quiet calls (on_success observer c)) \<and>
     (\<forall>r c. quiet calls (on_terminal_failure observer r c)) \<and>
     (\<forall>c. quiet calls (on_before_attempt observer c)) \<and>
     (\<forall>f c. quiet calls (on_attempt_failed observer f c)) \<and>
     (\<forall>b c. quiet calls (on_retry_scheduled observer b c))"

definition quiet_config :: "('w \<Rightarrow> nat) \<Rightarrow> ('e, 'w) retry_config \<Rightarrow> bool" where
  "quiet_config calls config \<longleftrightarrow>
     (\<forall>rule \<in> set (cfg_rules config). \<forall>f c. quiet calls (rule f c)) \<and>
     (\<forall>observer \<in> set (cfg_observers config). quiet_observer calls observer)"

named_theorems quiet_rules \<open>steps of the world that are not counted\<close>

lemma quietD: "quiet calls f \<Longrightarrow> f w = (a, w') \<Longrightarrow> calls w' = calls w"
  by (metis quiet_def snd_conv)

lemma quiet_try_each:
  "(\<And>x. x \<in> set xs \<Longrightarrow> quiet calls (call x)) \<Longrightarrow> quiet calls (try_each phase call xs)"
proof -
  assume *: "\<And>x. x \<in> set xs \<Longrightarrow> quiet calls (call x)"
  have "calls (snd (try_each_from i phase call xs w)) = calls w" for i w
    using * by (induction xs arbitrary: i w) (auto split: prod.split option.split dest: quietD)
  then show ?thesis by (simp add: quiet_def try_each_def)
qed

lemma quiet_notify_each:
  "(\<And>x. x \<in> set xs \<Longrightarrow> quiet calls (call x)) \<Longrightarrow> quiet calls (notify_each phase call xs)"
proof -
  assume *: "\<And>x. x \<in> set xs \<Longrightarrow> quiet calls (call x)"
  have "calls (snd (notify_each_from i phase call xs w)) = calls w" for i w
    using *
  proof (induction xs arbitrary: i w)
    case (Cons x xs)
    obtain r w' where r: "call x w = (r, w')" by fastforce
    have "calls w' = calls w" using Cons.prems r by (auto dest: quietD)
    then show ?case using Cons.IH [of "Suc i" w'] Cons.prems r by (auto split: prod.split)
  qed simp
  then show ?thesis by (simp add: quiet_def notify_each_def)
qed

lemma quiet_observed [quiet_rules]:
  assumes "quiet_config calls config"
  shows "quiet calls (try_before_attempt (cfg_observers config) c)"
    and "quiet calls (try_attempt_failed (cfg_observers config) f c)"
    and "quiet calls (try_retry_scheduled (cfg_observers config) b c)"
    and "quiet calls (notify_success (cfg_observers config) c)"
    and "quiet calls (notify_terminal_failure (cfg_observers config) r c)"
  using assms
  by (auto simp: quiet_config_def quiet_observer_def try_before_attempt_def try_attempt_failed_def
      try_retry_scheduled_def notify_success_def notify_terminal_failure_def
      intro!: quiet_try_each quiet_notify_each)

lemma quiet_decided [quiet_rules]:
  assumes "quiet_config calls config"
  shows "quiet calls (try_decide (cfg_rules config) f c)"
proof -
  have "calls (snd (try_decide_from i rules f c w)) = calls w"
    if "\<forall>rule \<in> set rules. quiet calls (rule f c)" for i rules w
    using that by (induction rules arbitrary: i w) (auto split: prod.split sum.split dest: quietD)
  then show ?thesis using assms by (simp add: quiet_def try_decide_def quiet_config_def)
qed

lemma quiet_complete:
  "quiet_config calls config \<Longrightarrow> config_complete config r w = (r', w') \<Longrightarrow> calls w' = calls w"
  using quiet_observed(4,5) by (fastforce simp: config_complete_def split: sum.splits prod.splits dest: quietD)

text \<open>The delay of a backoff draws from its source only.\<close>

lemma quiet_backoff_next:
  assumes "quiet_source calls (as_source X (bo_random st))"
    and "backoff_next X request st w = (step, st', w')"
  shows "calls w' = calls w \<and> bo_random st' = bo_random st"
proof -
  have draw: "calls w2 = calls w1" if "as_source X (bo_random st) lo hi w1 = (u, w2)" for lo hi w1 u w2
    using assms(1) that by (auto simp: quiet_source_def dest: quietD)
  have jitter: "calls w2 = calls w1"
    if "apply_jitter p d (as_source X (bo_random st)) w1 = (d', w2)" for p d w1 d' w2
    using that draw by (auto simp: apply_jitter_def Let_def split: jitter_strategy.splits prod.splits if_splits)
  have base: "calls w2 = calls w1"
    if "base_delay X p k (as_source X (bo_random st)) w1 = (d', w2)" for p k w1 d' w2
    using that draw by (auto simp: base_delay_def Let_def split: backoff_strategy.splits prod.splits)
  have step: "calls w2 = calls w1"
    if "resolve p d rq k (as_source X (bo_random st)) w1 = (s', w2)" for p d rq k w1 s' w2
    using that
    by (auto simp: resolve_def resolve_uncapped_def Let_def split: option.splits prod.splits if_splits
        dest!: jitter)
  show ?thesis
    using assms(2) by (auto simp: backoff_next_def Let_def split: prod.splits dest!: base step)
qed

section \<open>Steps of a flow\<close>

text \<open>A flow with the callbacks of \<open>config\<close>, whose random source is quiet, after \<open>N\<close> calls.\<close>

definition counted ::
  "('w \<Rightarrow> nat) \<Rightarrow> ('i, 'd, 'x, 'b, 'w) deps \<Rightarrow> ('e, 'w) retry_config \<Rightarrow> nat
     \<Rightarrow> ('i, 'b, 'w, 'e) flow_controller \<times> 'w \<Rightarrow> bool"
where
  "counted calls X config N = (\<lambda>(fc, w).
     fc_rules fc = cfg_rules config \<and> fc_observers fc = cfg_observers config \<and>
     quiet_source calls (as_source X (bo_random (fs_backoff (fc_state fc)))) \<and> calls w = N)"

lemma flow_keeps_backoff:
  "flow_refresh X now fs = Some (r, fs') \<Longrightarrow> fs_backoff fs' = fs_backoff fs"
  "flow_begin_attempt X now fs = Some (r, fs') \<Longrightarrow> fs_backoff fs' = fs_backoff fs"
  "flow_finish_attempt X now fs = Some (r, fs') \<Longrightarrow> fs_backoff fs' = fs_backoff fs"
  "flow_finish_for_infrastructure X now fs = Some (r, fs') \<Longrightarrow> fs_backoff fs' = fs_backoff fs"
  by (auto simp: flow_refresh_def flow_begin_attempt_def flow_finish_attempt_def
      flow_finish_for_infrastructure_def flow_lift_def prog_defs split: option.splits if_splits)

text \<open>A run's surroundings: everything but the operation leaves the count alone.\<close>

locale quiet_run =
  fixes calls :: "'w \<Rightarrow> nat" and X :: "('i, 'd, 'x, 'b, 'w) deps" and T :: "('i, 'x, 'f, 'w) timer"
    and park :: "'w \<Rightarrow> 'w option" and cancellation :: "('c, 'w) token option"
    and config :: "('e, 'w) retry_config"
  assumes quiet_thread: "quiet calls (fastrand_f64_inclusive X)"
    and quiet_clock: "quiet calls (timer_clock T)"
    and quiet_at: "quiet calls (timer_at T deadline)"
    and quiet_poll: "timer_poll T f w = (r, f', w') \<Longrightarrow> calls w' = calls w"
    and quiet_park: "park w = Some w' \<Longrightarrow> calls w' = calls w"
    and quiet_flag: "cancellation = Some tok \<Longrightarrow> quiet calls (token_is_cancelled tok)"
    and quiet_future: "cancellation = Some tok \<Longrightarrow> token_poll tok c w = Some (b, c', w') \<Longrightarrow> calls w' = calls w"
    and quiet_drop: "cancellation = Some tok \<Longrightarrow> token_drop tok c w = Some w' \<Longrightarrow> calls w' = calls w"
    and quiet_callbacks: "quiet_config calls config"
begin

lemma keeps_now [keeps_rules]: "keeps (counted calls X config N) (ctl_now (timer_clock T))"
  by (rule keepsI) (auto simp: ctl_now_def counted_def dest: quietD [OF quiet_clock] split: prod.splits)

lemma keeps_set [keeps_rules]:
  "(\<And>fc. fc_rules (f fc) = fc_rules fc \<and> fc_observers (f fc) = fc_observers fc \<and> fc_state (f fc) = fc_state fc) \<Longrightarrow>
   keeps (counted calls X config N) (ctl_set f)"
  by (rule keepsI) (auto simp: ctl_set_def prog_defs counted_def)

lemma keeps_get [keeps_rules]:
  "keeps (counted calls X config N) (ctl_get f)" "keeps (counted calls X config N) (ctl_query g)"
  unfolding ctl_get_def ctl_query_def by (intro keeps_rules)+

lemma keeps_flow:
  "(\<And>fs r fs'. m fs = Some (r, fs') \<Longrightarrow> fs_backoff fs' = fs_backoff fs) \<Longrightarrow>
   keeps (counted calls X config N) (ctl_flow m)"
  by (rule keepsI) (auto simp: ctl_flow_def counted_def split: option.splits)

lemma keeps_flows [keeps_rules]:
  "keeps (counted calls X config N) (ctl_flow (flow_refresh X now))"
  "keeps (counted calls X config N) (ctl_flow (flow_begin_attempt X now))"
  "keeps (counted calls X config N) (ctl_flow (flow_finish_attempt X now))"
  "keeps (counted calls X config N) (ctl_flow (flow_finish_for_infrastructure X now))"
  by (rule keeps_flow, erule flow_keeps_backoff)+

lemma keeps_call:
  "(\<And>fc. fc_rules fc = cfg_rules config \<Longrightarrow> fc_observers fc = cfg_observers config \<Longrightarrow> quiet calls (f fc)) \<Longrightarrow>
   keeps (counted calls X config N) (ctl_call f)"
  by (rule keepsI) (auto simp: ctl_call_def counted_def split: prod.splits dest: quietD)

lemma keeps_calls [keeps_rules]:
  "keeps (counted calls X config N) (ctl_call (\<lambda>fc. try_before_attempt (fc_observers fc) c))"
  "keeps (counted calls X config N) (ctl_call (\<lambda>fc. try_attempt_failed (fc_observers fc) failure c))"
  "keeps (counted calls X config N) (ctl_call (\<lambda>fc. try_retry_scheduled (fc_observers fc) step c))"
  "keeps (counted calls X config N) (ctl_call (\<lambda>fc. try_decide (fc_rules fc) failure c))"
  by (rule keeps_call, simp add: quiet_rules [OF quiet_callbacks])+

lemma keeps_is_cancelled [keeps_rules]:
  "keeps (counted calls X config N) (ctl_is_cancelled (flag_of cancellation))"
  "keeps (counted calls X config N) (ctl_is_cancelled None)"
  unfolding ctl_is_cancelled_def
  by (cases cancellation) (simp_all add: keeps_rules keeps_call quiet_flag)

lemma keeps_next_backoff [keeps_rules]: "keeps (counted calls X config N) (ctl_next_backoff X decision)"
proof (rule keepsI)
  fix s r t
  assume s: "counted calls X config N s" and run: "ctl_next_backoff X decision s = Some (r, t)"
  obtain fc w where p: "s = (fc, w)" by (cases s)
  obtain step st w' where next_step: "backoff_next X (backoff_request_of decision) (fs_backoff (fc_state fc)) w = (step, st, w')"
    by (metis prod_cases3)
  from quiet_backoff_next [OF _ this, of calls] show "counted calls X config N t"
    using s run next_step by (auto simp: p ctl_next_backoff_def flow_next_backoff_def counted_def)
qed

text \<open>The controller's methods.\<close>

lemma keeps_snapshots [keeps_rules]:
  "keeps (counted calls X config N) (ctl_snapshot X)"
  "keeps (counted calls X config N) ctl_take_last_failure"
  "keeps (counted calls X config N) ctl_clear_current_attempt"
  unfolding ctl_snapshot_def ctl_take_last_failure_def ctl_clear_current_attempt_def
  by (intro keeps_rules; simp)+

lemma keeps_terminal [keeps_rules]:
  "keeps (counted calls X config N) (ctl_aborted X)"
  "keeps (counted calls X config N) (ctl_exhausted X limit)"
  "keeps (counted calls X config N) (ctl_timed_out X scope)"
  "keeps (counted calls X config N) (ctl_cancelled_with_context phase c)"
  "keeps (counted calls X config N) (ctl_callback_failed callback c)"
  "keeps (counted calls X config N) (ctl_infrastructure failure c)"
  unfolding ctl_aborted_def ctl_exhausted_def ctl_timed_out_def ctl_cancelled_with_context_def
    ctl_callback_failed_def ctl_infrastructure_def
  by (intro keeps_rules)+

lemma keeps_checks [keeps_rules]:
  "keeps (counted calls X config N) (ctl_cancelled X phase)"
  "keeps (counted calls X config N) (ctl_callback_failed_after_refresh X callback c (timer_clock T))"
  "keeps (counted calls X config N) (ctl_inactive_clock_failure X e)"
  unfolding ctl_cancelled_def ctl_callback_failed_after_refresh_def ctl_inactive_clock_failure_def
  by (intro keeps_rules)+

lemma keeps_refreshes [keeps_rules]:
  "keeps (counted calls X config N) (ctl_or_clock_failure X r)"
  unfolding ctl_or_clock_failure_def by (intro keeps_rules)

lemma keeps_refresh [keeps_rules]: "keeps (counted calls X config N) (ctl_refresh_or_error X now)"
  unfolding ctl_refresh_or_error_def by (intro keeps_rules)

lemma keeps_gates [keeps_rules]:
  "keeps (counted calls X config N) (ctl_refresh_after_control_callback X (timer_clock T) (flag_of cancellation) phase)"
  "keeps (counted calls X config N) (ctl_gates X (flag_of cancellation) phase limit_of)"
  "keeps (counted calls X config N) (ctl_gates X None phase limit_of)"
  unfolding ctl_refresh_after_control_callback_def ctl_gates_def by (intro keeps_rules)+

lemma keeps_admission [keeps_rules]:
  "keeps (counted calls X config N) (ctl_before_attempt X (timer_clock T) (flag_of cancellation))"
  "keeps (counted calls X config N) (ctl_commit_attempt X (timer_clock T) (flag_of cancellation))"
  "keeps (counted calls X config N) (ctl_finish_success X (timer_clock T))"
  unfolding ctl_before_attempt_def ctl_commit_attempt_def ctl_finish_success_def ctl_begin_def
  by (intro keeps_rules; simp)+

lemma keeps_records [keeps_rules]:
  "keeps (counted calls X config N) (ctl_record_inactive_infrastructure_failure X failure now)"
  "keeps (counted calls X config N) (ctl_record_backoff_cancellation X (timer_clock T))"
  "keeps (counted calls X config N) (ctl_timer_failed X T error)"
  unfolding ctl_record_inactive_infrastructure_failure_def ctl_record_backoff_cancellation_def
    ctl_timer_failed_def
  by (intro keeps_rules)+

lemma keeps_resolve [keeps_rules]: "keeps (counted calls X config N) (ctl_resolve_decision X decision)"
  unfolding ctl_resolve_decision_def Let_def by (intro keeps_rules)

lemma keeps_failure [keeps_rules]:
  "keeps (counted calls X config N) (ctl_record_failure X failure (timer_clock T) (flag_of cancellation))"
  unfolding ctl_record_failure_def ctl_observe_failure_def ctl_schedule_retry_def
  by (intro keeps_rules; simp)

text \<open>The wait.\<close>

lemma keeps_wait_pass: "keeps (\<lambda>(f, c, w). calls w = N) (wait_pass T park cancellation)"
  unfolding wait_pass_def wait_timer_def
proof (intro keeps_rules)
  show "keeps (\<lambda>(f, c, w). calls w = N) (poll_cancellation cancellation)"
    by (rule keepsI) (auto simp: poll_cancellation_def split: option.splits dest: quiet_future)
  show "keeps (\<lambda>(f, c, w). calls w = N) (poll_timer T)"
    by (rule keepsI) (auto simp: poll_timer_def split: prod.splits dest: quiet_poll)
  show "keeps (\<lambda>(f, c, w). calls w = N) (park_thread park)"
    by (rule keepsI) (auto simp: park_thread_def split: option.splits dest: quiet_park)
qed

lemma keeps_world_step: "quiet calls f \<Longrightarrow> keeps (\<lambda>w. calls w = N) (world_step f)"
  by (auto intro!: keepsI simp: world_step_def split: prod.splits dest: quietD)

lemma keeps_flag: "keeps (\<lambda>w. calls w = N) (world_step (opt_is_cancelled cancellation))"
  by (rule keeps_world_step, cases cancellation)
    (auto simp: opt_is_cancelled_def quiet_def dest: quiet_flag [unfolded quiet_def])

lemma calls_dropped: "drop_cancellation cancellation c w = Some w' \<Longrightarrow> calls w' = calls w"
  by (auto simp: drop_cancellation_def split: option.splits dest: quiet_drop)

lemma keeps_wait_loop:
  "keeps (\<lambda>w. calls w = N) (with_futures cancellation future (loops (wait_pass T park cancellation)))"
proof (rule keepsI)
  fix w r w'
  assume w: "calls w = N" and run: "with_futures cancellation future (loops (wait_pass T park cancellation)) w = Some (r, w')"
  obtain f c w1 where loop: "loops (wait_pass T park cancellation) (future, map_option token_cancelled cancellation, w)
      = Some (r, f, c, w1)" and drop: "drop_cancellation cancellation c w1 = Some w'"
    using run by (auto simp: with_futures_def split: option.splits)
  have "calls w1 = N" using keepsD [OF keeps_loops [OF keeps_wait_pass] loop] w by simp
  with calls_dropped [OF drop] show "calls w' = N" by simp
qed

lemma keeps_wait: "keeps (\<lambda>w. calls w = N) (wait_for_backoff T park deadline immediate cancellation)"
  unfolding wait_for_backoff_def
  by (intro keeps_rules keeps_flag keeps_wait_loop keeps_world_step quiet_at)

lemma keeps_ctl_world [keeps_rules]:
  "keeps (\<lambda>w. calls w = N) m \<Longrightarrow> keeps (counted calls X config N) (ctl_world m)"
proof (rule keepsI)
  fix s r t
  assume m: "keeps (\<lambda>w. calls w = N) m" and s: "counted calls X config N s"
    and "ctl_world m s = Some (r, t)"
  then obtain fc w w' where run: "s = (fc, w)" "m w = Some (r, w')" "t = (fc, w')"
    by (cases s) (auto simp: ctl_world_def split: option.splits)
  from keepsD [OF m run(2)] s show "counted calls X config N t"
    by (simp add: counted_def run)
qed

lemma keeps_finish_failed [keeps_rules]:
  "keeps (counted calls X config N) (finish_failed_attempt X T park cancellation failure)"
  unfolding finish_failed_attempt_def
proof (rule keeps_andthen [OF keeps_failure], rule keeps_andthen [OF keeps_ctl_world [OF keeps_wait]])
  fix outcome
  show "keeps (counted calls X config N) (case outcome of
       BackoffElapsed \<Rightarrow> ok ()
     | BackoffCancelled \<Rightarrow> return_err (ctl_record_backoff_cancellation X (timer_clock T))
     | BackoffTimerFailed error \<Rightarrow> ctl_timer_failed X T error)"
    by (cases outcome) (simp_all add: keeps_rules)
qed

end

section \<open>Runs\<close>

text \<open>The attempts a result reports.\<close>

definition reported_attempts :: "('t, 'e) retry_result \<Rightarrow> nat" where
  "reported_attempts r = (case r of
     Inl e \<Rightarrow> unat (ctx_attempts (err_context e))
   | Inr success \<Rightarrow> unat (ctx_attempts (suc_context success)))"

lemma reported_complete:
  "config_complete config r w = (r', w') \<Longrightarrow> reported_attempts r' = reported_attempts r"
  by (auto simp: config_complete_def reported_attempts_def success_set_completion_callback_failures_def
      error_set_completion_callback_failures_def split: sum.splits prod.splits)

text \<open>After \<open>N\<close> earlier calls: the result reports the later ones, and there are at most \<open>M\<close>.\<close>

definition counts_right :: "('w \<Rightarrow> nat) \<Rightarrow> nat \<Rightarrow> nat \<Rightarrow> ('t, 'e) retry_result \<Rightarrow> 'w \<Rightarrow> bool" where
  "counts_right calls N M r w \<longleftrightarrow> calls w = N + reported_attempts r \<and> reported_attempts r \<le> M"

definition unwound_right :: "('w \<Rightarrow> nat) \<Rightarrow> nat \<Rightarrow> nat \<Rightarrow> 'w \<Rightarrow> bool" where
  "unwound_right calls N M w \<longleftrightarrow> N < calls w \<and> calls w \<le> N + M"

definition stops_right :: "('w \<Rightarrow> nat) \<Rightarrow> nat \<Rightarrow> nat \<Rightarrow> 'e retry_error stop \<Rightarrow> 'w \<Rightarrow> bool" where
  "stops_right calls N M e w = (case e of
     StopError error \<Rightarrow> counts_right calls N M (Inl error :: (unit, _) retry_result) w
   | StopUnwind \<Rightarrow> unwound_right calls N M w)"

text \<open>A flow that ends, in quiet surroundings.\<close>

locale quiet_flow =
  deps_laws X + wait_laws T park pend target due cancellation cancelled +
  quiet_run calls X T park cancellation config
  for X :: "('i, 'd, 'x, 'b, 'w) deps" and T :: "('i, 'x, 'f, 'w) timer" and park pend target due
    and cancellation :: "('c, 'w) token option" and cancelled and calls
    and config :: "('e, 'w) retry_config"
begin

lemma ends_count:
  assumes "ctl_ends X K n lf e s" and "counted calls X config (N + n) s"
  shows "stops_right calls N (ctl_max K) (StopError e) (snd s)"
proof -
  have "n \<le> ctl_max K" using assms(1) by (auto simp: ctl_ends_def dest: ctl_ok_le)
  then show ?thesis
    using assms by (auto simp: stops_right_def counts_right_def reported_attempts_def ctl_ends_def
        ctx_ok_def counted_def)
qed

lemma counted_step:
  assumes "wp m Q (ctl_ends X K n lf) s" and "keeps (counted calls X config (N + n)) m"
    and "counted calls X config (N + n) s"
  shows "wp (checked m) (\<lambda>a t. Q a t \<and> counted calls X config (N + n) t)
    (\<lambda>e t. stops_right calls N (ctl_max K) e (snd t)) s"
  unfolding wp_checked
  by (rule wp_mono [OF wp_keeps [OF assms]]) (auto intro: ends_count)

text \<open>What a round ends with when it has counted its call.\<close>

lemma counted_succeed:
  assumes "ctl_ok X K (Suc n) True lf t" and "counted calls X config (N + Suc n) t"
  shows "wp (ctl_succeed X (timer_clock T) v)
    (\<lambda>r u. case r of
       None \<Rightarrow> flow_idle X K (Suc n) u \<and> counted calls X config (N + Suc n) u
     | Some success \<Rightarrow> counts_right calls N (ctl_max K) (Inr success :: ('t, 'e) retry_result) (snd u))
    (\<lambda>e u. stops_right calls N (ctl_max K) e (snd u)) t"
  unfolding ctl_succeed_def
proof (rule wp_seq [OF counted_step [OF ctl_finish_success_wp [OF assms(1)] keeps_admission(3) assms(2)]])
  fix c u
  assume "(ctl_ok X K (Suc n) False lf u \<and> ctx_ok (ctl_max K) (Suc n) c \<and> ctx_current_attempt c = None) \<and>
    counted calls X config (N + Suc n) u"
  then show "wp (ok (Some (retry_success_new v c)))
      (\<lambda>r u. case r of
         None \<Rightarrow> flow_idle X K (Suc n) u \<and> counted calls X config (N + Suc n) u
       | Some success \<Rightarrow> counts_right calls N (ctl_max K) (Inr success :: ('t, 'e) retry_result) (snd u))
      (\<lambda>e u. stops_right calls N (ctl_max K) e (snd u)) u"
    using ctl_ok_le [OF assms(1)]
    by (auto simp: counts_right_def reported_attempts_def retry_success_new_def ctx_ok_def counted_def)
qed

lemma counted_unwind:
  assumes "ctl_ok X K (Suc n) True lf t" and "calls (snd t) = N + Suc n"
  shows "stops_right calls N (ctl_max K) StopUnwind (snd t)"
  using assms(2) ctl_ok_le [OF assms(1)] by (simp add: stops_right_def unwound_right_def)

end

locale counted_flow =
  sync_flow X T park pend target due cancellation cancelled operation +
  quiet_flow X T park pend target due cancellation cancelled calls config
  for X :: "('i, 'd, 'x, 'b, 'w) deps" and T :: "('i, 'x, 'f, 'w) timer" and park pend target due
    and cancellation :: "('c, 'w) token option" and cancelled
    and operation :: "'w \<Rightarrow> ('e + 't) option \<times> 'w" and calls
    and config :: "('e, 'w) retry_config" +
  assumes operation_counts: "operation w = (r, w') \<Longrightarrow> calls w' = Suc (calls w)"
begin

text \<open>One round, with its one call.\<close>

lemma counted_round:
  assumes idle: "flow_idle X K n s \<and> counted calls X config (N + n) s"
  shows "wp (sync_round X T park cancellation operation)
    (\<lambda>r t. case r of
       None \<Rightarrow> flow_idle X K (Suc n) t \<and> counted calls X config (N + Suc n) t
     | Some success \<Rightarrow> counts_right calls N (ctl_max K) (Inr success :: ('t, 'e) retry_result) (snd t))
    (\<lambda>e t. stops_right calls N (ctl_max K) e (snd t)) s" (is "wp _ ?Q ?E _")
proof -
  obtain lf where ok: "ctl_ok X K n False lf s" and lf: "lf = None \<longleftrightarrow> n = 0"
    using idle by (auto simp: flow_idle_def)
  have later: "wp (andthen (checked (finish_failed_attempt X T park cancellation failure)) (\<lambda>_. ok None)) ?Q ?E t"
    if t: "ctl_ok X K (Suc n) True lf t" "counted calls X config (N + Suc n) t" for failure t
    by (rule wp_seq [OF counted_step [OF finish_failed_attempt_wp [OF wait_laws_axioms t(1)] keeps_finish_failed t(2)]])
      (auto simp: flow_idle_def)
  have operate: "wp (andthen (ctl_operation operation) (\<lambda>result. case result of
         Inr v \<Rightarrow> ctl_succeed X (timer_clock T) v
       | Inl error \<Rightarrow>
           andthen (checked (finish_failed_attempt X T park cancellation (FailError error))) (\<lambda>_. ok None)))
      ?Q ?E t"
    if t: "ctl_ok X K (Suc n) True lf t" "counted calls X config (N + n) t" for t
  proof (cases t)
    case (Pair fc w)
    obtain r w' where r: "operation w = (r, w')" by fastforce
    have w': "ctl_ok X K (Suc n) True lf (fc, w')" "counted calls X config (N + Suc n) (fc, w')"
      using t Pair operation_counts [OF r] ctl_ok_world [of X K "Suc n" True lf fc w w']
      by (auto simp: counted_def)
    note open_run = Pair wp_andthen [of "ctl_operation operation"] wp_ctl_operation prod.case r
    show ?thesis
    proof (cases r)
      case None
      have "?E StopUnwind (fc, w')"
        by (rule counted_unwind [OF w'(1)]) (use w'(2) in \<open>simp add: counted_def\<close>)
      then show ?thesis unfolding open_run None option.case .
    next
      case (Some a)
      show ?thesis
        unfolding open_run Some option.case
        by (cases a) (simp_all only: sum.case counted_succeed [OF w'] later [OF w'])
    qed
  qed
  show ?thesis
    unfolding sync_round_def
  proof (rule wp_seq [OF counted_step [OF ctl_before_attempt_wp [OF ok] keeps_admission(1) conjunct2 [OF idle]]], goal_cases)
    case (1 _ t)
    then have t: "ctl_ok X K n False lf t" "counted calls X config (N + n) t"
      by (simp_all add: ctl_sampled_def)
    show ?case
      by (rule wp_seq [OF counted_step [OF ctl_commit_attempt_wp [OF t(1)] keeps_admission(2) t(2)]])
        (auto intro!: operate simp del: wp_andthen)
  qed
qed

end

sublocale counted_flow \<subseteq> counting: rounds "sync_round X T park cancellation operation"
  "\<lambda>n s. flow_idle X K n s \<and> counted calls X config (N + n) s" "ctl_max K"
  "\<lambda>success t. counts_right calls N (ctl_max K) (Inr success :: ('t, 'e) retry_result) (snd t)"
  "\<lambda>e t. stops_right calls N (ctl_max K) e (snd t)" for K N
  by (unfold_locales, rule counted_round) (auto dest: flow_idle_cap)

context counted_flow
begin

lemma counted_loop:
  "flow_idle X K 0 s \<Longrightarrow> counted calls X config N s \<Longrightarrow>
   wp (loops (sync_round X T park cancellation operation))
     (\<lambda>success t. counts_right calls N (ctl_max K) (Inr success :: ('t, 'e) retry_result) (snd t))
     (\<lambda>e t. stops_right calls N (ctl_max K) e (snd t)) s"
  using counting.rounds_end [of K 0 s N] by simp

end

lemma quiet_thread_source:
  "quiet calls (fastrand_f64_inclusive X) \<Longrightarrow> quiet_source calls (thread_random_f64_inclusive X)"
  by (auto simp: quiet_source_def quiet_def thread_random_f64_inclusive_def split: prod.splits) (metis snd_conv)

lemma counted_new:
  assumes "quiet calls (fastrand_f64_inclusive X)" and "\<And>source. random = Some source \<Longrightarrow> quiet_source calls source"
  shows "counted calls X config (calls w) (ctl_new X now config random attempt_timeout flow_timeout, w)"
  using quiet_thread_source [OF assms(1)] assms(2)
  by (auto simp: counted_def ctl_new_def flow_new_def backoff_start_def backoff_state_new_thread_def
      backoff_start_with_random_source_def backoff_state_new_def split: option.split)

text \<open>What the rounds of a flow count, a facade's run counts.\<close>

lemma counted_run:
  fixes body :: "('i, 'b, 'w, 'e, 'e retry_error stop, 't retry_success option) ctl"
  assumes "deps_laws X" and run: "quiet_run calls X T park cancellation config"
    and random: "\<And>source. random = Some source \<Longrightarrow> quiet_source calls source"
    and loop: "\<And>K s. flow_idle X K 0 s \<Longrightarrow> counted calls X config (calls w) s \<Longrightarrow>
      wp (loops body)
        (\<lambda>success t. counts_right calls (calls w) (ctl_max K) (Inr success :: ('t, 'e) retry_result) (snd t))
        (\<lambda>e t. stops_right calls (calls w) (ctl_max K) e (snd t)) s"
  shows "wp (complete_run config (run_flow X T config random attempt_timeout flow_timeout body))
    (\<lambda>result w'. calls w' = calls w + reported_attempts result \<and>
       reported_attempts result \<le> config_cap config)
    (\<lambda>_ w'. calls w < calls w' \<and> calls w' \<le> calls w + config_cap config) w"
proof -
  have thread: "quiet calls (fastrand_f64_inclusive X)" and clock: "quiet calls (timer_clock T)"
    and callbacks: "quiet_config calls config"
    using run by (simp_all add: quiet_run_def)
  obtain now w' where now: "timer_clock T w = (now, w')" by fastforce
  have w': "calls w' = calls w" by (rule quietD [OF clock now])
  define fc where "fc = ctl_new X now config random attempt_timeout flow_timeout"
  have cap: "ctl_max fc = config_cap config"
    by (simp add: fc_def config_cap_def deps_laws.ctl_max_new [OF assms(1)])
  have start: "counted calls X config (calls w) (fc, w')"
    using counted_new [OF thread random, where config = config and w = w'] w' by (simp add: fc_def)
  have "wp (complete_run config (run_flow X T config random attempt_timeout flow_timeout body))
      (counts_right calls (calls w) (config_cap config))
      (\<lambda>_. unwound_right calls (calls w) (config_cap config)) w"
  proof (rule complete_run_keeps)
    show "counts_right calls (calls w) (config_cap config) res' u'"
      if "config_complete config res u = (res', u')" "counts_right calls (calls w) (config_cap config) res u"
      for res u res' u'
      using that quiet_complete [OF callbacks that(1)] reported_complete [OF that(1)]
      by (simp add: counts_right_def)
    from loop [OF deps_laws.flow_idle_new [OF assms(1) fc_def] start]
    show "wp (run_flow X T config random attempt_timeout flow_timeout body)
        (\<lambda>success. counts_right calls (calls w) (config_cap config) (Inr success))
        (\<lambda>e u. case e of
           StopError error \<Rightarrow> counts_right calls (calls w) (config_cap config) (Inl error) u
         | StopUnwind \<Rightarrow> unwound_right calls (calls w) (config_cap config) u) w"
      unfolding cap
      by (auto simp: wp_def run_flow_def now fc_def [symmetric] stops_right_def
          counts_right_def reported_attempts_def split: option.splits sum.splits stop.splits)
  qed
  then show ?thesis
    unfolding counts_right_def [abs_def] unwound_right_def [abs_def] .
qed

section \<open>Properties\<close>

text \<open>
  C1. The reported attempts are the calls of the operation.  Count anything that each call of
  the operation raises by one and that clock, timer, token, random source and callbacks leave
  alone.  When \<open>Retry::run\<close> returns, the count has risen by exactly the number of attempts its
  result reports, success or error, and that is at most the attempt limit; when the
  operation unwinds, it has been called at least once and at most as often as allowed.
\<close>

theorem operation_calls_counted:
  fixes operation :: "'w \<Rightarrow> ('e + 't) option \<times> 'w"
  assumes "deps_laws X"
    and "wait_laws (chosen_timer std_timer (rt_timer r)) park pend target due (rt_cancellation_token r) cancelled"
    and "quiet_run calls X (chosen_timer std_timer (rt_timer r)) park (rt_cancellation_token r) (rt_config r)"
    and "\<And>source. rt_random_source r = Some source \<Longrightarrow> quiet_source calls source"
    and "\<And>w a w'. operation w = (a, w') \<Longrightarrow> calls w' = Suc (calls w)"
  shows "wp (retry_run X std_timer park r operation)
    (\<lambda>result w'. calls w' = calls w + reported_attempts result \<and>
       reported_attempts result \<le> config_cap (rt_config r))
    (\<lambda>_ w'. calls w < calls w' \<and> calls w' \<le> calls w + config_cap (rt_config r)) w"
proof -
  have flow: "counted_flow X (chosen_timer std_timer (rt_timer r)) park pend target due
      (rt_cancellation_token r) cancelled operation calls (rt_config r)"
    by (intro counted_flow.intro counted_flow_axioms.intro sync_flow.intro quiet_flow.intro assms)
  show ?thesis
    unfolding retry_run_def retry_run_inner_def Let_def
    by (rule counted_run [OF assms(1,3,4) counted_flow.counted_loop [OF flow]])
qed

text \<open>In the simulated world: the first call fails, every later one succeeds.\<close>

definition sim_counted_operation :: "sim_world \<Rightarrow> (string + nat) option \<times> sim_world" where
  "sim_counted_operation w = (Some (if sim_calls w = 0 then Inl ''refused'' else Inr (sim_time w)),
     w\<lparr>sim_calls := Suc (sim_calls w)\<rparr>)"

lemma sim_env_calls: "sim_calls (sim_env k w) = sim_calls w"
  by (simp add: sim_env_def sim_put_def split: option.split prod.split)

lemma sim_quiet: "quiet_run sim_calls manual_deps sim_timer sim_park (Some (sim_token k)) (rt_config sim_retry)"
proof
  show "quiet sim_calls (fastrand_f64_inclusive manual_deps)"
    by (simp add: quiet_def manual_deps_def)
  show "quiet sim_calls (timer_clock sim_timer)" "quiet sim_calls (timer_at sim_timer deadline)" for deadline
    by (simp_all add: quiet_def sim_timer_def sim_clock_def)
  show "quiet_config sim_calls (rt_config sim_retry)"
    by (simp add: quiet_config_def sim_retry_def retry_set_cancellation_token_def retry_set_timer_def
        retry_new_def config_new_def)
qed (auto simp: sim_timer_def sim_park_def sim_token_def shared_token_def quiet_def sim_env_calls sim_put_def
    Let_def split: option.splits sum.splits prod.splits)

interpretation sim_counted: counted_flow manual_deps sim_timer sim_park sim_pend id sim_due
  "Some (sim_token k)" sim_cancelled sim_counted_operation sim_calls "rt_config sim_retry" for k
  by (intro counted_flow.intro quiet_flow.intro counted_flow_axioms.intro sim_sync.sync_flow_axioms
      manual.deps_laws_axioms sim_wait.wait_laws_axioms sim_quiet)
    (auto simp: sim_counted_operation_def)

lemma operation_calls_counted_witness:
  "wp (retry_run manual_deps sim_timer sim_park sim_retry sim_counted_operation)
    (\<lambda>result w'. sim_calls w' = reported_attempts result \<and> reported_attempts result \<le> 3)
    (\<lambda>_ w'. 0 < sim_calls w' \<and> sim_calls w' \<le> 3) sim_start"
proof -
  have facade: "chosen_timer sim_timer (rt_timer sim_retry) = sim_timer"
    "rt_cancellation_token sim_retry = Some (sim_token 30)" "rt_random_source sim_retry = None"
    by (simp_all add: sim_retry_def chosen_timer_def retry_set_cancellation_token_def retry_set_timer_def
        retry_new_def)
  have "sim_calls sim_start = 0" by (simp add: sim_start_def)
  then show ?thesis
    using operation_calls_counted [OF manual.deps_laws_axioms, of sim_timer sim_retry sim_park sim_pend id sim_due
        sim_cancelled sim_calls sim_counted_operation sim_start]
      sim_wait.wait_laws_axioms sim_quiet
    by (simp add: facade sim_retry_cap sim_counted_operation_def)
qed

end
