(* ===== verification/Async_Calls.thy ===== *)
theory Async_Calls
  imports Operation_Calls Async_Laws
begin

text \<open>
  The account of an asynchronous flow against what really happened: the operation is started
  once for every attempt the result reports, and it is handed the ordinals 1, 2, 3 and so on.
\<close>

section \<open>Steps that are not counted\<close>

context quiet_run
begin

lemma keeps_timed [keeps_rules]:
  "keeps (counted calls X config N) (ctl_prepare_attempt X now)"
  "keeps (counted calls X config N)
     (ctl_commit_prepared_attempt X plan (timer_clock T) (flag_of cancellation))"
  "keeps (counted calls X config N) (ctl_attempts X)"
proof -
  have timeout: "keeps (counted calls X config N) (ctl_prepare_timeout X now)"
    unfolding ctl_prepare_timeout_def
  proof (intro keeps_rules)
    fix effective
    show "keeps (counted calls X config N) (case eff_scope effective of
        ScopeAttempt \<Rightarrow>
          ok (map_right (\<lambda>deadline. Some (deadline, eff_duration effective, eff_scope effective))
                (instant_checked_add X now (eff_duration effective)))
      | ScopeFlow \<Rightarrow>
          andthen (ctl_get (\<lambda>fc. flow_deadline X (fc_state fc))) (\<lambda>r.
          case r of
            Inl error \<Rightarrow> ok (Inl error)
          | Inr d \<Rightarrow>
              andthen (expect d) (\<lambda>deadline.
              ok (Inr (Some (deadline, eff_duration effective, eff_scope effective))))))"
      by (cases "eff_scope effective") (simp_all add: keeps_rules)
  qed
  show "keeps (counted calls X config N) (ctl_prepare_attempt X now)"
    unfolding ctl_prepare_attempt_def Let_def by (intro keeps_rules timeout; simp)
  show "keeps (counted calls X config N)
     (ctl_commit_prepared_attempt X plan (timer_clock T) (flag_of cancellation))"
    unfolding ctl_commit_prepared_attempt_def ctl_begin_def by (intro keeps_rules)
  show "keeps (counted calls X config N) (ctl_attempts X)"
    unfolding ctl_attempts_def by (intro keeps_rules)
qed

lemma keeps_active [keeps_rules]:
  "keeps (counted calls X config N) (ctl_record_attempt_cancellation X (timer_clock T))"
  "keeps (counted calls X config N) (ctl_timer_failed_active X T error)"
  unfolding ctl_record_attempt_cancellation_def ctl_timer_failed_active_def
    ctl_record_active_infrastructure_failure_def
  by (intro keeps_rules)+

lemma keeps_async_admit: "keeps (counted calls X config N) (async_admit X T cancellation)"
proof -
  have register: "quiet calls (register_timeout T deadline)" for deadline
    using quiet_at by (auto simp: quiet_def register_timeout_def split: option.split prod.split)
      (metis snd_conv)
  show ?thesis
    unfolding async_admit_def by (intro keeps_rules keeps_world_step register)
qed

lemma keeps_yield: "keeps (\<lambda>w. calls w = N) (yield_once park)"
proof -
  have pass: "keeps (\<lambda>(yielded, w). calls w = N) (yield_pass park)"
    by (rule keepsI) (auto simp: yield_pass_def dest: quiet_park split: option.splits if_splits)
  show ?thesis
  proof (rule keepsI)
    fix w r w'
    assume w: "calls w = N" and "yield_once park w = Some (r, w')"
    then obtain b where "loops (yield_pass park) (False, w) = Some (r, b, w')"
      by (auto simp: yield_once_def split: option.splits)
    from keepsD [OF keeps_loops [OF pass] this] w show "calls w' = N" by simp
  qed
qed

lemma keeps_sleep: "keeps (\<lambda>w. calls w = N) (sleep T park deadline immediate cancellation)"
  unfolding sleep_def
  by (intro keeps_rules keeps_flag keeps_wait_loop keeps_world_step quiet_at keeps_yield)

lemma keeps_async_back_off:
  "keeps (counted calls X config N) (async_back_off X T park cancellation directive)"
  unfolding async_back_off_def
proof (rule keeps_andthen [OF keeps_ctl_world [OF keeps_sleep]])
  fix outcome
  show "keeps (counted calls X config N) (case outcome of
       AsyncBackoffElapsed \<Rightarrow> ok ()
     | AsyncBackoffCancelled \<Rightarrow> return_err (ctl_record_backoff_cancellation X (timer_clock T))
     | AsyncBackoffTimerFailed error \<Rightarrow> ctl_timer_failed X T error)"
    by (cases outcome) (simp_all add: keeps_rules)
qed

text \<open>Polling is not counted either, where a poll of the operation is not.\<close>

lemma keeps_execute_attempt:
  assumes "\<And>future w r future' w'. op_poll future w = (r, future', w') \<Longrightarrow> calls w' = calls w"
  shows "keeps (\<lambda>w. calls w = N)
    (execute_attempt T park timeout_future scope cancellation op_poll future)"
proof -
  have pass: "keeps (\<lambda>(future, c, f, w). calls w = N) (attempt_pass T park cancellation op_poll scope)"
    unfolding attempt_pass_def
  proof (intro keeps_rules)
    show "keeps (\<lambda>(future, c, f, w). calls w = N) (attempt_poll_operation op_poll)"
      by (rule keepsI)
        (auto simp: attempt_poll_operation_def split: prod.splits operation_poll.splits dest: assms)
    show "keeps (\<lambda>(future, c, f, w). calls w = N) (attempt_poll_cancellation cancellation)"
      by (rule keepsI) (auto simp: attempt_poll_cancellation_def poll_cancellation_def
          split: option.splits dest: quiet_future)
    show "keeps (\<lambda>(future, c, f, w). calls w = N) (attempt_poll_timer T)"
      by (rule keepsI)
        (auto simp: attempt_poll_timer_def split: option.splits prod.splits dest: quiet_poll)
    show "keeps (\<lambda>(future, c, f, w). calls w = N) (attempt_suspend park)"
      by (rule keepsI) (auto simp: attempt_suspend_def split: option.splits dest: quiet_park)
  qed
  show ?thesis
  proof (rule keepsI)
    fix w r w'
    assume w: "calls w = N"
      and run: "execute_attempt T park timeout_future scope cancellation op_poll future w = Some (r, w')"
    obtain future' c f w1 where
      loop: "loops (attempt_pass T park cancellation op_poll scope)
        (future, map_option token_cancelled cancellation, timeout_future, w) = Some (r, future', c, f, w1)"
      and drop: "drop_cancellation cancellation c w1 = Some w'"
      using run by (auto simp: execute_attempt_def split: option.splits if_splits)
    have "calls w1 = N" using keepsD [OF keeps_loops [OF pass] loop] w by simp
    with calls_dropped [OF drop] show "calls w' = N" by simp
  qed
qed

end

section \<open>Rounds\<close>

text \<open>What round \<open>n\<close> comes to: the loop goes on, or it has a success that reports its calls.\<close>

definition round_counted ::
  "('i, 'd, 'x, 'b, 'w) deps \<Rightarrow> ('w \<Rightarrow> nat) \<Rightarrow> ('e, 'w) retry_config \<Rightarrow> nat
     \<Rightarrow> ('i, 'b, 'w, 'e) flow_controller \<Rightarrow> nat \<Rightarrow> 't retry_success option
     \<Rightarrow> ('i, 'b, 'w, 'e) flow_controller \<times> 'w \<Rightarrow> bool"
where
  "round_counted X calls config base K n r t \<longleftrightarrow> (case r of
     None \<Rightarrow> flow_idle X K (Suc n) t \<and> counted calls X config (base + Suc n) t
   | Some success \<Rightarrow>
       counts_right calls base (ctl_max K) (Inr success :: ('t, 'e) retry_result) (snd t))"

text \<open>
  An asynchronous flow after \<open>base\<close> earlier calls.  The count is only known to rise when the
  operation is handed the next ordinal, so that the final count also tells which ordinals were.
\<close>

locale counted_async =
  async_flow X T suspend pend target due cancellation cancelled operation op_poll rank +
  quiet_flow X T suspend pend target due cancellation cancelled calls config
  for X :: "('i, 'd, 'x, 'b, 'w) deps" and T :: "('i, 'x, 'f, 'w) timer" and suspend pend target due
    and cancellation :: "('c, 'w) token option" and cancelled
    and operation :: "nonzero_u32 \<Rightarrow> 'w \<Rightarrow> 'o option \<times> 'w"
    and op_poll :: "'o \<Rightarrow> 'w \<Rightarrow> ('e, 't) operation_poll \<times> 'o \<times> 'w"
    and rank and calls and config :: "('e, 'w) retry_config" +
  fixes base :: nat
  assumes poll_quiet: "op_poll future w = (r, future', w') \<Longrightarrow> calls w' = calls w"
    and operation_counts: "operation ordinal w = (made, w') \<Longrightarrow>
      base + unat (nz_get ordinal) = Suc (calls w) \<Longrightarrow> calls w' = Suc (calls w)"
begin

lemma counted_outcome:
  assumes "ctl_ok X K (Suc n) True lf t" and "counted calls X config (base + Suc n) t"
  shows "wp (async_outcome X T suspend cancellation outcome) (round_counted X calls config base K n)
    (\<lambda>e t. stops_right calls base (ctl_max K) e (snd t)) t" (is "wp _ ?Q ?E _")
proof -
  note step = counted_step [where N = base]
  have later: "wp (async_retry_later X T suspend cancellation failure) ?Q ?E t" for failure
    unfolding async_retry_later_def
  proof (rule wp_seq [OF step [OF ctl_record_failure_wp [OF assms(1)] keeps_failure assms(2)]], goal_cases)
    case (1 directive u)
    then have u: "ctl_ok X K (Suc n) False (Some failure) u" "counted calls X config (base + Suc n) u"
      by simp_all
    show ?case
      by (rule wp_seq [OF step [OF async_back_off_wp [OF u(1)] keeps_async_back_off u(2)]])
        (auto simp: round_counted_def flow_idle_def)
  qed
  show ?thesis
  proof (cases outcome)
    case (AsyncCompleted r)
    then show ?thesis
      using later counted_succeed [OF assms]
      by (cases r) (simp_all add: async_outcome_def round_counted_def [abs_def])
  next
    case (AsyncTimedOut scope)
    then show ?thesis using later by (simp add: async_outcome_def)
  next
    case AsyncCancelled
    have "wp (return_err (ctl_record_attempt_cancellation X (timer_clock T))) (\<lambda>_ _. False)
        (ctl_ends X K (Suc n) lf) t"
      unfolding wp_return_err by (rule ctl_record_attempt_cancellation_wp [OF assms(1)])
    from wp_mono [OF step [OF this keeps_return_err [OF keeps_active(1)] assms(2)]] show ?thesis
      by (simp add: async_outcome_def AsyncCancelled)
  next
    case (AsyncTimerFailed e)
    have "wp (ctl_timer_failed_active X T e) (\<lambda>_ _. False) (ctl_ends X K (Suc n) lf) t"
      by (rule ctl_timer_failed_wp(2) [OF assms(1)])
    from wp_mono [OF step [OF this keeps_active(2) assms(2)]] show ?thesis
      by (simp add: async_outcome_def AsyncTimerFailed)
  qed
qed

lemma counted_async_round:
  assumes idle: "flow_idle X K n s \<and> counted calls X config (base + n) s"
  shows "wp (async_round X T suspend cancellation operation op_poll) (round_counted X calls config base K n)
    (\<lambda>e t. stops_right calls base (ctl_max K) e (snd t)) s" (is "wp _ ?Q ?E _")
proof -
  obtain lf where ok: "ctl_ok X K n False lf s" using idle by (auto simp: flow_idle_def)
  have execute: "wp (andthen (map_err (\<lambda>_. StopUnwind) (ctl_world (execute_attempt T suspend
         timeout_future (plan_scope plan) cancellation op_poll future))) (\<lambda>outcome.
       async_outcome X T suspend cancellation outcome)) ?Q ?E (fc, w)"
    if t: "ctl_ok X K (Suc n) True lf (fc, w)" "counted calls X config (base + Suc n) (fc, w)"
      and f: "timeout_future = None \<longleftrightarrow> plan_deadline plan = None" for plan timeout_future future fc w
  proof -
    have scope: "timeout_future \<noteq> None \<longrightarrow> plan_scope plan \<noteq> None"
      using f by (simp add: plan_deadline_def plan_scope_def)
    have calls: "calls w = base + Suc n" using t(2) by (simp add: counted_def)
    have t': "ctl_ok X K (Suc n) True lf (fc, w')" "calls w' = base + Suc n \<Longrightarrow>
        counted calls X config (base + Suc n) (fc, w')" for w'
      using t ctl_ok_world [of X K "Suc n" True lf fc w w'] by (simp_all add: counted_def)
    show ?thesis
      unfolding wp_andthen [of "map_err _ _"] wp_map_err wp_ctl_world prod.case
      by (rule wp_mono [OF wp_keeps [OF execute_attempt_wp [OF scope] keeps_execute_attempt [OF poll_quiet] calls]])
        (use counted_unwind [OF t'(1)] in \<open>simp_all add: counted_outcome [OF t']\<close>)
  qed
  show ?thesis
    unfolding async_round_def
  proof (rule wp_seq [OF counted_step [OF async_admit_wp [OF ok] keeps_async_admit conjunct2 [OF idle]]], goal_cases)
    case (1 admitted t)
    obtain ordinal plan timeout_future fc w where split: "admitted = (ordinal, plan, timeout_future)" "t = (fc, w)"
      by (metis prod_cases3 surj_pair)
    have t: "ctl_ok X K (Suc n) True lf (fc, w)" "counted calls X config (base + n) (fc, w)"
      and ordinal: "unat (nz_get ordinal) = Suc n"
      and f: "timeout_future = None \<longleftrightarrow> plan_deadline plan = None"
      using 1 by (simp_all add: split)
    obtain made w' where made: "operation ordinal w = (made, w')" by fastforce
    have w': "ctl_ok X K (Suc n) True lf (fc, w')" "counted calls X config (base + Suc n) (fc, w')"
      using t operation_counts [OF made] ordinal ctl_ok_world [of X K "Suc n" True lf fc w w']
      by (auto simp: counted_def)
    show ?case
    proof (cases made)
      case None
      have "?E StopUnwind (fc, w')"
        by (rule counted_unwind [OF w'(1)]) (use w'(2) in \<open>simp add: counted_def\<close>)
      then show ?thesis
        unfolding split prod.case wp_andthen [of "ctl_operation _"] wp_ctl_operation made None option.case .
    next
      case (Some future)
      from execute [OF w' f] show ?thesis
        unfolding split prod.case wp_andthen [of "ctl_operation _"] wp_ctl_operation made Some option.case .
    qed
  qed
qed

end

sublocale counted_async \<subseteq> counting: rounds "async_round X T suspend cancellation operation op_poll"
  "\<lambda>n s. flow_idle X K n s \<and> counted calls X config (base + n) s" "ctl_max K"
  "\<lambda>success t. counts_right calls base (ctl_max K) (Inr success :: ('t, 'e) retry_result) (snd t)"
  "\<lambda>e t. stops_right calls base (ctl_max K) e (snd t)" for K
  by (unfold_locales, rule counted_async_round [unfolded round_counted_def [abs_def]])
    (auto dest: flow_idle_cap)

context counted_async
begin

lemma counted_async_loop:
  "flow_idle X K 0 s \<Longrightarrow> counted calls X config base s \<Longrightarrow>
   wp (loops (async_round X T suspend cancellation operation op_poll))
     (\<lambda>success t. counts_right calls base (ctl_max K) (Inr success :: ('t, 'e) retry_result) (snd t))
     (\<lambda>e t. stops_right calls base (ctl_max K) e (snd t)) s"
  using counting.rounds_end [of K 0 s] by simp

end

section \<open>Properties\<close>

text \<open>
  C2. An asynchronous run starts the operation once for every attempt it reports, with the
  ordinals 1, 2, 3 and so on.  Count anything that clock, timer, token, random source,
  callbacks, the runtime and the polls of the attempts leave alone, and that starting an
  attempt raises by one when the ordinal it is handed is the next one.  When the run
  returns, the count has risen by exactly the number of attempts its result reports, at most
  the attempt limit; so it is when a wait or an attempt was cancelled or timed out.  When an
  operation unwinds, at least one attempt was started and at most as many as allowed.
\<close>

theorem async_starts_counted:
  fixes op_poll :: "'o \<Rightarrow> 'w \<Rightarrow> ('e, 't) operation_poll \<times> 'o \<times> 'w"
  assumes "async_flow X (chosen_timer default_timer (art_timer r)) suspend pend target due
      (art_cancellation_token r) cancelled op_poll rank"
    and "quiet_run calls X (chosen_timer default_timer (art_timer r)) suspend (art_cancellation_token r)
      (art_config r)"
    and "\<And>source. art_random_source r = Some source \<Longrightarrow> quiet_source calls source"
    and "\<And>future v a future' v'. op_poll future v = (a, future', v') \<Longrightarrow> calls v' = calls v"
    and "\<And>ordinal v made v'. operation ordinal v = (made, v') \<Longrightarrow>
      calls w + unat (nz_get ordinal) = Suc (calls v) \<Longrightarrow> calls v' = Suc (calls v)"
  shows "wp (async_run_with_default_timer X suspend r default_timer operation op_poll)
    (\<lambda>result w'. calls w' = calls w + reported_attempts result \<and>
       reported_attempts result \<le> config_cap (art_config r))
    (\<lambda>_ w'. calls w < calls w' \<and> calls w' \<le> calls w + config_cap (art_config r)) w"
proof -
  have deps: "deps_laws X"
    and waits: "wait_laws (chosen_timer default_timer (art_timer r)) suspend pend target due
      (art_cancellation_token r) cancelled"
    using assms(1) by (simp_all add: async_flow_def)
  have flow: "counted_async X (chosen_timer default_timer (art_timer r)) suspend pend target due
      (art_cancellation_token r) cancelled operation op_poll rank calls (art_config r) (calls w)"
    by (intro counted_async.intro counted_async_axioms.intro quiet_flow.intro deps waits assms)
  show ?thesis
    unfolding async_run_with_default_timer_def async_run_inner_def Let_def
    by (rule counted_run [OF deps assms(2,3) counted_async.counted_async_loop [OF flow]])
qed

text \<open>In the simulated world: starts are counted, with the ordinals they were expected with.\<close>

definition sim_counted_start :: "nonzero_u32 \<Rightarrow> sim_world \<Rightarrow> nat option \<times> sim_world" where
  "sim_counted_start ordinal w = (Some (sim_time w + 2),
     if unat (nz_get ordinal) = Suc (sim_calls w) then w\<lparr>sim_calls := Suc (sim_calls w)\<rparr> else w)"

lemma sim_async_quiet:
  "quiet_run sim_calls manual_deps sim_timer sim_park (Some (sim_token k)) (art_config sim_async_retry)"
proof -
  have "art_config sim_async_retry = rt_config sim_retry"
    by (simp add: sim_async_retry_def async_set_cancellation_token_def async_hard_attempt_timeout_def
        async_new_def sim_retry_def retry_set_cancellation_token_def retry_set_timer_def retry_new_def)
  then show ?thesis by (simp add: sim_quiet)
qed

interpretation sim_counted_async: counted_async manual_deps sim_timer sim_park sim_pend id sim_due
  "Some (sim_token k)" sim_cancelled sim_counted_start sim_op_poll sim_rank sim_calls
  "art_config sim_async_retry" 0 for k
  by (intro counted_async.intro quiet_flow.intro counted_async_axioms.intro sim_async.async_flow_axioms
      manual.deps_laws_axioms sim_wait.wait_laws_axioms sim_async_quiet)
    (auto simp: sim_op_poll_def sim_counted_start_def split: if_splits)

lemma async_starts_counted_witness:
  "wp (async_run_with_default_timer manual_deps sim_park sim_async_retry sim_timer sim_counted_start sim_op_poll)
    (\<lambda>result w'. sim_calls w' = reported_attempts result \<and> reported_attempts result \<le> 3)
    (\<lambda>_ w'. 0 < sim_calls w' \<and> sim_calls w' \<le> 3) sim_start"
proof -
  have facade: "chosen_timer sim_timer (art_timer sim_async_retry) = sim_timer"
    "art_cancellation_token sim_async_retry = Some (sim_token 60)"
    "art_random_source sim_async_retry = None"
    by (simp_all add: sim_async_retry_def chosen_timer_def async_set_cancellation_token_def
        async_hard_attempt_timeout_def async_new_def)
  have "sim_calls sim_start = 0" by (simp add: sim_start_def)
  then show ?thesis
    using async_starts_counted [of manual_deps sim_timer sim_async_retry sim_park sim_pend id sim_due
        sim_cancelled sim_op_poll sim_rank sim_calls sim_counted_start sim_start]
      sim_async.async_flow_axioms sim_async_quiet sim_counted_async.poll_quiet
      sim_counted_async.operation_counts
    by (simp add: facade sim_async_cap)
qed

end
