(* ===== verification/Deadlines.thy ===== *)
theory Deadlines
  imports Controller_Laws
begin

text \<open>
  Hard timeouts before an attempt (executor/internal/flow/): the plan prepared at the admission
  sample, and the commit of that plan at a later sample.
\<close>

section \<open>The prepared deadline\<close>

text \<open>No more than the given nanoseconds after the sample the plan was prepared at.\<close>

definition due_within ::
  "('i, 'd, 'x, 'b, 'w) deps \<Rightarrow> nat \<Rightarrow> 'i \<Rightarrow> 'i prepared_attempt_plan \<Rightarrow> bool"
where
  "due_within X limit sample plan \<longleftrightarrow>
     (\<exists>deadline. plan_deadline plan = Some deadline \<and> nanos_at X deadline \<le> nanos_at X sample + limit)"

context deps_laws
begin

lemma nanos_checked_add: "instant_checked_add X a d = Inr c \<Longrightarrow> nanos_at X c = nanos_at X a + as_nanos d"
  using add_ok [of a d c] by (simp add: nanos_at_def)

lemma started_before_sample:
  "fs_inv X fs \<Longrightarrow> nanos_at X (bs_started_at (fs_budget fs)) \<le> nanos_at X (bs_sampled_at (fs_budget fs))"
  by (auto simp: fs_inv_def bs_inv_def ledger_rel_def dest!: led_wf_operation_le_total(2))

text \<open>What is left of the flow timeout at the last sample.\<close>

lemma flow_remaining_nanos:
  assumes "fs_inv X fs" and "fs_flow_timeout fs = Some allowed"
  shows "\<exists>rest. flow_remaining X fs = Some (Some rest) \<and>
    as_nanos rest = as_nanos allowed - flow_elapsed X fs"
proof -
  have "bs_inv X (fs_budget fs)" using assms(1) by (simp add: fs_inv_def)
  then obtain snap where "bs_snapshot X (fs_budget fs) = Some snap"
      "as_nanos (snap_total_elapsed snap) = flow_elapsed X fs"
    using inv_snapshot unfolding flow_elapsed_def by blast
  then show ?thesis using assms(2) by (simp add: flow_remaining_def)
qed

lemma prepare_timeout_wp:
  assumes "ctl_sampled X K n b lf sample (fc, w)" and "fc_attempt_timeout fc = Some limit"
  shows "wp (ctl_prepare_timeout X sample) (\<lambda>r s. s = (fc, w) \<and>
      (\<forall>t. r = Inr t \<longrightarrow> due_within X (as_nanos limit) sample (plan_from_timeout t))) E (fc, w)"
proof -
  have inv: "fs_inv X (fc_state fc)" and sample: "bs_sampled_at (fs_budget (fc_state fc)) = sample"
    using assms(1) by (simp_all add: ctl_sampled_def ctl_ok_def)
  have attempt: "due_within X (as_nanos limit) sample (plan_from_timeout (Some (c, limit, scope)))"
    if "instant_checked_add X sample limit = Inr c" for c scope
    using nanos_checked_add [OF that]
    by (simp add: due_within_def plan_from_timeout_def plan_deadline_def prepared_timeout_new_def)
  show ?thesis
  proof (cases "fs_flow_timeout (fc_state fc)")
    case None
    then have "flow_effective_timeout X (Some limit) (fc_state fc) =
        Some (Some \<lparr>eff_duration = limit, eff_scope = ScopeAttempt\<rparr>)"
      by (simp add: flow_effective_timeout_def flow_remaining_def effective_timeout_select_def)
    then show ?thesis
      using attempt assms(2) by (auto simp: ctl_prepare_timeout_def map_right_def split: sum.splits)
  next
    case (Some allowed)
    then obtain rest where rest: "flow_remaining X (fc_state fc) = Some (Some rest)"
        "as_nanos rest = as_nanos allowed - flow_elapsed X (fc_state fc)"
      using flow_remaining_nanos [OF inv] by blast
    show ?thesis
    proof (cases "limit \<le> rest")
      case True
      then have "flow_effective_timeout X (Some limit) (fc_state fc) =
          Some (Some \<lparr>eff_duration = limit, eff_scope = ScopeAttempt\<rparr>)"
        using rest by (simp add: flow_effective_timeout_def effective_timeout_select_def)
      then show ?thesis
        using attempt assms(2) by (auto simp: ctl_prepare_timeout_def map_right_def split: sum.splits)
    next
      case False
      then have eff: "flow_effective_timeout X (Some limit) (fc_state fc) =
          Some (Some \<lparr>eff_duration = rest, eff_scope = ScopeFlow\<rparr>)"
        using rest by (simp add: flow_effective_timeout_def effective_timeout_select_def)
      have "due_within X (as_nanos limit) sample (plan_from_timeout (Some (c, d, scope)))"
        if "instant_checked_add X (bs_started_at (fs_budget (fc_state fc))) allowed = Inr c" for c d scope
        using nanos_checked_add [OF that] False rest(2) sample started_before_sample [OF inv]
        by (auto simp: due_within_def plan_from_timeout_def plan_deadline_def prepared_timeout_new_def less_eq_duration_def
            flow_elapsed_def)
      then show ?thesis
        using eff Some assms(2)
        by (auto simp: ctl_prepare_timeout_def flow_deadline_def map_right_def split: sum.splits)
    qed
  qed
qed

lemma prepare_due_wp:
  assumes "ctl_sampled X K n b lf sample s" and "fc_attempt_timeout (fst s) = Some limit"
  shows "wp (ctl_prepare_attempt X sample)
    (\<lambda>plan t. ctl_sampled X K n b lf sample t \<and> due_within X (as_nanos limit) sample plan)
    (ctl_ends X K n lf) s"
proof (cases s)
  case (Pair fc w)
  have ok: "ctl_ok X K n b lf (fc, w)" using assms(1) by (simp add: Pair ctl_sampled_def)
  show ?thesis
    unfolding Pair ctl_prepare_attempt_def
  proof (rule wp_seq [OF prepare_timeout_wp])
    show "ctl_sampled X K n b lf sample (fc, w)" "fc_attempt_timeout fc = Some limit"
      using assms by (simp_all add: Pair)
  next
    fix r :: "'x + ('i \<times> duration \<times> retry_timeout_scope) option" and t
    assume r: "t = (fc, w) \<and> (\<forall>t. r = Inr t \<longrightarrow> due_within X (as_nanos limit) sample (plan_from_timeout t))"
    show "wp (andthen (ctl_or_clock_failure X r) (\<lambda>timeout.
        let plan = plan_from_timeout timeout
        in andthen (ctl_set (\<lambda>fc. fc\<lparr>fc_current_hard_attempt_timeout := plan_duration plan\<rparr>)) (\<lambda>_. Prelude.ok plan)))
      (\<lambda>plan t. ctl_sampled X K n b lf sample t \<and> due_within X (as_nanos limit) sample plan)
      (ctl_ends X K n lf) t"
      using r assms(1) unfolding conjunct1 [OF r] wp_andthen [of "ctl_or_clock_failure X r"]
      by (intro ctl_or_clock_failure_wp [OF ok]) (auto simp: Let_def Pair ctl_sampled_def)
  qed
qed

end

section \<open>Properties\<close>

text \<open>
  C7. A hard attempt timeout bounds the admission too.  With an attempt timeout configured, a
  plan prepared at the admission sample is committed only at a sample that is not before
  it and less than the timeout after it (also when what remains of the flow timeout is
  shorter); so a zero timeout admits no attempt at all.  Every refusal leaves the count as it
  was and reports it.
\<close>

theorem hard_timeout_bounds_admission:
  assumes "deps_laws X" and "ctl_sampled X K n False lf sample s"
    and "fc_attempt_timeout (fst s) = Some limit"
  shows "wp (andthen (ctl_prepare_attempt X sample) (\<lambda>plan.
      ctl_commit_prepared_attempt X plan clock cancellation))
    (\<lambda>_ t. ctl_ok X K (Suc n) True lf t \<and> n < ctl_max K \<and> limit \<noteq> 0 \<and>
       nanos_at X sample \<le> nanos_at X (bs_sampled_at (fs_budget (fc_state (fst t)))) \<and>
       nanos_at X (bs_sampled_at (fs_budget (fc_state (fst t)))) < nanos_at X sample + as_nanos limit)
    (ctl_ends X K n lf) s"
proof (rule wp_seq [OF deps_laws.prepare_due_wp [OF assms]])
  fix plan t
  assume t: "ctl_sampled X K n False lf sample t \<and> due_within X (as_nanos limit) sample plan"
  then have ok: "ctl_ok X K n False lf t" and at: "bs_sampled_at (fs_budget (fc_state (fst t))) = sample"
    by (simp_all add: ctl_sampled_def)
  show "wp (ctl_commit_prepared_attempt X plan clock cancellation)
    (\<lambda>_ u. ctl_ok X K (Suc n) True lf u \<and> n < ctl_max K \<and> limit \<noteq> 0 \<and>
       nanos_at X sample \<le> nanos_at X (bs_sampled_at (fs_budget (fc_state (fst u)))) \<and>
       nanos_at X (bs_sampled_at (fs_budget (fc_state (fst u)))) < nanos_at X sample + as_nanos limit)
    (ctl_ends X K n lf) t"
    by (rule wp_mono [OF deps_laws.ctl_commit_deadline_wp [OF assms(1) ok]])
      (use t at in \<open>auto simp: due_within_def\<close>)
qed

lemma hard_timeout_bounds_admission_witness:
  "wp (andthen (ctl_prepare_attempt tick_deps (0, of_nanos 3)) (\<lambda>plan.
      ctl_commit_prepared_attempt tick_deps plan ticking_clock None))
    (\<lambda>_ t. ctl_ok tick_deps sample_controller 1 True None t \<and> 0 < ctl_max sample_controller \<and>
       of_nanos 7 \<noteq> 0 \<and>
       3 \<le> nanos_at tick_deps (bs_sampled_at (fs_budget (fc_state (fst t)))) \<and>
       nanos_at tick_deps (bs_sampled_at (fs_budget (fc_state (fst t)))) < 3 + as_nanos (of_nanos 7))
    (ctl_ends tick_deps sample_controller 0 None) (sample_controller, 4)"
proof -
  have "ctl_sampled tick_deps sample_controller 0 False None (0, of_nanos 3) (sample_controller, 4)"
    using sample_controller_ok
    by (simp add: ctl_sampled_def sample_controller_def ctl_new_def flow_new_def bs_new_def)
  moreover have "fc_attempt_timeout sample_controller = Some (of_nanos 7)"
    by (simp add: sample_controller_def ctl_new_def)
  moreover have "nanos_at tick_deps (0, of_nanos 3) = 3"
    by (simp add: nanos_at_def manual_deps_def max_nanos_def nanos_per_sec_def)
  ultimately show ?thesis
    using hard_timeout_bounds_admission [OF manual.deps_laws_axioms, of sample_controller 0 None "(0, of_nanos 3)"
        "(sample_controller, 4)" "of_nanos 7" ticking_clock None] by simp
qed

end
