(* ===== verification/Spec2Isabelle.thy ===== *)
theory Spec2Isabelle
  imports Wire Cancellation_Steps Sync_Retry Session Async_Laws Worker_Retry
    Worker_Contract Operation_Calls Async_Calls Deadlines
begin

text \<open>
  A model of qubit-retry, a Rust library that repeats a fallible operation under a policy.  Paths are
  relative to src/src.

  \<^bold>\<open>The program.\<close> A caller describes a policy (attempt limit, time budgets, backoff, jitter,
  hints: policy/, backoff/), adds rules that decide what a failure means (rule/), observers that
  are told what happens (observer/) and perhaps a budget shared between flows (budget/), and
  freezes them in a configuration (executor/retry_config.rs).  A facade then runs the flow:
  \<open>Retry\<close> on the calling thread, \<open>AsyncRetry\<close> and \<open>TokioRetry\<close> as futures, \<open>WorkerRetry\<close> on
  worker threads, and \<open>RetrySession\<close> for a caller that owns the loop.  All of them drive one
  controller (executor/internal/flow/), which admits attempts, accounts time, calls the rules
  and observers and ends the flow; between attempts they wait on a timer, cut short by a
  cancellation token (executor/internal/cancellation/, executor/internal/blocking/).  A flow
  ends in an \<open>outcome/\<close> value and tells the completion observers about it.

  \<^bold>\<open>How it is modelled.\<close> A method is a \<open>prog\<close> (Prelude): a function from the state to \<open>None\<close>, a
  panic or a run that never ends, or to a result (\<open>Inl\<close> the error, \<open>Inr\<close> the value) and the new
  state, so that a \<open>?\<close>, an early \<open>return Err\<close> and a panic of the source are each a branch.
  \<open>wp m Q E s\<close> says that \<open>m\<close> neither panics nor runs forever from \<open>s\<close>, that \<open>Q\<close> holds of what it
  returns and \<open>E\<close> of what it fails with.  The world \<open>'w\<close> holds all the program does not own
  (the clock, random numbers, callbacks, other threads), and every call that leaves the crate
  may change it at will.  Fixed-width integers are words, \<open>NonZeroU32\<close> and \<open>Duration\<close> are types of
  their own (Rust_Std), and \<open>f64\<close> is a parameter with the few laws of IEEE arithmetic that
  clamping needs (Float64).

  \<^bold>\<open>Theories.\<close>
  \<^item> Prelude, Rust_Std, Float64, Dependencies: the monad and its preconditions, loops, std
    types; the record \<open>deps\<close> of what comes from other crates (instants and their checked
    arithmetic, the attempt counter, \<open>powf\<close>, the thread's generator), with its laws in the locale
    \<open>deps_laws\<close> and their instance \<open>manual_deps\<close>.
  \<^item> Errors (error/, internal/), Backoff (backoff/, random/), Policy (policy/), Wire (the
    data-transfer types of policy/internal/ and backoff/internal/): the vocabulary of a policy.
    The lemmas say what validation accepts, that a delay respects its cap, that a hint is
    treated as documented, that a policy survives its wire form, in any format that reads back
    what it has written (the format is a parameter of the \<open>Serialize\<close> and \<open>Deserialize\<close> models).
  \<^item> Outcome (outcome/, context/), Callbacks (rule/, observer/): what a flow ends with, and the
    calls of foreign code, whose panics become \<open>CallbackFailed\<close> or diagnostics.
  \<^item> Budget (budget/): the account, the public handle with its owner tokens, and an abstract
    ledger that both refine, also over histories of calls.
  \<^item> Flow_State, Config, Controller, Controller_Laws (executor/internal/flow/,
    executor/retry_config.rs, executor/retry_config_builder.rs): the account of time and attempts,
    the plans with their deadlines, and every method of the controller.  \<open>ctl_ok X K n b lf s\<close> is
    its invariant, with \<open>K\<close> the controller the flow began with, \<open>n\<close> attempts admitted, \<open>b\<close> whether
    one is active, and \<open>lf\<close> the last failure; \<open>ctl_ends\<close> is what every terminal error of it keeps.
  \<^item> Retry_Cancellation and Cancellation_Steps (executor/internal/cancellation/,
    executor/retry_cancellation_token.rs, executor/retry_cancelled.rs): registry, state, future
    and token, method by method; then the interleavings of their atomic steps as an inductive
    relation, with the invariant that no waiting future is forgotten.
  \<^item> Runtime, Runtime_Sim (executor/internal/blocking/): timers, tokens and the blocking wait, the
    laws a wait relies on (locales \<open>token_laws\<close>, \<open>timer_laws\<close>, \<open>wait_laws\<close>), the proof that the
    crate's own token keeps them, and a simulated world in which all of them hold.
  \<^item> Rounds: a flow is a loop of rounds; a round that ends neither in success nor in an error
    leaves the controller idle with one more attempt used, so the attempt limit bounds the loop
    (locale \<open>rounds\<close>).  Sync_Retry (executor/retry.rs), Async_Retry and Async_Laws
    (executor/async_retry.rs, executor/tokio_retry.rs, executor/internal/tokio/) are its
    instances, Session (executor/retry_session.rs, executor/internal/session_phase/) has the
    loop at the caller.
  \<^item> Deadlines: what a prepared hard deadline means for the commit of the attempt.
    Operation_Calls: the attempts a result of \<open>Retry\<close> reports are the calls of the operation, by a
    count over the world that every other step leaves alone (\<open>keeps\<close>, locale \<open>quiet_run\<close>).
    Async_Calls: so are the starts of an asynchronous run, which gets the ordinals in order.
  \<^item> Worker_Threads, Worker_Attempt, Worker_Laws (executor/internal/worker/,
    executor/attempt_cancellation_token.rs): the worker, the reaper and the wakers as an
    inductive step relation on \<open>worker_system\<close> (thread phases, start gate, channel, token, value
    slot); the calling thread as a program whose every access comes after steps of the others;
    the invariant \<open>started_inv\<close>, which relates the threads to the events the caller has
    received, carried through the wait and the grace period.  Worker_Sim has threads that keep
    all laws, Worker_Contract says which event wins and what an outcome proves, Worker_Retry
    (executor/worker_retry.rs) is the facade, again an instance of \<open>rounds\<close>.

  \<^bold>\<open>Loops.\<close> No fuel is used.  The loops of the facades, of the waits and of the
  identifier search are \<open>loops\<close> (a \<open>partial_function\<close> in the option monad), where a loop that
  never ends is \<open>None\<close>; that they end is proved, by the attempt limit, by the wait laws and by the
  \<open>2 ^ 64\<close> identifiers.

  \<^bold>\<open>What is assumed.\<close> Of the clock crate: \<open>deps_laws\<close>, its arithmetic is exact or reports
  overflow.  Of a wait: a parked thread or suspended task is woken when something it waits
  for may have changed, and a pending timer comes nearer to its deadline (\<open>timer_laws\<close>).  Of a
  token: its answers follow the cancellation flag and the flag is never cleared (\<open>token_laws\<close>).
  Of an asynchronous attempt: it is pending finitely often (\<open>attempt_progress\<close>).
  Of the operating system: between two accesses of the calling thread the others make steps of
  \<open>worker_step\<close> (\<open>worker_threads\<close>); a blocking receive returns, because the operation ends or
  a waker sends, and events that decide nothing come finitely often (\<open>worker_laws\<close>).  Without
  the last two a worker run may block for ever, as the code's may.

  \<^bold>\<open>Not modelled.\<close> A worker left running after its grace period goes on outside the run, which has
  ended; what it still does is not followed.  Unwinding out of a custom
  clock, timer or random source, which the crate does not catch.  Dropping a run before it
  completes.  \<open>Error::source\<close>, \<open>Debug\<close>, \<open>Clone\<close> and re-exports, which have no behaviour of their
  own; the memory order of the atomics, each of which is one step here.
\<close>

end
